(* ===== verification/Prelude.thy ===== *)
theory Prelude
  imports Main "HOL-Library.Char_ord" "HOL-Library.List_Lexorder" "HOL-Library.Sublist"
begin

text \<open>
  Shared vocabulary of the development.

  A C++ \<open>std::string\<close> is a sequence of bytes and a HOL \<open>string\<close> is a list of 8-bit characters,
  so strings are modelled by \<open>string\<close> and compared, as \<open>std::string\<close> compares, byte by byte as
  unsigned values (the orders of \<open>Char_ord\<close> and \<open>List_Lexorder\<close>).
  A function that may throw returns a sum: \<open>Inl\<close> carries the exception, \<open>Inr\<close> the result.
  \<open>std::map\<close> is a list of pairs with strictly increasing keys; its operations are stated once
  as the locale \<open>ordered_map\<close> and discharged for the list implementation.
\<close>

section \<open>Results that may be exceptions\<close>

named_theorems result_simps \<open>equations that unfold a chain of fallible calls\<close>

definition bindE :: "'e + 'a \<Rightarrow> ('a \<Rightarrow> 'e + 'b) \<Rightarrow> 'e + 'b" where
  "bindE r f = (case r of Inl e \<Rightarrow> Inl e | Inr x \<Rightarrow> f x)"

lemma bindE_Inl [simp]: "bindE (Inl e) f = Inl e"
  by (simp add: bindE_def)

lemma bindE_Inr [simp]: "bindE (Inr x) f = f x"
  by (simp add: bindE_def)

lemma bindE_eq_Inr [simp]: "bindE r f = Inr y \<longleftrightarrow> (\<exists>x. r = Inr x \<and> f x = Inr y)"
  by (cases r) auto

lemma bindE_eq_Inl [simp]: "bindE r f = Inl e \<longleftrightarrow> r = Inl e \<or> (\<exists>x. r = Inr x \<and> f x = Inl e)"
  by (cases r) auto

text \<open>\<open>if (bad) throw e;\<close> as a statement.\<close>

definition refuse_if :: "bool \<Rightarrow> 'e \<Rightarrow> 'e + unit" where
  "refuse_if bad e = (if bad then Inl e else Inr ())"

lemma refuse_if_Inr [simp]: "refuse_if bad e = Inr u \<longleftrightarrow> \<not> bad"
  by (simp add: refuse_if_def)

lemma refuse_if_Inl [simp]: "refuse_if bad e = Inl e' \<longleftrightarrow> bad \<and> e' = e"
  by (auto simp: refuse_if_def)

lemma bindE_refuse_if [simp]:
  "bindE (refuse_if bad e) f = (if bad then Inl e else f ())"
  by (simp add: refuse_if_def)

text \<open>\<open>bindO\<close> continues only when an optional value is present.\<close>

definition or_else :: "'a option \<Rightarrow> 'a \<Rightarrow> 'a" where
  "or_else v d = (case v of None \<Rightarrow> d | Some x \<Rightarrow> x)"

lemma or_else_simps [simp]: "or_else None d = d" "or_else (Some x) d = x"
  by (simp_all add: or_else_def)

text \<open>A range-for loop whose body may throw, collecting what it pushes.\<close>

fun collectE :: "('a \<Rightarrow> 'e + 'b) \<Rightarrow> 'a list \<Rightarrow> 'e + 'b list" where
  "collectE f [] = Inr []"
| "collectE f (x # xs) = bindE (f x) (\<lambda>y. bindE (collectE f xs) (\<lambda>ys. Inr (y # ys)))"

lemma collectE_Inr:
  "collectE f xs = Inr ys \<longleftrightarrow> length ys = length xs \<and> (\<forall>i < length xs. f (xs ! i) = Inr (ys ! i))"
proof (induction xs arbitrary: ys)
  case Nil
  then show ?case by auto
next
  case (Cons x xs)
  show ?case
    by (cases ys) (auto simp: Cons.IH nth_Cons' less_Suc_eq_0_disj)
qed

lemma collectE_Inr_list_all2:
  "collectE f xs = Inr ys \<longleftrightarrow> list_all2 (\<lambda>x y. f x = Inr y) xs ys"
  by (auto simp: collectE_Inr list_all2_conv_all_nth)

text \<open>A range-for loop over the elements whose body only checks.\<close>

fun checkE :: "('a \<Rightarrow> 'e + unit) \<Rightarrow> 'a list \<Rightarrow> 'e + unit" where
  "checkE f [] = Inr ()"
| "checkE f (x # xs) = bindE (f x) (\<lambda>_. checkE f xs)"

lemma checkE_Inr [simp]: "checkE f xs = Inr u \<longleftrightarrow> (\<forall>x \<in> set xs. f x = Inr ())"
  by (induction xs) auto

lemma checkE_Inl: "checkE f xs = Inl e \<Longrightarrow> \<exists>x \<in> set xs. f x = Inl e"
  by (induction xs) auto

section \<open>Byte strings\<close>

abbreviation SPC :: char where "SPC \<equiv> CHR '' ''"
abbreviation TAB :: char where "TAB \<equiv> CHR 0x09"
abbreviation LF :: char where "LF \<equiv> CHR 0x0A"
abbreviation CR :: char where "CR \<equiv> CHR 0x0D"
abbreviation SLASH :: char where "SLASH \<equiv> CHR ''/''"
abbreviation SQUOTE :: char where "SQUOTE \<equiv> CHR 0x27"
abbreviation DQUOTE :: char where "DQUOTE \<equiv> CHR 0x22"
abbreviation BACKSLASH :: char where "BACKSLASH \<equiv> CHR 0x5C"

text \<open>The text of a name in an error message: \<open>'name'\<close>.\<close>

definition quoted :: "string \<Rightarrow> string" where
  "quoted s = SQUOTE # s @ [SQUOTE]"

text \<open>\<open>static_cast<unsigned char>(c)\<close>.\<close>

definition byte :: "char \<Rightarrow> nat" where
  "byte c = of_char c"

lemma byte_bound: "byte c < 256"
  by (simp add: byte_def)

text \<open>\<open>std::to_string\<close> of a non-negative number.\<close>

fun decimal :: "nat \<Rightarrow> string" where
  "decimal n = (if n < 10 then [char_of (48 + n)] else decimal (n div 10) @ [char_of (48 + n mod 10)])"

declare decimal.simps [simp del]

text \<open>\<open>s.compare(0, p.size(), p) == 0\<close>.\<close>

definition has_prefix :: "string \<Rightarrow> string \<Rightarrow> bool" where
  "has_prefix s p \<longleftrightarrow> take (length p) s = p"

lemma has_prefix_iff: "has_prefix s p \<longleftrightarrow> prefix p s"
  by (auto simp: has_prefix_def prefix_def) (metis append_take_drop_id)

lemma has_prefix_append [simp]: "has_prefix (p @ s) p"
  by (simp add: has_prefix_def)

lemma has_prefixE: "has_prefix s p \<Longrightarrow> (\<And>r. s = p @ r \<Longrightarrow> P) \<Longrightarrow> P"
  by (metis append_take_drop_id has_prefix_def)

text \<open>
  \<open>s.compare(s.size() - p.size(), p.size(), p) == 0\<close> where the caller has checked
  \<open>s.size() >= p.size()\<close>.
\<close>

definition has_suffix :: "string \<Rightarrow> string \<Rightarrow> bool" where
  "has_suffix s p \<longleftrightarrow> length p \<le> length s \<and> drop (length s - length p) s = p"

lemma has_suffix_iff: "has_suffix s p \<longleftrightarrow> suffix p s"
  by (auto simp: has_suffix_def suffix_def)
    (metis append_take_drop_id)

text \<open>\<open>s.find(c)\<close> and \<open>s.rfind(c)\<close>; \<open>None\<close> is \<open>npos\<close>.\<close>

fun find_char :: "char \<Rightarrow> string \<Rightarrow> nat option" where
  "find_char c [] = None"
| "find_char c (x # xs) = (if x = c then Some 0 else map_option Suc (find_char c xs))"

fun rfind_char :: "char \<Rightarrow> string \<Rightarrow> nat option" where
  "rfind_char c [] = None"
| "rfind_char c (x # xs) =
     (case rfind_char c xs of Some i \<Rightarrow> Some (Suc i) | None \<Rightarrow> if x = c then Some 0 else None)"

lemma find_char_None [simp]: "find_char c s = None \<longleftrightarrow> c \<notin> set s"
  by (induction s) auto

lemma find_char_split:
  "find_char c s = Some i \<Longrightarrow> i < length s \<and> s = take i s @ c # drop (Suc i) s \<and> c \<notin> set (take i s)"
  by (induction s arbitrary: i) (auto split: if_splits)

lemma find_char_append: "c \<notin> set s \<Longrightarrow> find_char c (s @ c # t) = Some (length s)"
  by (induction s) auto

lemma split_at_char:
  fixes c :: char
  assumes "c \<notin> set a" and "c \<notin> set b"
  shows "a @ c # x = b @ c # y \<longleftrightarrow> a = b \<and> x = y"
proof
  assume e: "a @ c # x = b @ c # y"
  have "length a = length b"
    using find_char_append [OF assms(1), of x] find_char_append [OF assms(2), of y] by (simp add: e)
  then show "a = b \<and> x = y" using e by simp
qed simp

lemma rfind_char_None [simp]: "rfind_char c s = None \<longleftrightarrow> c \<notin> set s"
  by (induction s) (auto split: option.splits)

lemma rfind_char_split:
  "rfind_char c s = Some i \<Longrightarrow> i < length s \<and> s = take i s @ c # drop (Suc i) s \<and> c \<notin> set (drop (Suc i) s)"
proof (induction s arbitrary: i)
  case (Cons x xs)
  then show ?case by (cases "rfind_char c xs") (auto split: if_splits)
qed simp

lemma rfind_char_append: "c \<notin> set t \<Longrightarrow> rfind_char c (s @ c # t) = Some (length s)"
  by (induction s) (auto split: option.splits)

text \<open>\<open>join(parts, separator)\<close> of manifest.cpp: the separator is only added to non-empty text.\<close>

fun join_onto :: "string \<Rightarrow> string list \<Rightarrow> string \<Rightarrow> string" where
  "join_onto joined [] separator = joined"
| "join_onto joined (part # parts) separator =
     join_onto ((if joined \<noteq> [] then joined @ separator else joined) @ part) parts separator"

definition join :: "string list \<Rightarrow> string \<Rightarrow> string" where
  "join parts separator = join_onto [] parts separator"

section \<open>Ordered maps\<close>

text \<open>The contract of \<open>std::map\<close> that the program relies on.\<close>

locale ordered_map =
  fixes lookup :: "'m \<Rightarrow> 'k::linorder \<Rightarrow> 'v option"
    and put :: "'k \<Rightarrow> 'v \<Rightarrow> 'm \<Rightarrow> 'm"
    and erase :: "'k \<Rightarrow> 'm \<Rightarrow> 'm"
    and keys :: "'m \<Rightarrow> 'k list"
    and inv :: "'m \<Rightarrow> bool"
  assumes lookup_put: "inv m \<Longrightarrow> lookup (put k v m) j = (if j = k then Some v else lookup m j)"
    and lookup_erase: "inv m \<Longrightarrow> lookup (erase k m) j = (if j = k then None else lookup m j)"
    and inv_put: "inv m \<Longrightarrow> inv (put k v m)"
    and inv_erase: "inv m \<Longrightarrow> inv (erase k m)"
    and keys_lookup: "inv m \<Longrightarrow> k \<in> set (keys m) \<longleftrightarrow> lookup m k \<noteq> None"
    and keys_increasing: "inv m \<Longrightarrow> sorted_wrt (<) (keys m)"
begin

lemma keys_put: "inv m \<Longrightarrow> set (keys (put k v m)) = insert k (set (keys m))"
  by (auto simp: keys_lookup inv_put lookup_put split: if_splits)

lemma keys_erase: "inv m \<Longrightarrow> set (keys (erase k m)) = set (keys m) - {k}"
  by (auto simp: keys_lookup inv_erase lookup_erase split: if_splits)

lemma keys_distinct: "inv m \<Longrightarrow> distinct (keys m)"
  using keys_increasing by (simp add: strict_sorted_iff)

lemma keys_sorted: "inv m \<Longrightarrow> sorted (keys m)"
  using keys_increasing by (simp add: strict_sorted_iff)

lemma keys_determined:
  assumes "inv m" and "inv m'" and "\<And>k. lookup m k = lookup m' k"
  shows "keys m = keys m'"
proof (rule strict_sorted_equal)
  show "sorted_wrt (<) (keys m')" "sorted_wrt (<) (keys m)"
    using assms(1,2) by (simp_all add: keys_increasing)
  show "set (keys m) = set (keys m')"
    using assms by (auto simp: keys_lookup)
qed

end

subsection \<open>The list implementation\<close>

definition smap_inv :: "('k::linorder \<times> 'v) list \<Rightarrow> bool" where
  "smap_inv m \<longleftrightarrow> sorted_wrt (<) (map fst m)"

definition smap_put :: "'k::linorder \<Rightarrow> 'v \<Rightarrow> ('k \<times> 'v) list \<Rightarrow> ('k \<times> 'v) list" where
  "smap_put k v m = filter (\<lambda>e. fst e < k) m @ (k, v) # filter (\<lambda>e. k < fst e) m"

definition smap_erase :: "'k::linorder \<Rightarrow> ('k \<times> 'v) list \<Rightarrow> ('k \<times> 'v) list" where
  "smap_erase k m = filter (\<lambda>e. fst e \<noteq> k) m"

text \<open>\<open>emplace\<close> keeps an entry that is already there.\<close>

definition smap_emplace :: "'k::linorder \<Rightarrow> 'v \<Rightarrow> ('k \<times> 'v) list \<Rightarrow> ('k \<times> 'v) list" where
  "smap_emplace k v m = (if map_of m k = None then smap_put k v m else m)"

lemma smap_inv_Nil [simp]: "smap_inv []"
  by (simp add: smap_inv_def)

lemma smap_inv_filter: "smap_inv m \<Longrightarrow> smap_inv (filter p m)"
  unfolding smap_inv_def by (induction m) auto

lemma map_of_filter_key: "map_of (filter (\<lambda>e. p (fst e)) m) j = (if p j then map_of m j else None)"
  by (induction m) auto

lemma smap_find_put: "map_of (smap_put k v m) j = (if j = k then Some v else map_of m j)"
  by (auto simp: smap_put_def map_add_def map_of_filter_key [where p = "\<lambda>x. x < k"]
      map_of_filter_key [where p = "\<lambda>x. k < x"] split: option.splits)

interpretation smap: ordered_map map_of smap_put smap_erase "map fst" smap_inv
proof (unfold_locales, goal_cases)
  case 1
  then show ?case by (simp add: smap_find_put)
next
  case 2
  then show ?case by (simp add: smap_erase_def map_of_filter_key [where p = "\<lambda>x. x \<noteq> _"])
next
  case (3 m k v)
  then show ?case
    by (force simp: smap_put_def smap_inv_def sorted_wrt_append sorted_wrt_map
        intro: sorted_wrt_filter)
next
  case 4
  then show ?case by (simp add: smap_erase_def smap_inv_filter)
next
  case (5 m k)
  then show ?case by (simp add: map_of_eq_None_iff image_iff)
next
  case 6
  then show ?case by (simp add: smap_inv_def)
qed

lemma smap_find_emplace:
  "map_of (smap_emplace k v m) j = (if j = k \<and> map_of m k = None then Some v else map_of m j)"
  by (simp add: smap_emplace_def smap_find_put)

lemma smap_inv_emplace: "smap_inv m \<Longrightarrow> smap_inv (smap_emplace k v m)"
  by (simp add: smap_emplace_def smap.inv_put)

lemma smap_entry_iff: "smap_inv m \<Longrightarrow> (k, v) \<in> set m \<longleftrightarrow> map_of m k = Some v"
  by (metis map_of_SomeD map_of_is_SomeI smap.keys_distinct)

end
