(* ===== verification/Names.thy ===== *)
theory Names
  imports Prelude
begin

text \<open>
  The names a manifest may use (src/src/manifest.cpp): environment variable names and the
  list of refused ones, store key segments, and the secret names, regions and projects of the
  cloud backends. The classification of bytes is that of the C locale.
\<close>

section \<open>Bytes\<close>

definition in_range :: "char \<Rightarrow> char \<Rightarrow> char \<Rightarrow> bool" where
  "in_range lo hi c \<longleftrightarrow> byte lo \<le> byte c \<and> byte c \<le> byte hi"

definition isdigit :: "char \<Rightarrow> bool" where "isdigit = in_range CHR ''0'' CHR ''9''"
definition islower :: "char \<Rightarrow> bool" where "islower = in_range CHR ''a'' CHR ''z''"
definition isupper :: "char \<Rightarrow> bool" where "isupper = in_range CHR ''A'' CHR ''Z''"
definition isalpha :: "char \<Rightarrow> bool" where "isalpha c \<longleftrightarrow> isupper c \<or> islower c"
definition isalnum :: "char \<Rightarrow> bool" where "isalnum c \<longleftrightarrow> isalpha c \<or> isdigit c"

definition toupper :: "char \<Rightarrow> char" where
  "toupper c = (if islower c then char_of (byte c - 32) else c)"

lemma byte_of_char: "n < 256 \<Longrightarrow> byte (char_of n) = n"
  by (simp add: byte_def of_char_of)

lemma toupper_idem [simp]: "toupper (toupper c) = toupper c"
  by (auto simp: toupper_def islower_def in_range_def byte_of_char) (simp_all add: byte_def)

section \<open>Environment variable names\<close>

definition is_identifier :: "string \<Rightarrow> bool" where
  "is_identifier s =
     (if s = [] \<or> \<not> (isalpha (hd s) \<or> hd s = CHR ''_'') then False
      else list_all (\<lambda>c. isalnum c \<or> c = CHR ''_'') s)"

definition kDeniedPrefixes :: "string list" where
  "kDeniedPrefixes =
     [''LD_'', ''DYLD_'', ''SECRETOV_'', ''GIT_'', ''XDG_'', ''NPM_CONFIG_'', ''BUNDLE_'', ''GEM_'',
      ''LUA_'', ''PIP_'', ''UV_'', ''CARGO_'', ''RUSTUP_'', ''RUSTC_'', ''DOTNET_'', ''CORECLR_'',
      ''AWS_ENDPOINT_URL'', ''CLOUDSDK_'']"

definition kDeniedNames :: "string list" where
  "kDeniedNames =
     [''PATH'', ''HOME'', ''BASH_ENV'', ''ENV'', ''IFS'',
      ''PROMPT_COMMAND'', ''PS1'', ''PS4'', ''ZDOTDIR'', ''PAGER'',
      ''PSQL_PAGER'', ''MANPAGER'', ''LESSOPEN'', ''LESSCLOSE'', ''EDITOR'',
      ''VISUAL'', ''GCONV_PATH'', ''NODE_OPTIONS'', ''NODE_PATH'', ''PYTHONSTARTUP'',
      ''PYTHONPATH'', ''PYTHONHOME'', ''PERL5OPT'', ''PERL5LIB'', ''RUBYOPT'',
      ''RUBYLIB'', ''JAVA_TOOL_OPTIONS'', ''JDK_JAVA_OPTIONS'', ''_JAVA_OPTIONS'', ''PERLLIB'',
      ''PYTHONUSERBASE'', ''PSQLRC'', ''SSH_ASKPASS'', ''SSH_ASKPASS_REQUIRE'', ''KUBECONFIG'',
      ''AWS_CONFIG_FILE'', ''AWS_SHARED_CREDENTIALS_FILE'', ''OPENSSL_CONF'', ''OPENSSL_ENGINES'', ''OPENSSL_MODULES'',
      ''GOFLAGS'', ''CLASSPATH'', ''MAVEN_OPTS'', ''GRADLE_OPTS'', ''DOCKER_HOST'',
      ''PYTHONWARNINGS'', ''PYTHONBREAKPOINT'', ''BROWSER'', ''PERL5DB'', ''PHPRC'',
      ''PHP_INI_SCAN_DIR'', ''GLIBC_TUNABLES'', ''LOCPATH'', ''NLSPATH'', ''SHELLOPTS'',
      ''BASHOPTS'', ''R_PROFILE_USER'', ''JULIA_LOAD_PATH'', ''TCLLIBPATH'', ''ERL_AFLAGS'',
      ''ELIXIR_ERL_OPTIONS'', ''RUSTC'', ''RUSTDOC'', ''RUSTFLAGS'', ''RUSTDOCFLAGS'',
      ''GOENV'', ''GOROOT'', ''GOTOOLCHAIN'', ''GOWORK'', ''CC'',
      ''CXX'', ''MAKEFLAGS'', ''MFLAGS'', ''GNUMAKEFLAGS'',
      ''GOPROXY'', ''GONOPROXY'', ''GOPRIVATE'', ''GOSUMDB'', ''GONOSUMDB'',
      ''GONOSUMCHECK'', ''GOINSECURE'',
      ''SSL_CERT_FILE'', ''SSL_CERT_DIR'', ''CURL_CA_BUNDLE'', ''REQUESTS_CA_BUNDLE'', ''NODE_EXTRA_CA_CERTS'',
      ''SSLKEYLOGFILE'', ''NODE_TLS_REJECT_UNAUTHORIZED'', ''AWS_CA_BUNDLE'', ''PYTHONHTTPSVERIFY'',
      ''AWS_EC2_METADATA_SERVICE_ENDPOINT'', ''AWS_CONTAINER_CREDENTIALS_FULL_URI'', ''AWS_WEB_IDENTITY_TOKEN_FILE'',
      ''GOOGLE_APPLICATION_CREDENTIALS'', ''GOOGLE_CLOUD_UNIVERSE_DOMAIN'', ''GCE_METADATA_HOST'', ''GCE_METADATA_IP'',
      ''GCE_METADATA_ROOT'', ''AWS_DATA_PATH'', ''AWS_CSM_HOST'', ''AWS_CONTAINER_AUTHORIZATION_TOKEN_FILE'',
      ''GRPC_DEFAULT_SSL_ROOTS_FILE_PATH'', ''HTTPLIB2_CA_CERTS'',
      ''AWS_PROFILE'', ''AWS_DEFAULT_PROFILE'']"

definition kCredentialNames :: "string list" where
  "kCredentialNames = [''CARGO_REGISTRY_TOKEN'', ''UV_PUBLISH_TOKEN'', ''UV_PUBLISH_PASSWORD'', ''UV_PUBLISH_USERNAME'']"

definition kRegistries :: string where "kRegistries = ''CARGO_REGISTRIES_''"
definition kTokenSuffix :: string where "kTokenSuffix = ''_TOKEN''"
definition kProxySuffix :: string where "kProxySuffix = ''_PROXY''"

definition is_denied_env_name :: "string \<Rightarrow> bool" where
  "is_denied_env_name name =
     (let upper = map toupper name in
      if upper \<in> set kCredentialNames then False
      else if length upper > length kRegistries + length kTokenSuffix \<and> has_prefix upper kRegistries \<and>
              has_suffix upper kTokenSuffix then False
      else if list_ex (has_prefix upper) kDeniedPrefixes then True
      else if upper \<in> set kDeniedNames then True
      else upper \<noteq> ''NO_PROXY'' \<and> has_suffix upper kProxySuffix)"

definition manifest_error :: "string \<Rightarrow> string \<Rightarrow> string" where
  "manifest_error path message = ''manifest '' @ quoted path @ '': '' @ message"

definition require_manifest_env_name :: "string \<Rightarrow> string \<Rightarrow> string \<Rightarrow> string + unit" where
  "require_manifest_env_name name path what =
     bindE (refuse_if (\<not> is_identifier name) (manifest_error path (what @ '' is not a valid environment variable name'')))
       (\<lambda>_. refuse_if (is_denied_env_name name) (manifest_error path (what @
          '' cannot be set from a manifest (it can load code into the child process, redirect its traffic, or steer secretov)'')))"

text \<open>The spelling in upper or lower case makes no difference.\<close>

lemma is_denied_case: "map toupper a = map toupper b \<Longrightarrow> is_denied_env_name a = is_denied_env_name b"
  by (simp add: is_denied_env_name_def Let_def)

lemma require_manifest_env_name_Inr [simp]:
  "require_manifest_env_name name path what = Inr u \<longleftrightarrow> is_identifier name \<and> \<not> is_denied_env_name name"
  by (auto simp: require_manifest_env_name_def)

text \<open>A name under a refused prefix is refused unless it is one of the credential names.\<close>

lemma denied_prefix:
  assumes "p \<in> set kDeniedPrefixes" and "has_prefix (map toupper name) p"
    and "map toupper name \<notin> set kCredentialNames" and "\<not> has_prefix (map toupper name) kRegistries"
  shows "is_denied_env_name name"
  using assms by (auto simp: is_denied_env_name_def Let_def list_ex_iff)

section \<open>Store keys\<close>

definition require_segment :: "string \<Rightarrow> string \<Rightarrow> string + unit" where
  "require_segment s what =
     refuse_if (s = [] \<or> find_char SLASH s \<noteq> None)
       (what @ '' must be non-empty and contain no '/': '' @ quoted s)"

definition scoped_key :: "string \<Rightarrow> string \<Rightarrow> string \<Rightarrow> string + string" where
  "scoped_key env project name =
     bindE (require_segment env ''environment'') (\<lambda>_.
     bindE (require_segment project ''project'') (\<lambda>_.
     bindE (require_segment name ''secret name'') (\<lambda>_.
       Inr (env @ ''/'' @ project @ ''/'' @ name))))"

definition scope_prefix :: "string \<Rightarrow> string \<Rightarrow> string + string" where
  "scope_prefix env project =
     bindE (require_segment env ''environment'') (\<lambda>_.
     bindE (require_segment project ''project'') (\<lambda>_.
       Inr (env @ ''/'' @ project @ ''/'')))"

lemma require_segment_Inr [simp]: "require_segment s what = Inr u \<longleftrightarrow> s \<noteq> [] \<and> SLASH \<notin> set s"
  by (auto simp: require_segment_def)

lemma scoped_key_Inr:
  "scoped_key env project name = Inr k \<longleftrightarrow>
     (\<forall>s \<in> {env, project, name}. s \<noteq> [] \<and> SLASH \<notin> set s) \<and> k = env @ SLASH # project @ SLASH # name"
  by (auto simp: scoped_key_def)

text \<open>Distinct scopes and names never share a key.\<close>

lemma scoped_key_inj:
  assumes "scoped_key env project name = Inr k" and "scoped_key env' project' name' = Inr k"
  shows "env = env' \<and> project = project' \<and> name = name'"
  using assms by (auto simp: scoped_key_Inr split_at_char)

text \<open>A key is listed under exactly its own scope.\<close>

lemma scoped_key_prefix:
  assumes "scoped_key env project name = Inr k" and "scope_prefix env' project' = Inr p"
  shows "has_prefix k p \<longleftrightarrow> env = env' \<and> project = project'"
proof
  assume "has_prefix k p"
  then obtain r where "k = p @ r" by (rule has_prefixE)
  then have "env @ SLASH # project @ SLASH # name = env' @ SLASH # project' @ SLASH # r"
    using assms by (auto simp: scoped_key_Inr scope_prefix_def)
  then show "env = env' \<and> project = project'"
    using assms by (auto simp: scoped_key_Inr scope_prefix_def split_at_char)
next
  assume "env = env' \<and> project = project'"
  then show "has_prefix k p"
    using assms by (auto simp: scoped_key_Inr scope_prefix_def has_prefix_def)
qed

section \<open>Cloud names\<close>

definition is_ascii_alnum :: "char \<Rightarrow> bool" where
  "is_ascii_alnum c \<longleftrightarrow> isdigit c \<or> islower c \<or> isupper c"

definition is_lower_or_digit :: "char \<Rightarrow> bool" where
  "is_lower_or_digit c \<longleftrightarrow> isdigit c \<or> islower c"

definition is_name :: "string \<Rightarrow> string \<Rightarrow> nat \<Rightarrow> bool" where
  "is_name s extra max_len \<longleftrightarrow> s \<noteq> [] \<and> length s \<le> max_len \<and> list_all (\<lambda>c. is_ascii_alnum c \<or> c \<in> set extra) s"

definition is_aws_secret_name :: "string \<Rightarrow> bool" where
  "is_aws_secret_name s = is_name s ''/_+=.@-'' 512"

definition is_gcp_secret_id :: "string \<Rightarrow> bool" where
  "is_gcp_secret_id s = is_name s ''_-'' 255"

definition is_gcp_project :: "string \<Rightarrow> bool" where
  "is_gcp_project s \<longleftrightarrow> length s \<ge> 6 \<and> length s \<le> 30 \<and> islower (hd s) \<and> is_lower_or_digit (last s) \<and>
     list_all (\<lambda>c. is_lower_or_digit c \<or> c = CHR ''-'') s"

definition is_aws_account :: "string \<Rightarrow> bool" where
  "is_aws_account s \<longleftrightarrow> length s = 12 \<and> list_all isdigit s"

definition kRegions :: "string list" where
  "kRegions =
     [''us-east-1'', ''us-east-2'', ''us-west-1'', ''us-west-2'', ''af-south-1'', ''ap-east-1'',
      ''ap-east-2'', ''ap-south-1'', ''ap-south-2'', ''ap-southeast-1'', ''ap-southeast-2'', ''ap-southeast-3'',
      ''ap-southeast-4'', ''ap-southeast-5'', ''ap-southeast-6'', ''ap-southeast-7'', ''ap-northeast-1'', ''ap-northeast-2'',
      ''ap-northeast-3'', ''ca-central-1'', ''ca-west-1'', ''eu-central-1'', ''eu-central-2'', ''eu-west-1'',
      ''eu-west-2'', ''eu-west-3'', ''eu-north-1'', ''eu-south-1'', ''eu-south-2'', ''il-central-1'',
      ''me-south-1'', ''me-central-1'', ''mx-central-1'', ''sa-east-1'']"

definition is_known_aws_region :: "string \<Rightarrow> bool" where
  "is_known_aws_region region \<longleftrightarrow> region \<in> set kRegions"

fun split_on_from :: "string \<Rightarrow> char \<Rightarrow> string \<Rightarrow> string list" where
  "split_on_from part sep [] = [part]"
| "split_on_from part sep (c # s) = (if c = sep then part # split_on_from [] sep s else split_on_from (part @ [c]) sep s)"

definition split_on :: "string \<Rightarrow> char \<Rightarrow> string list" where
  "split_on s sep = split_on_from [] sep s"

definition require_aws_region :: "string \<Rightarrow> string \<Rightarrow> string \<Rightarrow> string + unit" where
  "require_aws_region region manifest_path what =
     refuse_if (\<not> is_known_aws_region region)
       (manifest_error manifest_path (what @ '' region '' @ quoted region @ '' is not in this build's region table; upgrade secretov''))"

definition require_gcp_project :: "string \<Rightarrow> string \<Rightarrow> string \<Rightarrow> string + unit" where
  "require_gcp_project project manifest_path what =
     refuse_if (\<not> is_gcp_project project)
       (manifest_error manifest_path (what @ '' project '' @ quoted project @ '' is not a valid GCP project id (lowercase id, 6-30 characters)''))"

definition resolve_aws_path :: "string \<Rightarrow> string \<Rightarrow> string \<Rightarrow> string \<Rightarrow> string + string" where
  "resolve_aws_path secret_path env_location manifest_path described =
     (if \<not> has_prefix secret_path ''arn:'' then
        bindE (refuse_if (\<not> is_aws_secret_name secret_path)
            (manifest_error manifest_path (described @ '' path is not a valid AWS secret name or ARN'')))
          (\<lambda>_. Inr env_location)
      else
        let parts = split_on secret_path (CHR '':'') in
        bindE (refuse_if (length parts \<noteq> 7 \<or> parts ! 1 \<noteq> ''aws'' \<or> parts ! 2 \<noteq> ''secretsmanager'' \<or>
              \<not> is_aws_account (parts ! 4) \<or> parts ! 5 \<noteq> ''secret'' \<or> \<not> is_aws_secret_name (parts ! 6))
            (manifest_error manifest_path (described @
              '' path is not a valid ARN (arn:aws:secretsmanager:REGION:ACCOUNT:secret:NAME; partition aws only)'')))
          (\<lambda>_. bindE (require_aws_region (parts ! 3) manifest_path (described @ '' ARN'')) (\<lambda>_. Inr (parts ! 3))))"

definition resolve_gcp_path :: "string \<Rightarrow> string \<Rightarrow> string \<Rightarrow> string \<Rightarrow> string + string" where
  "resolve_gcp_path secret_path env_location manifest_path described =
     (if \<not> has_prefix secret_path ''projects/'' then
        bindE (refuse_if (\<not> is_gcp_secret_id secret_path)
            (manifest_error manifest_path (described @ '' path is not a valid GCP secret id or resource name'')))
          (\<lambda>_. Inr env_location)
      else
        let parts = split_on secret_path SLASH in
        bindE (refuse_if (length parts \<noteq> 4 \<or> parts ! 2 \<noteq> ''secrets'' \<or> \<not> is_gcp_project (parts ! 1) \<or>
              \<not> is_gcp_secret_id (parts ! 3))
            (manifest_error manifest_path (described @ '' path is not a valid resource name (projects/PROJECT/secrets/ID)'')))
          (\<lambda>_. Inr (parts ! 1)))"

fun join_with :: "char \<Rightarrow> string list \<Rightarrow> string" where
  "join_with sep [] = []"
| "join_with sep [p] = p"
| "join_with sep (p # q # ps) = p @ sep # join_with sep (q # ps)"

lemma split_on_from_nonempty: "split_on_from p sep s \<noteq> []"
  by (induction p sep s rule: split_on_from.induct) auto

lemma join_split_from: "join_with sep (split_on_from p sep s) = p @ s"
proof (induction p sep s rule: split_on_from.induct)
  case (2 part sep c s)
  show ?case
  proof (cases "c = sep")
    case True
    then show ?thesis
      using 2 split_on_from_nonempty [of "[]" sep s] by (cases "split_on_from [] sep s") auto
  next
    case False
    then show ?thesis using 2 by simp
  qed
qed simp

lemma split_from_free: "sep \<notin> set p \<Longrightarrow> part \<in> set (split_on_from p sep s) \<Longrightarrow> sep \<notin> set part"
  by (induction p sep s rule: split_on_from.induct) (auto split: if_splits)

text \<open>Splitting loses nothing, and no part holds the separator.\<close>

lemma join_split: "join_with sep (split_on s sep) = s"
  by (simp add: split_on_def join_split_from)

lemma split_on_free: "part \<in> set (split_on s sep) \<Longrightarrow> sep \<notin> set part"
  unfolding split_on_def by (rule split_from_free) auto

text \<open>An ARN that is accepted is rebuilt from its region, account and name.\<close>

lemma resolve_aws_path_Inr:
  assumes "resolve_aws_path secret_path env_location mp d = Inr loc"
  shows "is_aws_secret_name secret_path \<and> loc = env_location \<and> \<not> has_prefix secret_path ''arn:'' \<or>
    (\<exists>account name. secret_path = ''arn:aws:secretsmanager:'' @ loc @ '':'' @ account @ '':secret:'' @ name \<and>
       loc \<in> set kRegions \<and> is_aws_account account \<and> is_aws_secret_name name)"
proof (cases "has_prefix secret_path ''arn:''")
  case False
  then show ?thesis using assms by (simp add: resolve_aws_path_def split: if_splits)
next
  case True
  define parts where "parts = split_on secret_path (CHR '':'')"
  have p: "length parts = 7" "parts ! 1 = ''aws''" "parts ! 2 = ''secretsmanager''" "is_aws_account (parts ! 4)"
    "parts ! 5 = ''secret''" "is_aws_secret_name (parts ! 6)" "loc = parts ! 3" "loc \<in> set kRegions"
    using assms True
    by (simp_all add: resolve_aws_path_def parts_def Let_def require_aws_region_def is_known_aws_region_def
        split: if_splits)
  then obtain a where parts: "parts = [a, ''aws'', ''secretsmanager'', loc, parts ! 4, ''secret'', parts ! 6]"
    by (auto simp: length_Suc_conv eval_nat_numeral)
  have path: "secret_path = a @ CHR '':'' # ''aws:secretsmanager:'' @ loc @ '':'' @ parts ! 4 @ '':secret:'' @ parts ! 6"
    using join_split [of "CHR '':''" secret_path, folded parts_def] by (subst (asm) parts) simp
  have "CHR '':'' \<notin> set a"
    using split_on_free [of a secret_path "CHR '':''", folded parts_def] parts by (metis list.set_intros(1))
  moreover obtain r where "secret_path = ''arn'' @ CHR '':'' # r"
    using True by (auto elim!: has_prefixE)
  ultimately have "a = ''arn''"
    using path split_at_char [of "CHR '':''" a "''arn''"] by simp
  then show ?thesis using path p by (intro disjI2 exI [of _ "parts ! 4"] exI [of _ "parts ! 6"]) simp
qed

end
