(* ===== verification/Paths.thy ===== *)
theory Paths
  imports Prelude "HOL-Library.Word"
begin

unbundle bit_operations_syntax

text \<open>
  The rest of src/src/paths.hpp: where the files live, and how a secret line is read from a
  terminal or a pipe. The environment, the calls on the socket directory and the bytes the
  terminal delivers are arguments.
\<close>

section \<open>Paths\<close>

definition kAppName :: string where "kAppName = ''secretov''"
definition kManifestFileName :: string where "kManifestFileName = ''.secretov.yaml''"
definition kEnvOverrideVar :: string where "kEnvOverrideVar = ''SECRETOV_ENV''"
definition kInjectedVar :: string where "kInjectedVar = ''SECRETOV_INJECTED''"
definition kSocketFileName :: string where "kSocketFileName = ''secretov.sock''"

record paths =
  p_store :: string
  p_token :: string
  p_registry :: string
  p_socket :: string

text \<open>\<open>getenv\<close>, with an empty value counting as unset.\<close>

type_synonym environ = "string \<Rightarrow> string option"

definition env_nonempty :: "environ \<Rightarrow> string \<Rightarrow> string option" where
  "env_nonempty env name = (case env name of Some v \<Rightarrow> if v = [] then None else Some v | None \<Rightarrow> None)"

definition home_dir :: "environ \<Rightarrow> string + string" where
  "home_dir env =
     (case env_nonempty env ''HOME'' of
        None \<Rightarrow> Inl ''HOME is not set; cannot resolve default paths''
      | Some home \<Rightarrow> Inr home)"

definition xdg_dir_or_home :: "environ \<Rightarrow> string \<Rightarrow> string \<Rightarrow> string + string" where
  "xdg_dir_or_home env xdg_var home_suffix =
     (case env_nonempty env xdg_var of
        Some v \<Rightarrow> Inr v
      | None \<Rightarrow> bindE (home_dir env) (\<lambda>home. Inr (home @ home_suffix)))"

text \<open>
  The directories as \<open>lstat\<close> shows them, and what the system does with the calls on one of them:
  the umask, an error of \<open>mkdir\<close> or \<open>lstat\<close>, and what other processes do between the two.
\<close>

record dir_stat =
  ds_is_dir :: bool
  ds_uid :: nat
  ds_mode :: nat     \<comment> \<open>\<open>st_mode & 07777\<close>\<close>

type_synonym dirs = "string \<Rightarrow> dir_stat option"

record dir_os =
  do_umask :: "12 word"
  do_mkdir :: "string option"      \<comment> \<open>an error other than \<open>EEXIST\<close>\<close>
  do_meanwhile :: "dirs \<Rightarrow> dirs"
  do_lstat :: "string option"

definition mode_0700 :: nat where "mode_0700 = 448"

datatype mkdir_answer = Made | Exists | MkdirFailed string

text \<open>\<open>mkdir\<close> gives a new directory the mode asked for less the umask, and leaves what exists.\<close>

definition mkdir_call :: "dir_os \<Rightarrow> nat \<Rightarrow> string \<Rightarrow> nat \<Rightarrow> dirs \<Rightarrow> mkdir_answer \<times> dirs" where
  "mkdir_call os uid dir mode ds =
     (if ds dir \<noteq> None then (Exists, ds)
      else case do_mkdir os of
        Some e \<Rightarrow> (MkdirFailed e, ds)
      | None \<Rightarrow>
          (Made, ds(dir \<mapsto> \<lparr>ds_is_dir = True, ds_uid = uid,
             ds_mode = unat ((of_nat mode :: 12 word) AND NOT (do_umask os))\<rparr>)))"

definition lstat_dir :: "dir_os \<Rightarrow> string \<Rightarrow> dirs \<Rightarrow> string + dir_stat" where
  "lstat_dir os dir ds =
     (case (do_lstat os, ds dir) of
        (Some e, _) \<Rightarrow> Inl e
      | (None, None) \<Rightarrow> Inl ''No such file or directory''
      | (None, Some st) \<Rightarrow> Inr st)"

definition private_socket_dir :: "dir_os \<Rightarrow> nat \<Rightarrow> dirs \<Rightarrow> (string + string) \<times> dirs" where
  "private_socket_dir os uid ds =
     (let dir = ''/tmp/'' @ kAppName @ ''-'' @ decimal uid in
      case mkdir_call os uid dir mode_0700 ds of
        (Made, ds) \<Rightarrow> (Inr dir, ds)
      | (MkdirFailed e, ds) \<Rightarrow> (Inl (''mkdir '' @ quoted dir @ '': '' @ e), ds)
      | (Exists, ds) \<Rightarrow>
          (let ds = do_meanwhile os ds in
           case lstat_dir os dir ds of
             Inl e \<Rightarrow> (Inl (''stat '' @ quoted dir @ '': '' @ e), ds)
           | Inr st \<Rightarrow>
               if \<not> ds_is_dir st \<or> ds_uid st \<noteq> uid \<or> ds_mode st \<noteq> mode_0700
               then (Inl (''insecure socket dir '' @ quoted dir @ '': must be a 0700 dir owned by our uid''), ds)
               else (Inr dir, ds)))"

definition socket_path_of :: "environ \<Rightarrow> nat \<Rightarrow> dir_os \<Rightarrow> dirs \<Rightarrow> (string + string) \<times> dirs" where
  "socket_path_of env uid os ds =
     (case env_nonempty env ''XDG_RUNTIME_DIR'' of
        Some runtime \<Rightarrow> (Inr (runtime @ ''/'' @ kSocketFileName), ds)
      | None \<Rightarrow>
          (case private_socket_dir os uid ds of
             (Inl e, ds) \<Rightarrow> (Inl e, ds)
           | (Inr dir, ds) \<Rightarrow> (Inr (dir @ ''/'' @ kSocketFileName), ds)))"

definition resolve_paths :: "environ \<Rightarrow> nat \<Rightarrow> dir_os \<Rightarrow> dirs \<Rightarrow> (string + paths) \<times> dirs" where
  "resolve_paths env uid os ds =
     (let app = ''/'' @ kAppName @ ''/'' in
      case xdg_dir_or_home env ''XDG_DATA_HOME'' ''/.local/share'' of Inl e \<Rightarrow> (Inl e, ds) | Inr data_home \<Rightarrow>
      case xdg_dir_or_home env ''XDG_CONFIG_HOME'' ''/.config'' of Inl e \<Rightarrow> (Inl e, ds) | Inr config_home \<Rightarrow>
      let config_dir = config_home @ app in
      case socket_path_of env uid os ds of
        (Inl e, ds) \<Rightarrow> (Inl e, ds)
      | (Inr socket, ds) \<Rightarrow>
          (Inr \<lparr>p_store = data_home @ app @ ''store'', p_token = config_dir @ ''token'',
                p_registry = config_dir @ ''projects.yaml'', p_socket = socket\<rparr>, ds))"

text \<open>A directory of the user that gives nobody else any access: no bit but the owner's three.\<close>

definition private_dir :: "nat \<Rightarrow> dir_stat \<Rightarrow> bool" where
  "private_dir uid st \<longleftrightarrow> ds_is_dir st \<and> ds_uid st = uid \<and> (\<forall>n. bit (ds_mode st) n \<longrightarrow> n \<in> {6, 7, 8})"

lemma bits_0700: "bit mode_0700 n \<longleftrightarrow> n \<in> {6, 7, 8}"
proof -
  have w: "mode_0700 = push_bit 6 (mask 3)" by code_simp
  show ?thesis unfolding w by (auto simp: bit_push_bit_iff bit_mask_iff)
qed

lemma bits_0700_word: "bit (of_nat mode_0700 :: 12 word) n \<longleftrightarrow> n \<in> {6, 7, 8}"
  by (auto simp: bit_of_nat_iff possible_bit_def bits_0700)

lemma made_private_dir:
  "private_dir uid \<lparr>ds_is_dir = True, ds_uid = uid, ds_mode = unat ((of_nat mode_0700 :: 12 word) AND NOT umask)\<rparr>"
  by (auto simp: private_dir_def bit_unsigned_iff bit_and_iff bits_0700_word)

lemma found_private_dir: "ds_is_dir st \<Longrightarrow> ds_mode st = mode_0700 \<Longrightarrow> private_dir (ds_uid st) st"
  by (simp add: private_dir_def bits_0700)

lemma made_mode: "umask AND (of_nat mode_0700 :: 12 word) = 0 \<Longrightarrow>
  unat ((of_nat mode_0700 :: 12 word) AND NOT umask) = mode_0700"
proof -
  assume u: "umask AND (of_nat mode_0700 :: 12 word) = 0"
  have "\<not> (bit umask n \<and> bit (of_nat mode_0700 :: 12 word) n)" for n
    using u by (metis bit_and_iff bit_0_eq bot_apply bot_bool_def)
  then have w: "(of_nat mode_0700 :: 12 word) AND NOT umask = of_nat mode_0700"
    by (intro bit_word_eqI) (auto simp: bit_and_iff bit_not_iff)
  show ?thesis unfolding w by code_simp
qed

text \<open>
  Without a runtime directory the socket goes nowhere but into a directory that is ours alone,
  made by this call or found as it is; its mode is 0700 unless the umask takes away our own.
\<close>

lemma private_socket_dir_Inr:
  assumes "private_socket_dir os uid ds = (Inr dir, ds')"
  shows "dir = ''/tmp/'' @ kAppName @ ''-'' @ decimal uid \<and>
    (\<exists>st. ds' dir = Some st \<and> private_dir uid st \<and> (do_umask os AND of_nat mode_0700 = 0 \<longrightarrow> ds_mode st = mode_0700))"
  using assms made_private_dir [of uid "do_umask os"] found_private_dir made_mode [of "do_umask os"]
  by (auto simp: private_socket_dir_def mkdir_call_def lstat_dir_def Let_def simp del: of_nat_numeral
      split: if_splits option.splits sum.splits)

section \<open>Trailing whitespace\<close>

definition is_rstrip_space :: "char \<Rightarrow> bool" where
  "is_rstrip_space c \<longleftrightarrow> c = LF \<or> c = CR \<or> c = SPC \<or> c = TAB"

fun rstrip_end :: "string \<Rightarrow> nat \<Rightarrow> nat" where
  "rstrip_end s 0 = 0"
| "rstrip_end s (Suc e) = (if is_rstrip_space (s ! e) then rstrip_end s e else Suc e)"

definition rstrip :: "string \<Rightarrow> string" where
  "rstrip s = take (rstrip_end s (length s)) s"

lemma rstrip_end_le: "rstrip_end s e \<le> e"
  by (induction e) auto

lemma rstrip_end_spaces: "i < e \<Longrightarrow> rstrip_end s e \<le> i \<Longrightarrow> is_rstrip_space (s ! i)"
  by (induction e) (auto simp: less_Suc_eq split: if_splits)

lemma rstrip_end_last: "0 < rstrip_end s e \<Longrightarrow> \<not> is_rstrip_space (s ! (rstrip_end s e - 1))"
  by (induction e) auto

lemma rstrip_split:
  "\<exists>ws. s = rstrip s @ ws \<and> (\<forall>c \<in> set ws. is_rstrip_space c) \<and>
     (rstrip s \<noteq> [] \<longrightarrow> \<not> is_rstrip_space (last (rstrip s)))"
proof (intro exI conjI impI ballI)
  let ?e = "rstrip_end s (length s)"
  have le: "?e \<le> length s" by (rule rstrip_end_le)
  show "s = rstrip s @ drop ?e s" by (simp add: rstrip_def)
  fix c
  assume "c \<in> set (drop ?e s)"
  then obtain i where "?e \<le> i" "i < length s" "c = s ! i"
    by (auto simp: in_set_conv_nth) (metis le_add1 less_diff_conv add.commute)
  then show "is_rstrip_space c" using rstrip_end_spaces by blast
next
  let ?e = "rstrip_end s (length s)"
  assume "rstrip s \<noteq> []"
  then have "0 < ?e" "?e \<le> length s" using rstrip_end_le by (auto simp: rstrip_def)
  then have "last (rstrip s) = s ! (?e - 1)"
    using \<open>rstrip s \<noteq> []\<close> by (simp add: rstrip_def last_conv_nth min.absorb2)
  then show "\<not> is_rstrip_space (last (rstrip s))"
    using rstrip_end_last \<open>0 < ?e\<close> by simp
qed

lemma rstrip_id: "s = [] \<or> \<not> is_rstrip_space (last s) \<Longrightarrow> rstrip s = s"
  by (cases s rule: rev_cases) (auto simp: rstrip_def nth_append)

section \<open>Reading a secret line\<close>

text \<open>One \<open>read\<close> of one byte from stdin; an exhausted list is end of file.\<close>

datatype byte_read = Byte char | ByteInterrupted | ByteFailed string

text \<open>One read of the drain after the line: so many bytes, EINTR, or nothing more.\<close>

datatype drain_read = Drained nat | DrainInterrupted | DrainOver

record terminal =
  on_tty :: bool
  background :: bool        \<comment> \<open>\<open>tcgetpgrp\<close> names another process group\<close>
  echo_off_ok :: bool       \<comment> \<open>\<open>tcgetattr\<close> and the \<open>tcsetattr\<close> that disables echo succeed\<close>
  peek_ok :: bool           \<comment> \<open>the \<open>tcsetattr\<close> that drops ICANON succeeds\<close>
  draining :: "drain_read list"

definition kMaxSecretLineBytes :: nat where "kMaxSecretLineBytes = 4096"
definition kMaxTtyLineBytes :: nat where "kMaxTtyLineBytes = 4095"
definition kMaxDrainBytes :: nat where "kMaxDrainBytes = 1048576"

text \<open>The read loop: the line so far, whether it overflowed, the error, and what stdin still holds.\<close>

fun read_bytes :: "string \<Rightarrow> byte_read list \<Rightarrow> string \<times> bool \<times> string option \<times> byte_read list" where
  "read_bytes line [] = (line, False, None, [])"
| "read_bytes line (ByteInterrupted # ins) = read_bytes line ins"
| "read_bytes line (ByteFailed e # ins) = (line, False, Some e, ins)"
| "read_bytes line (Byte c # ins) =
     (if c = LF then (line, False, None, ins)
      else if length line = kMaxSecretLineBytes then (line, True, None, ins)
      else read_bytes (line @ [c]) ins)"

text \<open>Whether the drain found anything.\<close>

fun drain_tty :: "nat \<Rightarrow> drain_read list \<Rightarrow> bool" where
  "drain_tty drained [] = False"
| "drain_tty drained (r # rs) =
     (if kMaxDrainBytes \<le> drained then False else
      case r of
        DrainInterrupted \<Rightarrow> drain_tty drained rs
      | DrainOver \<Rightarrow> False
      | Drained n \<Rightarrow> if n = 0 then False else (drain_tty (drained + n) rs \<or> True))"

definition strip_cr :: "string \<Rightarrow> string" where
  "strip_cr line = (if line \<noteq> [] \<and> last line = CR then butlast line else line)"

definition read_secret_line :: "terminal \<Rightarrow> byte_read list \<Rightarrow> (string + string) \<times> byte_read list" where
  "read_secret_line tty stdin =
     (if on_tty tty \<and> background tty
      then (Inl (''cannot prompt from a background process; run it in the foreground or pipe the input on stdin''), stdin)
      else
        let echo_disabled = on_tty tty \<and> echo_off_ok tty;
            (line, too_long, read_errno, rest) = read_bytes [] stdin;
            tty_input_left = (if echo_disabled \<and> peek_ok tty then drain_tty 0 (draining tty) else False);
            tty_truncated = (on_tty tty \<and> kMaxTtyLineBytes \<le> length line)
        in if read_errno \<noteq> None \<or> too_long \<or> tty_input_left \<or> tty_truncated then
             (Inl (if too_long then ''input line longer than '' @ decimal kMaxSecretLineBytes @ '' bytes''
                   else if tty_truncated then ''line may have been truncated by the terminal ('' @
                     decimal kMaxTtyLineBytes @ ''-byte limit); pipe long values on stdin instead''
                   else if tty_input_left then ''more input followed the line on the terminal (multi-line paste?); discarded it; pipe multi-line values on stdin instead''
                   else ''read stdin: '' @ or_else read_errno []), rest)
           else (Inr (strip_cr line), rest))"

definition read_passphrase :: "terminal \<Rightarrow> byte_read list \<Rightarrow> (string + string) \<times> byte_read list" where
  "read_passphrase tty stdin =
     (case read_secret_line tty stdin of
        (Inl e, rest) \<Rightarrow> (Inl e, rest)
      | (Inr p, rest) \<Rightarrow> (if p = [] then Inl ''empty passphrase'' else Inr p, rest))"

text \<open>The bytes stdin delivers before an error.\<close>

fun stdin_bytes :: "byte_read list \<Rightarrow> string" where
  "stdin_bytes [] = []"
| "stdin_bytes (Byte c # ins) = c # stdin_bytes ins"
| "stdin_bytes (ByteInterrupted # ins) = stdin_bytes ins"
| "stdin_bytes (ByteFailed e # ins) = []"

lemma read_bytes_clean:
  "read_bytes line ins = (out, False, None, rest) \<Longrightarrow> length line \<le> kMaxSecretLineBytes \<Longrightarrow>
   \<exists>l. out = line @ l \<and> LF \<notin> set l \<and> length out \<le> kMaxSecretLineBytes \<and>
     (stdin_bytes ins = l @ LF # stdin_bytes rest \<or> stdin_bytes ins = l \<and> rest = [])"
proof (induction line ins rule: read_bytes.induct)
  case (4 line c ins)
  show ?case
  proof (cases "c = LF \<or> length line = kMaxSecretLineBytes")
    case True
    then show ?thesis using 4 by (auto split: if_splits)
  next
    case False
    then have "read_bytes (line @ [c]) ins = (out, False, None, rest)" "length (line @ [c]) \<le> kMaxSecretLineBytes"
      using 4(2,3) by simp_all
    with 4(1) False obtain l where "out = (line @ [c]) @ l" "LF \<notin> set l" "length out \<le> kMaxSecretLineBytes"
      "stdin_bytes ins = l @ LF # stdin_bytes rest \<or> stdin_bytes ins = l \<and> rest = []"
      by blast
    then show ?thesis using False by (intro exI [of _ "c # l"]) auto
  qed
qed auto

lemma read_bytes_returns:
  "stdin_bytes ins = l @ LF # after \<Longrightarrow> LF \<notin> set l \<Longrightarrow> length (line @ l) \<le> kMaxSecretLineBytes \<Longrightarrow>
   \<exists>rest. read_bytes line ins = (line @ l, False, None, rest) \<and> stdin_bytes rest = after"
proof (induction line ins arbitrary: l rule: read_bytes.induct)
  case (4 line c ins)
  show ?case
  proof (cases l)
    case Nil
    then show ?thesis using 4 by auto
  next
    case (Cons d l')
    then show ?thesis using 4(1) [of l'] 4(2-) by auto
  qed
qed auto

text \<open>The drain notices the first byte that follows the line.\<close>

lemma drain_tty_iff:
  "k < kMaxDrainBytes \<Longrightarrow> drain_tty k rs \<longleftrightarrow>
     (\<exists>n r. filter (\<lambda>r. r \<noteq> DrainInterrupted) rs = Drained n # r \<and> 0 < n)"
  by (induction k rs rule: drain_tty.induct) (auto split: drain_read.splits if_splits)

end
