(* ===== verification/Manifest.thy ===== *)
theory Manifest
  imports Names Paths
begin

text \<open>
  The manifest (src/src/manifest.hpp, \<open>parse_manifest\<close> of manifest.cpp): the checks that turn a
  YAML document into environments, secret entries and plaintext variables. The YAML parser and
  its conversion of a node to a string are parameters; a node is what yaml-cpp shows of it.
\<close>

section \<open>YAML nodes\<close>

datatype yaml =
    YNull
  | YScalar string
  | YSeq "yaml list"
  | YMap "(yaml \<times> yaml) list"

text \<open>
  \<open>yaml_load\<close> is \<open>YAML::Load\<close>, \<open>yaml_string\<close> is \<open>as<std::string>()\<close>; both throw a
  \<open>YAML::Exception\<close> whose text is on the left. \<open>yaml_subscript_error\<close> is the text of the
  exception \<open>operator[]\<close> throws on a scalar.
\<close>

record yaml_lib =
  yaml_load :: "string \<Rightarrow> string + yaml"
  yaml_string :: "yaml \<Rightarrow> string + string"
  yaml_subscript_error :: "string \<Rightarrow> string"

text \<open>The text of a scalar is what the parser made of it.\<close>

definition yaml_ok :: "yaml_lib \<Rightarrow> bool" where
  "yaml_ok Y \<longleftrightarrow> (\<forall>s. yaml_string Y (YScalar s) = Inr s)"

fun child_of :: "(yaml \<times> yaml) list \<Rightarrow> string \<Rightarrow> yaml option" where
  "child_of [] key = None"
| "child_of ((k, v) # pairs) key = (if k = YScalar key then Some v else child_of pairs key)"

text \<open>\<open>node[key]\<close> of a mapping, None when undefined.\<close>

definition ychild :: "yaml \<Rightarrow> string \<Rightarrow> yaml option" where
  "ychild node key = (case node of YMap pairs \<Rightarrow> child_of pairs key | _ \<Rightarrow> None)"

fun is_scalar :: "yaml \<Rightarrow> bool" where
  "is_scalar (YScalar s) = True"
| "is_scalar _ = False"

fun is_map :: "yaml \<Rightarrow> bool" where
  "is_map (YMap pairs) = True"
| "is_map _ = False"

fun pairs_of :: "yaml \<Rightarrow> (yaml \<times> yaml) list" where
  "pairs_of (YMap pairs) = pairs"
| "pairs_of _ = []"

text \<open>A YAML exception anywhere in the walk is rethrown with the path of the manifest.\<close>

definition as_string :: "yaml_lib \<Rightarrow> string \<Rightarrow> yaml \<Rightarrow> string + string" where
  "as_string Y path node =
     (case yaml_string Y node of Inl what \<Rightarrow> Inl (manifest_error path what) | Inr s \<Rightarrow> Inr s)"

section \<open>Data\<close>

datatype backend_type = Local | Aws | Gcp
datatype entry_kind = Text | Kv

record backend_config =
  bc_type :: backend_type
  bc_location :: string

record secret_entry =
  se_name :: string
  se_kind :: entry_kind
  se_path :: string
  se_field :: string
  se_location :: string
  se_env_var :: string

type_synonym key_values = "(string \<times> string) list"

record manifest =
  m_path :: string
  m_project :: string
  m_backend :: backend_config
  m_default_env :: "string option"
  m_envs :: "(string \<times> secret_entry list) list"
  m_vars :: "(string \<times> key_values) list"

fun backend_type_name :: "backend_type \<Rightarrow> string" where
  "backend_type_name Local = ''local''"
| "backend_type_name Aws = ''aws''"
| "backend_type_name Gcp = ''gcp''"

section \<open>Parsing\<close>

definition refuse_unknown_keys :: "yaml_lib \<Rightarrow> yaml \<Rightarrow> string list \<Rightarrow> string \<Rightarrow> string \<Rightarrow> string + unit" where
  "refuse_unknown_keys Y node allowed path place =
     checkE (\<lambda>(k, v). bindE (as_string Y path k) (\<lambda>key.
       refuse_if (key \<notin> set allowed) (manifest_error path (''unknown key '' @ quoted key @ '' in '' @ place))))
       (pairs_of node)"

definition own_key :: "backend_type \<Rightarrow> string" where
  "own_key type = (if type = Aws then ''region'' else if type = Gcp then ''project'' else [])"

definition parse_location :: "yaml_lib \<Rightarrow> yaml \<Rightarrow> backend_type \<Rightarrow> string \<Rightarrow> string \<Rightarrow> string + string option" where
  "parse_location Y node type path place =
     bindE (checkE (\<lambda>key. refuse_if (ychild node key \<noteq> None \<and> key \<noteq> own_key type)
         (manifest_error path (place @ '' '' @ quoted key @ '' is not valid with backend type '' @ backend_type_name type)))
         [''region'', ''project''])
       (\<lambda>_. if own_key type = [] then Inr None else
         (case ychild node (own_key type) of
            None \<Rightarrow> Inr None
          | Some value_node \<Rightarrow>
              bindE (refuse_if (\<not> is_scalar value_node) (manifest_error path (place @ '' '' @ own_key type @ '' must be a string''))) (\<lambda>_.
              bindE (as_string Y path value_node) (\<lambda>v.
              bindE (if type = Aws then require_aws_region v path place else require_gcp_project v path place) (\<lambda>_.
                Inr (Some v))))))"

definition parse_backend_type :: "string \<Rightarrow> string \<Rightarrow> string + backend_type" where
  "parse_backend_type path type_name =
     (if type_name = ''local'' then Inr Local
      else if type_name = ''aws'' then Inr Aws
      else if type_name = ''gcp'' then Inr Gcp
      else Inl (manifest_error path (''backend type '' @ quoted type_name @ '' is not one of local, aws, gcp'')))"

definition parse_backend :: "yaml_lib \<Rightarrow> yaml option \<Rightarrow> string \<Rightarrow> string + backend_config" where
  "parse_backend Y maybe_node path =
     (case maybe_node of
        None \<Rightarrow> Inr \<lparr>bc_type = Local, bc_location = []\<rparr>
      | Some node \<Rightarrow>
          bindE (refuse_if (\<not> is_map node) (manifest_error path (quoted ''backend'' @ '' must be a mapping''))) (\<lambda>_.
          bindE (refuse_unknown_keys Y node [''type'', ''region'', ''project''] path ''backend:'') (\<lambda>_.
          case ychild node ''type'' of
            None \<Rightarrow> Inl (manifest_error path ''backend needs a type: local, aws or gcp'')
          | Some type_node \<Rightarrow>
              bindE (refuse_if (\<not> is_scalar type_node) (manifest_error path ''backend needs a type: local, aws or gcp'')) (\<lambda>_.
              bindE (as_string Y path type_node) (\<lambda>type_name.
              bindE (parse_backend_type path type_name) (\<lambda>type.
              bindE (parse_location Y node type path ''backend'') (\<lambda>location.
                if type = Local then Inr \<lparr>bc_type = Local, bc_location = []\<rparr> else
                (case location of
                   None \<Rightarrow> Inl (manifest_error path (''backend type '' @ backend_type_name type @ '' needs '' @
                             (if type = Aws then ''region'' else ''project'')))
                 | Some l \<Rightarrow> Inr \<lparr>bc_type = type, bc_location = l\<rparr>))))))))"

definition optional_scalar ::
  "yaml_lib \<Rightarrow> yaml \<Rightarrow> string \<Rightarrow> string \<Rightarrow> string \<Rightarrow> string \<Rightarrow> string + string option" where
  "optional_scalar Y body key path described entry_name =
     (case ychild body key of
        None \<Rightarrow> Inr None
      | Some node \<Rightarrow>
          bindE (refuse_if (\<not> is_scalar node) (manifest_error path (described @ '' '' @ key @ '' must be a string''))) (\<lambda>_.
          bindE (as_string Y path node) (\<lambda>v.
          bindE (refuse_if (v = []) (manifest_error path (''secret '' @ quoted entry_name @ '' has an empty '' @ key))) (\<lambda>_.
            Inr (Some v)))))"

definition entry_kind_of :: "string \<Rightarrow> string \<Rightarrow> string option \<Rightarrow> string + entry_kind" where
  "entry_kind_of path described kind =
     (case kind of
        None \<Rightarrow> Inr Text
      | Some k \<Rightarrow>
          if k = ''kv'' then Inr Kv
          else if k \<noteq> ''text'' then Inl (manifest_error path (described @ '' kind must be text or kv''))
          else Inr Text)"

definition local_entry ::
  "string \<Rightarrow> string \<Rightarrow> string \<Rightarrow> string \<Rightarrow> string \<Rightarrow> entry_kind \<Rightarrow> string option \<Rightarrow> string option \<Rightarrow> string + string" where
  "local_entry path described env project name kind key secret_path =
     bindE (refuse_if (secret_path \<noteq> None)
         (manifest_error path (described @ '' path is for cloud backends; a local entry uses key:''))) (\<lambda>_.
     bindE (refuse_if (kind = Kv)
         (manifest_error path (described @ '' kind kv needs a cloud backend; local entries are text''))) (\<lambda>_.
       case key of Some k \<Rightarrow> Inr k | None \<Rightarrow> scoped_key env project name))"

text \<open>Path, field and location of an entry on a cloud backend.\<close>

definition cloud_entry ::
  "string \<Rightarrow> string \<Rightarrow> backend_type \<Rightarrow> string \<Rightarrow> entry_kind \<Rightarrow> string option \<Rightarrow> string option \<Rightarrow> string + string \<times> string \<times> string" where
  "cloud_entry path described type env_location kind key secret_path =
     (case secret_path of
        None \<Rightarrow> Inl (manifest_error path (described @ '' needs an explicit path''))
      | Some sp \<Rightarrow>
          bindE (refuse_if (kind = Text \<and> key \<noteq> None)
              (manifest_error path (described @ '' key names a JSON field and needs kind: kv''))) (\<lambda>_.
          bindE (refuse_if (kind = Kv \<and> key = None) (manifest_error path (described @ '' kind kv needs key''))) (\<lambda>_.
          bindE (if type = Aws then resolve_aws_path sp env_location path described
                 else resolve_gcp_path sp env_location path described) (\<lambda>location.
            Inr (sp, if kind = Kv then or_else key [] else [], location)))))"

definition described_secret :: "string \<Rightarrow> string \<Rightarrow> string" where
  "described_secret name env = ''secret '' @ quoted name @ '' (env '' @ env @ '')''"

definition build_entry ::
  "string \<Rightarrow> string \<Rightarrow> string \<Rightarrow> string \<Rightarrow> backend_type \<Rightarrow> string \<Rightarrow> string \<Rightarrow> string \<Rightarrow> entry_kind \<Rightarrow>
   string option \<Rightarrow> string option \<Rightarrow> string + secret_entry" where
  "build_entry path described env project type env_location name env_var kind key secret_path =
     (if type = Local then
        bindE (local_entry path described env project name kind key secret_path) (\<lambda>p.
          Inr \<lparr>se_name = name, se_kind = kind, se_path = p, se_field = [], se_location = [], se_env_var = env_var\<rparr>)
      else
        bindE (cloud_entry path described type env_location kind key secret_path) (\<lambda>(p, field, location).
          Inr \<lparr>se_name = name, se_kind = kind, se_path = p, se_field = field, se_location = location,
               se_env_var = env_var\<rparr>))"

definition parse_secret ::
  "yaml_lib \<Rightarrow> string \<Rightarrow> string \<Rightarrow> string \<Rightarrow> backend_type \<Rightarrow> string \<Rightarrow> yaml \<times> yaml \<Rightarrow> string + secret_entry" where
  "parse_secret Y path env project type env_location pair =
     bindE (as_string Y path (fst pair)) (\<lambda>name.
     let described = described_secret name env; body = snd pair in
     case (if is_map body then ychild body ''env_var_name'' else None) of
       None \<Rightarrow> Inl (manifest_error path (described @ '' missing env_var_name''))
     | Some var_node \<Rightarrow>
         bindE (refuse_if (\<not> is_scalar var_node) (manifest_error path (described @ '' missing env_var_name''))) (\<lambda>_.
         bindE (refuse_unknown_keys Y body [''env_var_name'', ''key'', ''kind'', ''path''] path described) (\<lambda>_.
         bindE (as_string Y path var_node) (\<lambda>env_var.
         bindE (require_manifest_env_name env_var path (described @ '' env_var_name '' @ quoted env_var)) (\<lambda>_.
         bindE (optional_scalar Y body ''kind'' path described name) (\<lambda>kind_text.
         bindE (entry_kind_of path described kind_text) (\<lambda>kind.
         bindE (optional_scalar Y body ''key'' path described name) (\<lambda>key.
         bindE (optional_scalar Y body ''path'' path described name) (\<lambda>secret_path.
           build_entry path described env project type env_location name env_var kind key secret_path)))))))))"

definition parse_env_secrets ::
  "yaml_lib \<Rightarrow> yaml option \<Rightarrow> string \<Rightarrow> string \<Rightarrow> string \<Rightarrow> backend_type \<Rightarrow> string \<Rightarrow> string + secret_entry list" where
  "parse_env_secrets Y secrets path env project type env_location =
     (case secrets of
        None \<Rightarrow> Inr []
      | Some YNull \<Rightarrow> Inr []
      | Some (YMap pairs) \<Rightarrow> collectE (parse_secret Y path env project type env_location) pairs
      | Some _ \<Rightarrow> Inl (manifest_error path (''env '' @ quoted env @ '' secrets must be a mapping'')))"

definition parse_var :: "yaml_lib \<Rightarrow> string \<Rightarrow> string \<Rightarrow> yaml \<times> yaml \<Rightarrow> string + string \<times> string" where
  "parse_var Y path env pair =
     bindE (as_string Y path (fst pair)) (\<lambda>var_name.
     let what = ''var '' @ quoted var_name @ '' (env '' @ env @ '')'' in
     bindE (require_manifest_env_name var_name path what) (\<lambda>_.
     bindE (refuse_if (\<not> is_scalar (snd pair)) (manifest_error path (what @ '' must be a scalar value''))) (\<lambda>_.
     bindE (as_string Y path (snd pair)) (\<lambda>v. Inr (var_name, v)))))"

definition parse_env_vars :: "yaml_lib \<Rightarrow> yaml option \<Rightarrow> string \<Rightarrow> string \<Rightarrow> string + key_values" where
  "parse_env_vars Y vars path env =
     (case vars of
        None \<Rightarrow> Inr []
      | Some YNull \<Rightarrow> Inr []
      | Some (YMap pairs) \<Rightarrow> collectE (parse_var Y path env) pairs
      | Some _ \<Rightarrow> Inl (manifest_error path (''env '' @ quoted env @ '' vars must be a mapping'')))"

text \<open>A variable must not be set both as plaintext and as a secret.\<close>

definition refuse_double_vars :: "string \<Rightarrow> string \<Rightarrow> key_values \<Rightarrow> secret_entry list \<Rightarrow> string + unit" where
  "refuse_double_vars path env plain entries =
     checkE (\<lambda>(var_name, v). checkE (\<lambda>entry. refuse_if (se_env_var entry = var_name)
       (manifest_error path (quoted var_name @ '' (env '' @ env @ '') is set in both vars and secrets''))) entries) plain"

definition parse_env ::
  "yaml_lib \<Rightarrow> string \<Rightarrow> string \<Rightarrow> backend_config \<Rightarrow> string \<Rightarrow> yaml \<Rightarrow> string + secret_entry list \<times> key_values" where
  "parse_env Y path project backend env node =
     (case node of
        YNull \<Rightarrow> Inr ([], [])
      | YMap pairs \<Rightarrow>
          bindE (refuse_unknown_keys Y node [''vars'', ''secrets'', ''region'', ''project''] path (''env '' @ quoted env)) (\<lambda>_.
          bindE (parse_location Y node (bc_type backend) path (''env '' @ quoted env)) (\<lambda>location.
          bindE (parse_env_secrets Y (ychild node ''secrets'') path env project (bc_type backend)
              (or_else location (bc_location backend))) (\<lambda>entries.
          bindE (parse_env_vars Y (ychild node ''vars'') path env) (\<lambda>plain.
          bindE (refuse_double_vars path env plain entries) (\<lambda>_. Inr (entries, plain))))))
      | _ \<Rightarrow> Inl (manifest_error path (''env '' @ quoted env @ '' must be a mapping'')))"

text \<open>The loop over the environments; a repeated name replaces the earlier one.\<close>

fun parse_envs :: "yaml_lib \<Rightarrow> string \<Rightarrow> (yaml \<times> yaml) list \<Rightarrow> manifest \<Rightarrow> string + manifest" where
  "parse_envs Y path [] m = Inr m"
| "parse_envs Y path ((k, node) # envs) m =
     bindE (as_string Y path k) (\<lambda>env.
     bindE (require_segment env ''environment'') (\<lambda>_.
     bindE (parse_env Y path (m_project m) (m_backend m) env node) (\<lambda>(entries, plain).
       parse_envs Y path envs
         (m\<lparr>m_envs := smap_put env entries (m_envs m), m_vars := smap_put env plain (m_vars m)\<rparr>))))"

definition parse_default_env :: "yaml_lib \<Rightarrow> yaml \<Rightarrow> string \<Rightarrow> string + string option" where
  "parse_default_env Y doc path =
     (case ychild doc ''default_env'' of
        None \<Rightarrow> Inr None
      | Some node \<Rightarrow>
          bindE (refuse_if (\<not> is_scalar node) (manifest_error path ''default_env must be a string'')) (\<lambda>_.
          bindE (as_string Y path node) (\<lambda>s. Inr (Some s))))"

definition parse_manifest :: "yaml_lib \<Rightarrow> string \<Rightarrow> string \<Rightarrow> string + manifest" where
  "parse_manifest Y contents path =
     (case yaml_load Y contents of
        Inl what \<Rightarrow> Inl (manifest_error path what)
      | Inr doc \<Rightarrow>
          bindE (refuse_if (\<not> is_map doc) (''manifest '' @ quoted path @ '' is not a mapping'')) (\<lambda>_.
          bindE (refuse_unknown_keys Y doc [''version'', ''name'', ''backend'', ''default_env'', ''env''] path kManifestFileName) (\<lambda>_.
          case ychild doc ''name'' of
            None \<Rightarrow> Inl (''manifest '' @ quoted path @ '' missing 'name' field'')
          | Some name_node \<Rightarrow>
              bindE (refuse_if (\<not> is_scalar name_node) (''manifest '' @ quoted path @ '' missing 'name' field'')) (\<lambda>_.
              bindE (as_string Y path name_node) (\<lambda>project.
              bindE (require_segment project ''project'') (\<lambda>_.
              bindE (parse_backend Y (ychild doc ''backend'') path) (\<lambda>backend.
              bindE (parse_default_env Y doc path) (\<lambda>default_env.
              let m = \<lparr>m_path = path, m_project = project, m_backend = backend, m_default_env = default_env,
                       m_envs = [], m_vars = []\<rparr> in
              case ychild doc ''env'' of
                None \<Rightarrow> Inr m
              | Some YNull \<Rightarrow> Inr m
              | Some (YMap envs) \<Rightarrow> parse_envs Y path envs m
              | Some _ \<Rightarrow> Inl (manifest_error path (quoted ''env'' @ '' must be a mapping''))))))))))"

end
