(* ===== verification/ManifestFacts.thy ===== *)
theory ManifestFacts
  imports Manifest
begin

text \<open>
  What a manifest that loads is known to hold, whatever document it came from: only allowed
  variable names, no variable set twice, and paths that the backend's rules accept.
\<close>

definition safe_var :: "string \<Rightarrow> bool" where
  "safe_var name \<longleftrightarrow> is_identifier name \<and> \<not> is_denied_env_name name"

definition is_arn :: "string \<Rightarrow> string \<Rightarrow> bool" where
  "is_arn p region \<longleftrightarrow> (\<exists>account name. p = ''arn:aws:secretsmanager:'' @ region @ '':'' @ account @ '':secret:'' @ name \<and>
     is_aws_account account \<and> is_aws_secret_name name)"

definition wf_entry :: "string \<Rightarrow> backend_config \<Rightarrow> string \<Rightarrow> secret_entry \<Rightarrow> bool" where
  "wf_entry project backend env e \<longleftrightarrow>
     safe_var (se_env_var e) \<and>
     (case bc_type backend of
        Local \<Rightarrow> se_kind e = Text \<and> se_field e = [] \<and> se_location e = [] \<and> se_path e \<noteq> []
      | Aws \<Rightarrow> (is_aws_secret_name (se_path e) \<or> is_arn (se_path e) (se_location e)) \<and>
          is_known_aws_region (se_location e)
      | Gcp \<Rightarrow> is_gcp_project (se_location e)) \<and>
     (se_kind e = Kv \<longleftrightarrow> se_field e \<noteq> [])"

definition wf_backend :: "backend_config \<Rightarrow> bool" where
  "wf_backend b \<longleftrightarrow>
     (case bc_type b of Local \<Rightarrow> bc_location b = [] | Aws \<Rightarrow> is_known_aws_region (bc_location b)
      | Gcp \<Rightarrow> is_gcp_project (bc_location b))"

definition wf_env :: "string \<Rightarrow> backend_config \<Rightarrow> string \<Rightarrow> secret_entry list \<Rightarrow> key_values \<Rightarrow> bool" where
  "wf_env project backend env entries plain \<longleftrightarrow>
     env \<noteq> [] \<and> SLASH \<notin> set env \<and> (\<forall>e \<in> set entries. wf_entry project backend env e) \<and>
     (\<forall>kv \<in> set plain. safe_var (fst kv)) \<and> (\<forall>e \<in> set entries. se_env_var e \<notin> fst ` set plain)"

definition wf_manifest :: "manifest \<Rightarrow> bool" where
  "wf_manifest m \<longleftrightarrow>
     m_project m \<noteq> [] \<and> SLASH \<notin> set (m_project m) \<and> wf_backend (m_backend m) \<and>
     smap_inv (m_envs m) \<and> smap_inv (m_vars m) \<and> map fst (m_envs m) = map fst (m_vars m) \<and>
     (\<forall>env entries plain. map_of (m_envs m) env = Some entries \<longrightarrow> map_of (m_vars m) env = Some plain \<longrightarrow>
        wf_env (m_project m) (m_backend m) env entries plain)"

section \<open>The pieces\<close>

lemma parse_location_Inr:
  assumes "parse_location Y node type path place = Inr (Some l)"
  shows "(type = Aws \<and> is_known_aws_region l) \<or> (type = Gcp \<and> is_gcp_project l)"
  using assms
  by (cases type) (auto simp: parse_location_def own_key_def require_aws_region_def require_gcp_project_def
      split: option.splits if_splits)

lemma parse_backend_wf:
  assumes "parse_backend Y node path = Inr b"
  shows "wf_backend b"
proof (cases node)
  case None
  then show ?thesis using assms by (auto simp: parse_backend_def wf_backend_def)
next
  case (Some n)
  obtain type location where loc: "parse_location Y n type path ''backend'' = Inr location"
    and b: "(if type = Local then Inr \<lparr>bc_type = Local, bc_location = []\<rparr> else
        (case location of None \<Rightarrow> Inl (manifest_error path (''backend type '' @ backend_type_name type @ '' needs '' @
                             (if type = Aws then ''region'' else ''project'')))
         | Some l \<Rightarrow> Inr \<lparr>bc_type = type, bc_location = l\<rparr>)) = Inr b"
    using assms Some by (auto simp: parse_backend_def split: option.splits if_splits)
  show ?thesis
    using b loc parse_location_Inr [of Y n type path "''backend''"]
    by (cases type; cases location) (auto simp: wf_backend_def)
qed

lemma optional_scalar_nonempty: "optional_scalar Y body key path d n = Inr (Some v) \<Longrightarrow> v \<noteq> []"
  by (auto simp: optional_scalar_def split: option.splits if_splits)

lemma gcp_path_location:
  "resolve_gcp_path sp loc mp d = Inr l \<Longrightarrow> is_gcp_project loc \<Longrightarrow> is_gcp_project l"
  by (auto simp: resolve_gcp_path_def Let_def split: if_splits)

lemma cloud_entry_Inr:
  assumes "cloud_entry path d type loc kind key sp = Inr (p, field, l)"
    and "\<And>k. key = Some k \<Longrightarrow> k \<noteq> []"
  shows "(kind = Kv \<longleftrightarrow> field \<noteq> []) \<and>
    (if type = Aws then resolve_aws_path p loc path d else resolve_gcp_path p loc path d) = Inr l"
  using assms by (cases kind; cases key; cases sp; auto simp: cloud_entry_def split: if_splits)

lemma local_entry_Inr:
  assumes "local_entry path d env project name kind key sp = Inr p" and "\<And>k. key = Some k \<Longrightarrow> k \<noteq> []"
  shows "kind = Text \<and> p \<noteq> [] \<and> (p = or_else key p) \<and> (key = None \<longrightarrow> scoped_key env project name = Inr p)"
  using assms by (cases kind; cases key) (auto simp: local_entry_def scoped_key_Inr split: if_splits)

lemma parse_secret_wf:
  assumes "parse_secret Y path env project (bc_type b) loc pair = Inr e"
    and "wf_backend \<lparr>bc_type = bc_type b, bc_location = loc\<rparr>"
  shows "wf_entry project b env e"
proof -
  let ?type = "bc_type b"
  obtain name d env_var kind key sp where
    var: "is_identifier env_var" "\<not> is_denied_env_name env_var"
    and key: "optional_scalar Y (snd pair) ''key'' path d name = Inr key"
    and e: "build_entry path d env project ?type loc name env_var kind key sp = Inr e"
    using assms(1) by (auto simp: parse_secret_def Let_def split: option.splits if_splits)
  have nonempty: "k \<noteq> []" if "key = Some k" for k
    using key that optional_scalar_nonempty by blast
  show ?thesis
  proof (cases "?type = Local")
    case True
    then obtain p where "local_entry path d env project name kind key sp = Inr p"
      and e: "e = \<lparr>se_name = name, se_kind = kind, se_path = p, se_field = [], se_location = [], se_env_var = env_var\<rparr>"
      using e by (auto simp: build_entry_def)
    then show ?thesis
      using local_entry_Inr [of path d env project name kind key sp p] nonempty True var
      by (auto simp: wf_entry_def safe_var_def)
  next
    case False
    then obtain p field l where c: "cloud_entry path d ?type loc kind key sp = Inr (p, field, l)"
      and e: "e = \<lparr>se_name = name, se_kind = kind, se_path = p, se_field = field, se_location = l, se_env_var = env_var\<rparr>"
      using e by (auto simp: build_entry_def)
    note cloud = cloud_entry_Inr [OF c nonempty]
    have "(is_aws_secret_name p \<or> is_arn p l) \<and> is_known_aws_region l" if "?type = Aws"
      using cloud that resolve_aws_path_Inr [of p loc path d l] assms(2)
      by (auto simp: wf_backend_def is_arn_def is_known_aws_region_def)
    moreover have "is_gcp_project l" if "?type = Gcp"
      using cloud that gcp_path_location [of p loc path d l] assms(2) by (simp add: wf_backend_def)
    ultimately show ?thesis
      using False var cloud by (cases ?type) (simp_all add: wf_entry_def safe_var_def e)
  qed
qed

lemma parse_var_safe: "parse_var Y path env pair = Inr kv \<Longrightarrow> safe_var (fst kv)"
  by (auto simp: parse_var_def Let_def safe_var_def split: if_splits)

lemma collectE_all: "collectE f xs = Inr ys \<Longrightarrow> y \<in> set ys \<Longrightarrow> \<exists>x \<in> set xs. f x = Inr y"
  by (induction xs arbitrary: ys) auto

lemma parse_env_secrets_all:
  assumes "parse_env_secrets Y secrets path env project type loc = Inr es" and "e \<in> set es"
  shows "\<exists>pair. parse_secret Y path env project type loc pair = Inr e"
proof -
  have "es = [] \<or> (\<exists>pairs. collectE (parse_secret Y path env project type loc) pairs = Inr es)"
    using assms(1) by (auto simp: parse_env_secrets_def split: option.splits yaml.splits)
  then show ?thesis using collectE_all [OF _ assms(2)] assms(2) by (metis empty_iff empty_set)
qed

lemma parse_env_vars_all:
  assumes "parse_env_vars Y vars path env = Inr kvs" and "kv \<in> set kvs"
  shows "\<exists>pair. parse_var Y path env pair = Inr kv"
proof -
  have "kvs = [] \<or> (\<exists>pairs. collectE (parse_var Y path env) pairs = Inr kvs)"
    using assms(1) by (auto simp: parse_env_vars_def split: option.splits yaml.splits)
  then show ?thesis using collectE_all [OF _ assms(2)] assms(2) by (metis empty_iff empty_set)
qed

lemma parse_env_wf:
  assumes "parse_env Y path project b env node = Inr (entries, plain)" and "wf_backend b"
    and "env \<noteq> []" and "SLASH \<notin> set env"
  shows "wf_env project b env entries plain"
proof (cases node)
  case (YMap pairs)
  obtain location where loc: "parse_location Y node (bc_type b) path (''env '' @ quoted env) = Inr location"
    and ents: "parse_env_secrets Y (ychild node ''secrets'') path env project (bc_type b)
      (or_else location (bc_location b)) = Inr entries"
    and vars: "parse_env_vars Y (ychild node ''vars'') path env = Inr plain"
    and double: "refuse_double_vars path env plain entries = Inr ()"
    using assms(1) YMap by (auto simp: parse_env_def)
  have wfl: "wf_backend \<lparr>bc_type = bc_type b, bc_location = or_else location (bc_location b)\<rparr>"
    using assms(2) parse_location_Inr [of Y node "bc_type b"] loc
    by (cases location) (auto simp: wf_backend_def split: backend_type.splits)
  have "wf_entry project b env e" if "e \<in> set entries" for e
    using parse_env_secrets_all [OF ents that] parse_secret_wf [OF _ wfl] by blast
  moreover have "safe_var (fst kv)" if "kv \<in> set plain" for kv
    using parse_env_vars_all [OF vars that] parse_var_safe by blast
  moreover have "se_env_var e \<notin> fst ` set plain" if "e \<in> set entries" for e
    using double that by (force simp: refuse_double_vars_def)
  ultimately show ?thesis using assms(3,4) by (simp add: wf_env_def)
qed (use assms in \<open>auto simp: parse_env_def wf_env_def\<close>)

section \<open>The whole document\<close>

lemma smap_put_keys:
  "map fst (smap_put k v m) = filter (\<lambda>j. j < k) (map fst m) @ k # filter (\<lambda>j. k < j) (map fst m)"
  by (simp add: smap_put_def filter_map comp_def)

lemma parse_envs_wf:
  "wf_manifest m \<Longrightarrow> parse_envs Y path envs m = Inr m' \<Longrightarrow>
   wf_manifest m' \<and> m_project m' = m_project m \<and> m_backend m' = m_backend m \<and> m_path m' = m_path m"
proof (induction Y path envs m rule: parse_envs.induct)
  case 1
  then show ?case by simp
next
  case (2 Y path k node envs m)
  obtain env entries plain where env: "env \<noteq> []" "SLASH \<notin> set env" "as_string Y path k = Inr env"
    and pe: "parse_env Y path (m_project m) (m_backend m) env node = Inr (entries, plain)"
    and rest: "parse_envs Y path envs (m\<lparr>m_envs := smap_put env entries (m_envs m), m_vars := smap_put env plain (m_vars m)\<rparr>)
      = Inr m'"
    using 2(3) by auto
  let ?m = "m\<lparr>m_envs := smap_put env entries (m_envs m), m_vars := smap_put env plain (m_vars m)\<rparr>"
  have wf: "wf_env (m_project m) (m_backend m) env entries plain"
    using parse_env_wf [OF pe] 2(2) env by (simp add: wf_manifest_def)
  have "map fst (smap_put env entries (m_envs m)) = map fst (smap_put env plain (m_vars m))"
    using 2(2) by (simp add: wf_manifest_def smap_put_keys)
  then have m: "wf_manifest ?m"
    using 2(2) wf by (auto simp: wf_manifest_def smap.inv_put smap_find_put split: if_splits)
  show ?case using 2(1) [OF m rest] by simp
qed

lemma parse_manifest_wf:
  assumes "parse_manifest Y contents path = Inr m"
  shows "wf_manifest m" and "m_path m = path"
proof -
  obtain doc project backend default_env where
    seg: "project \<noteq> []" "SLASH \<notin> set project" and b: "parse_backend Y (ychild doc ''backend'') path = Inr backend"
    and r: "(let m = \<lparr>m_path = path, m_project = project, m_backend = backend, m_default_env = default_env,
                       m_envs = [], m_vars = []\<rparr> in
              case ychild doc ''env'' of
                None \<Rightarrow> Inr m
              | Some YNull \<Rightarrow> Inr m
              | Some (YMap envs) \<Rightarrow> parse_envs Y path envs m
              | Some _ \<Rightarrow> Inl (manifest_error path (quoted ''env'' @ '' must be a mapping''))) = Inr m"
    using assms by (auto simp: parse_manifest_def split: sum.splits option.splits if_splits)
  let ?m = "\<lparr>m_path = path, m_project = project, m_backend = backend, m_default_env = default_env,
                       m_envs = [], m_vars = []\<rparr>"
  have "wf_manifest ?m"
    using seg parse_backend_wf [OF b] by (simp add: wf_manifest_def)
  then have "wf_manifest m \<and> m_path m = path"
    using r parse_envs_wf [of ?m Y path _ m] by (auto simp: Let_def split: option.splits yaml.splits)
  then show "wf_manifest m" and "m_path m = path" by simp_all
qed

end
