(* ===== verification/Trust.thy ===== *)
theory Trust
  imports ManifestFacts
begin

text \<open>
  Which files the program trusts (src/src/manifest.cpp): who is in a group, when a file or
  directory is writable by us alone, reading a manifest, finding it upward, and the registry.
  The answers of the operating system are the record \<open>system\<close>.
\<close>

section \<open>Groups\<close>

record group_entry =
  ge_name :: string
  ge_gid :: nat
  ge_members :: "string list"

record account_entry =
  ae_name :: string
  ae_uid :: nat
  ae_gid :: nat

record group_members =
  gm_group :: string
  gm_primary :: "string list"
  gm_supplementary :: "(string \<times> string) list"   \<comment> \<open>user, group\<close>
  gm_other_names :: "string list"

definition push_new :: "'a \<Rightarrow> 'a list \<Rightarrow> 'a list" where
  "push_new x xs = (if x \<in> set xs then xs else xs @ [x])"

definition add_listed :: "string \<Rightarrow> string \<Rightarrow> string \<Rightarrow> (string \<times> string) list \<Rightarrow> (string \<times> string) list" where
  "add_listed my_name entry_name user listed =
     (if user \<noteq> my_name then push_new (user, entry_name) listed else listed)"

text \<open>One group entry: the first with the gid names the group.\<close>

definition add_group :: "nat \<Rightarrow> string \<Rightarrow> group_entry \<Rightarrow> bool \<times> group_members \<Rightarrow> bool \<times> group_members" where
  "add_group gid my_name entry state =
     (case state of (named, members) \<Rightarrow>
       if ge_gid entry \<noteq> gid then (named, members) else
       let members =
             (if \<not> named then members\<lparr>gm_group := ge_name entry\<rparr>
              else if ge_name entry \<noteq> gm_group members
              then members\<lparr>gm_other_names := push_new (ge_name entry) (gm_other_names members)\<rparr>
              else members)
       in (True, members\<lparr>gm_supplementary :=
             fold (add_listed my_name (ge_name entry)) (ge_members entry) (gm_supplementary members)\<rparr>))"

definition add_account :: "nat \<Rightarrow> nat \<Rightarrow> account_entry \<Rightarrow> group_members \<Rightarrow> group_members" where
  "add_account gid my_uid account members =
     (if ae_gid account = gid \<and> ae_uid account \<noteq> my_uid
      then members\<lparr>gm_primary := push_new (ae_name account) (gm_primary members)\<rparr>
      else members)"

definition collect_group_members ::
  "nat \<Rightarrow> nat \<Rightarrow> string \<Rightarrow> group_entry list \<Rightarrow> account_entry list \<Rightarrow> group_members" where
  "collect_group_members gid my_uid my_name groups accounts =
     fold (add_account gid my_uid) accounts
       (snd (fold (add_group gid my_name) groups
         (False, \<lparr>gm_group = [], gm_primary = [], gm_supplementary = [], gm_other_names = []\<rparr>)))"

definition ours_alone :: "group_members \<Rightarrow> bool" where
  "ours_alone members \<longleftrightarrow> gm_primary members = [] \<and> gm_supplementary members = [] \<and> gm_other_names members = []"

lemma push_new_set [simp]: "set (push_new x xs) = insert x (set xs)"
  by (auto simp: push_new_def)

lemma push_new_nonempty [simp]: "push_new x xs \<noteq> []"
  by (auto simp: push_new_def)

lemma add_listed_empty:
  "fold (add_listed me n) users acc = [] \<longleftrightarrow> acc = [] \<and> (\<forall>u \<in> set users. u = me)"
  by (induction users arbitrary: acc) (auto simp: add_listed_def)

lemma add_accounts:
  "gm_primary (fold (add_account gid me) accounts m) = [] \<longleftrightarrow>
     gm_primary m = [] \<and> (\<forall>a \<in> set accounts. ae_gid a = gid \<longrightarrow> ae_uid a = me)"
  "gm_supplementary (fold (add_account gid me) accounts m) = gm_supplementary m"
  "gm_other_names (fold (add_account gid me) accounts m) = gm_other_names m"
  "gm_group (fold (add_account gid me) accounts m) = gm_group m"
  by (induction accounts arbitrary: m) (auto simp: add_account_def)

definition of_gid :: "nat \<Rightarrow> group_entry list \<Rightarrow> group_entry list" where
  "of_gid gid groups = filter (\<lambda>g. ge_gid g = gid) groups"

lemma of_gid_hd: "of_gid gid groups = g # rest \<Longrightarrow> ge_gid g = gid"
  by (auto simp: of_gid_def filter_eq_Cons_iff)

lemma add_groups_named:
  "let m' = snd (fold (add_group gid me) groups (True, m)) in
     gm_primary m' = gm_primary m \<and> gm_group m' = gm_group m \<and>
     (gm_supplementary m' = [] \<longleftrightarrow> gm_supplementary m = [] \<and>
        (\<forall>g \<in> set (of_gid gid groups). \<forall>u \<in> set (ge_members g). u = me)) \<and>
     (gm_other_names m' = [] \<longleftrightarrow> gm_other_names m = [] \<and> (\<forall>g \<in> set (of_gid gid groups). ge_name g = gm_group m))"
proof (induction groups arbitrary: m)
  case Nil
  then show ?case by (simp add: of_gid_def)
next
  case (Cons g groups)
  obtain m1 where m1: "add_group gid me g (True, m) = (True, m1)"
    by (cases "ge_gid g = gid") (auto simp: add_group_def Let_def)
  show ?case
    using Cons [of m1] m1
    by (cases "ge_gid g = gid") (auto simp: add_group_def of_gid_def Let_def add_listed_empty split: if_splits)
qed

lemma add_groups_unnamed:
  "of_gid gid groups = g # rest \<Longrightarrow>
   \<exists>later. of_gid gid later = rest \<and> fold (add_group gid me) groups (False, m) =
     fold (add_group gid me) later (add_group gid me g (False, m))"
proof (induction groups)
  case (Cons h groups)
  show ?case
  proof (cases "ge_gid h = gid")
    case True
    then show ?thesis using Cons.prems by (intro exI [of _ groups]) (simp add: of_gid_def)
  next
    case False
    then have "add_group gid me h (False, m) = (False, m)" by (simp add: add_group_def)
    then show ?thesis using Cons False by (simp add: of_gid_def)
  qed
qed (simp add: of_gid_def)

text \<open>
  Alone in a group: no other account has it as its primary group, no entry with the gid lists
  anyone else, and all those entries have one name.
\<close>

lemma ours_alone_iff:
  assumes "of_gid gid groups \<noteq> []"
  shows "ours_alone (collect_group_members gid me my_name groups accounts) \<longleftrightarrow>
    (\<forall>a \<in> set accounts. ae_gid a = gid \<longrightarrow> ae_uid a = me) \<and>
    (\<forall>g \<in> set (of_gid gid groups). (\<forall>u \<in> set (ge_members g). u = my_name) \<and>
       ge_name g = ge_name (hd (of_gid gid groups)))"
proof -
  obtain g rest where g: "of_gid gid groups = g # rest" using assms by (cases "of_gid gid groups") auto
  then have gid: "ge_gid g = gid" by (rule of_gid_hd)
  let ?m0 = "\<lparr>gm_group = [], gm_primary = [], gm_supplementary = [], gm_other_names = []\<rparr> :: group_members"
  let ?m1 = "?m0\<lparr>gm_group := ge_name g, gm_supplementary := fold (add_listed my_name (ge_name g)) (ge_members g) []\<rparr>"
  obtain later where later: "of_gid gid later = rest"
    and f: "fold (add_group gid my_name) groups (False, ?m0) = fold (add_group gid my_name) later (True, ?m1)"
    using add_groups_unnamed [OF g, of my_name ?m0] gid by (auto simp: add_group_def Let_def)
  show ?thesis
    using add_groups_named [of gid my_name later ?m1] later g
    by (auto simp: ours_alone_def collect_group_members_def f add_accounts add_listed_empty Let_def)
qed

lemma collect_group_name:
  assumes "of_gid gid groups \<noteq> []"
  shows "gm_group (collect_group_members gid me my_name groups accounts) = ge_name (hd (of_gid gid groups))"
proof -
  obtain g rest where g: "of_gid gid groups = g # rest" using assms by (cases "of_gid gid groups") auto
  then have gid: "ge_gid g = gid" by (rule of_gid_hd)
  let ?m0 = "\<lparr>gm_group = [], gm_primary = [], gm_supplementary = [], gm_other_names = []\<rparr> :: group_members"
  let ?m1 = "?m0\<lparr>gm_group := ge_name g, gm_supplementary := fold (add_listed my_name (ge_name g)) (ge_members g) []\<rparr>"
  obtain later where f: "fold (add_group gid my_name) groups (False, ?m0) = fold (add_group gid my_name) later (True, ?m1)"
    using add_groups_unnamed [OF g, of my_name ?m0] gid by (auto simp: add_group_def Let_def)
  show ?thesis
    using add_groups_named [of gid my_name later ?m1] g
    by (simp add: collect_group_members_def f add_accounts Let_def)
qed

end
