(* ===== verification/ManifestFiles.thy ===== *)
theory ManifestFiles
  imports Trust
begin

text \<open>
  Trust checks on files and directories, reading and finding a manifest, and the registry
  (src/src/manifest.cpp). Every answer of the operating system is a field of \<open>system\<close>; a path
  is text and \<open>parent_path\<close> is that of std::filesystem.
\<close>

record file_stat =
  fs_uid :: nat
  fs_gid :: nat
  fs_group_writable :: bool
  fs_world_writable :: bool
  fs_is_dir :: bool
  fs_is_regular :: bool

text \<open>The access ACL of an inode: present, absent (ENODATA, ENOTSUP), or unreadable.\<close>

datatype acl_answer = HasAcl | NoAcl | AclError string

record system =
  sys_uid :: nat
  sys_account :: "(string \<times> nat) option"        \<comment> \<open>\<open>getpwuid(getuid())\<close>: name and primary gid\<close>
  sys_group :: "nat \<Rightarrow> group_entry option"         \<comment> \<open>\<open>getgrgid\<close>\<close>
  sys_groups :: "group_entry list"                \<comment> \<open>\<open>getgrent\<close>\<close>
  sys_groups_error :: "string option"             \<comment> \<open>an errno other than ENOENT after the scan\<close>
  sys_accounts :: "account_entry list"            \<comment> \<open>\<open>getpwent\<close>\<close>
  sys_accounts_error :: "string option"
  sys_stat :: "string \<Rightarrow> string + file_stat"
  sys_path_acl :: "string \<Rightarrow> acl_answer"
  sys_canonical :: "string \<Rightarrow> string + string"
  sys_open :: "string \<Rightarrow> string + nat"             \<comment> \<open>\<open>open(O_NOFOLLOW)\<close>: a descriptor\<close>
  sys_fstat :: "nat \<Rightarrow> string + file_stat"
  sys_fd_acl :: "nat \<Rightarrow> acl_answer"
  sys_read_all :: "nat \<Rightarrow> string + string"         \<comment> \<open>reads to end of file, EINTR retried\<close>
  sys_exists_nofollow :: "string \<Rightarrow> bool"          \<comment> \<open>\<open>exists(symlink_status(path))\<close>\<close>
  sys_accessible :: "string \<Rightarrow> bool"               \<comment> \<open>\<open>access(path, F_OK) == 0\<close>\<close>
  sys_writable :: "string \<Rightarrow> string option"        \<comment> \<open>why \<open>access(path, W_OK)\<close> fails\<close>
  sys_env :: environ

section \<open>Trusting a file\<close>

definition scan_error :: "string \<Rightarrow> string \<Rightarrow> string \<Rightarrow> string" where
  "scan_error what name e =
     ''cannot list '' @ what @ '' to check group '' @ name @ '': '' @ e @ ''; fix with: chmod g-w on the manifest and its directory''"

definition other_group_members :: "system \<Rightarrow> nat \<Rightarrow> string + group_members option" where
  "other_group_members S gid =
     (let my_name = (case sys_account S of Some (name, g) \<Rightarrow> name | None \<Rightarrow> []) in
      case sys_group S gid of
        None \<Rightarrow> Inr None
      | Some entry \<Rightarrow>
          let groups = entry # filter (\<lambda>g. ge_gid g = gid) (sys_groups S);
              accounts = filter (\<lambda>a. ae_gid a = gid) (sys_accounts S) in
          (case sys_groups_error S of
             Some e \<Rightarrow> Inl (scan_error ''groups'' (ge_name entry) e)
           | None \<Rightarrow>
               (case sys_accounts_error S of
                  Some e \<Rightarrow> Inl (scan_error ''accounts'' (ge_name entry) e)
                | None \<Rightarrow> Inr (Some (collect_group_members gid (sys_uid S) my_name groups accounts)))))"

text \<open>The reason, and the commands that would fix the group (empty when there are none).\<close>

type_synonym shared_group = "string \<times> string"

definition member_problems :: "nat \<Rightarrow> group_members \<Rightarrow> shared_group" where
  "member_problems gid members =
     (let descriptions =
            map (\<lambda>user. user @ '' (its primary group)'') (gm_primary members) @
            map (\<lambda>(user, grp). if grp = gm_group members then user else user @ '' (via group '' @ quoted grp @ '')'')
              (gm_supplementary members) @
            map (\<lambda>other. ''group '' @ quoted other @ '', which shares gid '' @ decimal gid) (gm_other_names members);
          commands =
            map (\<lambda>user. ''sudo userdel '' @ user @ '' or sudo usermod -g <another group> '' @ user) (gm_primary members) @
            map (\<lambda>(user, grp). ''sudo gpasswd -d '' @ user @ '' '' @ grp) (gm_supplementary members) @
            map (\<lambda>other. ''sudo groupmod -g <unused gid> '' @ other) (gm_other_names members)
      in (''writable by group '' @ quoted (gm_group members) @ '', which also includes '' @ join descriptions '', '',
          ''or make '' @ quoted (gm_group members) @ '' yours alone: '' @ join commands ''; '' @
            '' (and end any of their processes still running)''))"

definition shared_group_problem :: "system \<Rightarrow> nat \<Rightarrow> string + shared_group option" where
  "shared_group_problem S gid =
     (case sys_account S of
        None \<Rightarrow> Inr (Some (''writable by group '' @ decimal gid @ '', which is not your private group'', []))
      | Some (my_name, my_gid) \<Rightarrow>
          if my_gid \<noteq> gid
          then Inr (Some (''writable by group '' @ decimal gid @ '', which is not your private group'', []))
          else bindE (other_group_members S gid) (\<lambda>found.
            case found of
              None \<Rightarrow> Inr (Some (''writable by group '' @ decimal gid @ '', which has no group entry, so its members are unknown'', []))
            | Some members \<Rightarrow>
                if gm_group members \<noteq> my_name
                then Inr (Some (''writable by group '' @ quoted (gm_group members) @
                       '', which is not your private group (named '' @ my_name @ '')'', []))
                else if ours_alone members then Inr None
                else Inr (Some (member_problems gid members))))"

definition acl_problem :: "acl_answer \<Rightarrow> string \<Rightarrow> string option" where
  "acl_problem acl path =
     (case acl of
        HasAcl \<Rightarrow> Some (''has an ACL, so its group write may extend to other accounts; fix with: setfacl -b '' @ quoted path @
                    '', or chmod g-w '' @ quoted path)
      | NoAcl \<Rightarrow> None
      | AclError e \<Rightarrow> Some (''group-writable, and its ACL cannot be read ('' @ e @ ''); fix with: chmod g-w '' @ quoted path))"

definition require_trusted ::
  "system \<Rightarrow> string \<Rightarrow> file_stat \<Rightarrow> string \<Rightarrow> bool \<Rightarrow> acl_answer \<Rightarrow> string + unit" where
  "require_trusted S path st noun directory acl =
     (let refusing = ''refusing '' @ noun @ (if directory then '' directory'' else []) @ '' '' @ quoted path @ '': '' in
      if fs_uid st \<noteq> sys_uid S \<and> \<not> (directory \<and> fs_uid st = 0)
      then Inl (refusing @ ''owned by uid '' @ decimal (fs_uid st) @ '', not you (uid '' @ decimal (sys_uid S) @
             ''); remove it or chown it to yourself'')
      else
        bindE (if fs_group_writable st then shared_group_problem S (fs_gid st) else Inr None) (\<lambda>group_problem.
        if fs_world_writable st
        then Inl (refusing @ ''writable by everyone; fix with: chmod '' @ (if group_problem \<noteq> None then ''g-w,o-w'' else ''o-w'') @
               '' '' @ quoted path)
        else
          (case group_problem of
             Some (reason, fix_) \<Rightarrow>
               Inl (refusing @ reason @ ''; fix with: chmod g-w '' @ quoted path @ (if fix_ = [] then [] else '', '' @ fix_))
           | None \<Rightarrow>
               if fs_group_writable st then
                 (case acl_problem acl path of Some problem \<Rightarrow> Inl (refusing @ problem) | None \<Rightarrow> Inr ())
               else Inr ())))"

section \<open>Paths\<close>

fun strip_slashes :: "string \<Rightarrow> nat \<Rightarrow> nat" where
  "strip_slashes p 0 = 0"
| "strip_slashes p (Suc n) = (if p ! n = SLASH then strip_slashes p n else Suc n)"

definition parent_path :: "string \<Rightarrow> string" where
  "parent_path p =
     (case rfind_char SLASH p of
        None \<Rightarrow> []
      | Some i \<Rightarrow> (let d = take (strip_slashes p i) p in if d = [] then ''/'' else d))"

text \<open>\<open>dir / name\<close>.\<close>

definition path_join :: "string \<Rightarrow> string \<Rightarrow> string" where
  "path_join dir name = (if dir = [] \<or> last dir = SLASH then dir @ name else dir @ SLASH # name)"

lemma strip_slashes_le: "strip_slashes p n \<le> n"
  by (induction n) auto

lemma parent_path_shorter: "parent_path p \<noteq> p \<Longrightarrow> length (parent_path p) < length p"
proof (cases "rfind_char SLASH p")
  case None
  then show "parent_path p \<noteq> p \<Longrightarrow> ?thesis" by (cases p) (auto simp: parent_path_def)
next
  case (Some i)
  note f = rfind_char_split [OF Some]
  assume ne: "parent_path p \<noteq> p"
  show ?thesis
  proof (cases "take (strip_slashes p i) p = []")
    case True
    then have "parent_path p = ''/''" using Some by (simp add: parent_path_def)
    moreover have "p \<noteq> ''/''" using ne calculation by auto
    moreover have "length p \<noteq> 1"
    proof
      assume "length p = 1"
      then obtain c where "p = [c]" by (auto simp: length_Suc_conv)
      then have "p = ''/''" using f by auto
      then show False using calculation(2) by simp
    qed
    ultimately show ?thesis using f by (cases p) auto
  next
    case False
    then show ?thesis using Some f strip_slashes_le [of p i] by (auto simp: parent_path_def Let_def)
  qed
qed

section \<open>Reading\<close>

definition require_trusted_dir :: "system \<Rightarrow> string \<Rightarrow> string \<Rightarrow> string + string" where
  "require_trusted_dir S dir noun =
     (let dir_path = (if dir = [] then ''.'' else dir) in
      case sys_stat S dir_path of
        Inl e \<Rightarrow> Inl (''stat '' @ quoted dir_path @ '': '' @ e)
      | Inr st \<Rightarrow>
          bindE (refuse_if (\<not> fs_is_dir st) (noun @ '' directory '' @ quoted dir_path @ '' is not a directory'')) (\<lambda>_.
          bindE (require_trusted S dir_path st noun True (sys_path_acl S dir_path)) (\<lambda>_. Inr dir_path)))"

definition require_creatable_manifest_dir :: "system \<Rightarrow> string \<Rightarrow> string + unit" where
  "require_creatable_manifest_dir S manifest_path =
     bindE (require_trusted_dir S (parent_path manifest_path) ''manifest'') (\<lambda>dir_path.
       case sys_writable S dir_path of
         Some e \<Rightarrow> Inl (''cannot create a manifest in '' @ quoted dir_path @ '': '' @ e)
       | None \<Rightarrow> Inr ())"

definition read_open :: "system \<Rightarrow> string \<Rightarrow> string \<Rightarrow> nat \<Rightarrow> string + string" where
  "read_open S path noun fd =
     (case sys_fstat S fd of
        Inl e \<Rightarrow> Inl (''stat '' @ quoted path @ '': '' @ e)
      | Inr st \<Rightarrow>
          bindE (refuse_if (\<not> fs_is_regular st) (noun @ '' '' @ quoted path @ '' is not a regular file'')) (\<lambda>_.
          bindE (require_trusted S path st noun False (sys_fd_acl S fd)) (\<lambda>_.
          case sys_read_all S fd of
            Inl e \<Rightarrow> Inl (''read '' @ quoted path @ '': '' @ e)
          | Inr contents \<Rightarrow> Inr contents)))"

definition read_manifest_text :: "system \<Rightarrow> string \<Rightarrow> string \<Rightarrow> string + string" where
  "read_manifest_text S path noun =
     (case sys_canonical S path of
        Inl e \<Rightarrow> Inl (noun @ '' '' @ quoted path @ '': '' @ e)
      | Inr real \<Rightarrow>
          bindE (require_trusted_dir S (parent_path path) noun) (\<lambda>_.
          bindE (if real \<noteq> path then require_trusted_dir S (parent_path real) noun else Inr real) (\<lambda>_.
          case sys_open S real of
            Inl e \<Rightarrow> Inl (''open '' @ quoted path @ '': '' @ e)
          | Inr fd \<Rightarrow> read_open S path noun fd)))"

definition load_manifest :: "system \<Rightarrow> yaml_lib \<Rightarrow> string \<Rightarrow> string + manifest" where
  "load_manifest S Y path =
     bindE (read_manifest_text S path ''manifest'') (\<lambda>contents. parse_manifest Y contents path)"

text \<open>The walk up; an unreadable directory or one of another user ends it.\<close>

function find_manifest_upward :: "system \<Rightarrow> string \<Rightarrow> string option" where
  "find_manifest_upward S dir =
     (case sys_stat S dir of
        Inl e \<Rightarrow> None
      | Inr st \<Rightarrow>
          if fs_uid st \<noteq> sys_uid S then None else
          let candidate = path_join dir kManifestFileName in
          if sys_exists_nofollow S candidate then Some candidate else
          let parent = parent_path dir in
          if parent = dir then None else find_manifest_upward S parent)"
  by pat_completeness auto
termination
  by (relation "measure (\<lambda>(S, dir). length dir)") (auto intro: parent_path_shorter)

declare find_manifest_upward.simps [simp del]

section \<open>The registry\<close>

function expand_vars_from :: "environ \<Rightarrow> string \<Rightarrow> string \<Rightarrow> string + string" where
  "expand_vars_from env whole s =
     (case s of
        [] \<Rightarrow> Inr []
      | c # r \<Rightarrow>
          if has_prefix s ''${'' then
            (case find_char (CHR ''}'') s of
               None \<Rightarrow> Inl (''unterminated ${ in '' @ quoted whole)
             | Some close \<Rightarrow>
                 let name = take (close - 2) (drop 2 s) in
                 if name \<noteq> ''HOME'' \<and> name \<noteq> ''USER''
                 then Inl (''unsupported variable ${'' @ name @ ''} (only HOME, USER)'')
                 else
                   (case env_nonempty env name of
                      None \<Rightarrow> Inl (name @ '' is not set; cannot expand '' @ quoted whole)
                    | Some v \<Rightarrow> bindE (expand_vars_from env whole (drop (close + 1) s)) (\<lambda>rest. Inr (v @ rest))))
          else bindE (expand_vars_from env whole r) (\<lambda>rest. Inr (c # rest)))"
  by pat_completeness auto
termination
  by (relation "measure (\<lambda>(env, whole, s). length s)") auto

declare expand_vars_from.simps [simp del]

definition expand_vars :: "environ \<Rightarrow> string \<Rightarrow> string + string" where
  "expand_vars env s = expand_vars_from env s s"

definition registry_error :: "string \<Rightarrow> string \<Rightarrow> string" where
  "registry_error registry_path what = ''registry '' @ quoted registry_path @ '': '' @ what"

definition load_registry :: "system \<Rightarrow> yaml_lib \<Rightarrow> string \<Rightarrow> string + yaml" where
  "load_registry S Y registry_path =
     (if \<not> sys_accessible S registry_path then Inr YNull else
      bindE (read_manifest_text S registry_path ''registry'') (\<lambda>contents.
        case yaml_load Y contents of Inl what \<Rightarrow> Inl (registry_error registry_path what) | Inr doc \<Rightarrow> Inr doc))"

text \<open>\<open>doc[key]\<close> of a node of any kind: a scalar throws, the others have no such child.\<close>

definition lookup :: "yaml_lib \<Rightarrow> string \<Rightarrow> yaml \<Rightarrow> string \<Rightarrow> string + yaml option" where
  "lookup Y registry_path doc key =
     (if is_scalar doc then Inl (registry_error registry_path (yaml_subscript_error Y key)) else Inr (ychild doc key))"

definition registry_string :: "yaml_lib \<Rightarrow> string \<Rightarrow> yaml \<Rightarrow> string + string" where
  "registry_string Y registry_path node =
     (case yaml_string Y node of Inl what \<Rightarrow> Inl (registry_error registry_path what) | Inr s \<Rightarrow> Inr s)"

definition project_root_node :: "yaml_lib \<Rightarrow> string \<Rightarrow> string \<Rightarrow> yaml option \<Rightarrow> string + string option" where
  "project_root_node Y registry_path name project =
     (case project of
        None \<Rightarrow> Inr None
      | Some YNull \<Rightarrow> Inr None
      | Some p \<Rightarrow>
          (case (if is_map p then ychild p ''root'' else None) of
             Some (YScalar s) \<Rightarrow> bindE (registry_string Y registry_path (YScalar s)) (\<lambda>r. Inr (Some r))
           | _ \<Rightarrow> Inl (registry_error registry_path (''project '' @ quoted name @ '' has no 'root''))))"

definition registry_project_root :: "system \<Rightarrow> yaml_lib \<Rightarrow> string \<Rightarrow> string \<Rightarrow> string + string option" where
  "registry_project_root S Y registry_path name =
     bindE (load_registry S Y registry_path) (\<lambda>doc.
     bindE (lookup Y registry_path doc ''projects'') (\<lambda>projects.
     case projects of
       None \<Rightarrow> Inr None
     | Some YNull \<Rightarrow> Inr None
     | Some (YMap pairs) \<Rightarrow>
         bindE (project_root_node Y registry_path name (child_of pairs name)) (\<lambda>root_spec.
         case root_spec of
           None \<Rightarrow> Inr None
         | Some spec \<Rightarrow>
             bindE (expand_vars (sys_env S) spec) (\<lambda>root.
               if \<not> sys_accessible S root then Inl (''project root not found: '' @ root) else Inr (Some root)))
     | Some _ \<Rightarrow> Inl (registry_error registry_path (quoted ''projects'' @ '' must be a mapping''))))"

definition is_write_target :: "string \<Rightarrow> bool" where
  "is_write_target target \<longleftrightarrow>
     has_prefix target ''aws-account:'' \<and> is_aws_account (drop 12 target) \<or>
     has_prefix target ''gcp:'' \<and> is_gcp_project (drop 4 target)"

definition write_target :: "yaml_lib \<Rightarrow> string \<Rightarrow> yaml \<Rightarrow> string + string" where
  "write_target Y registry_path item =
     bindE (if is_scalar item then registry_string Y registry_path item else Inr []) (\<lambda>target.
       if \<not> is_write_target target
       then Inl (registry_error registry_path (''write_targets entry '' @ quoted target @
              '' must be aws-account:<12-digit account> or gcp:<project id>''))
       else Inr target)"

definition registry_write_targets :: "system \<Rightarrow> yaml_lib \<Rightarrow> string \<Rightarrow> string + string list" where
  "registry_write_targets S Y registry_path =
     bindE (load_registry S Y registry_path) (\<lambda>doc.
     bindE (lookup Y registry_path doc ''write_targets'') (\<lambda>listed.
     case listed of
       None \<Rightarrow> Inr []
     | Some YNull \<Rightarrow> Inr []
     | Some (YSeq items) \<Rightarrow> collectE (write_target Y registry_path) items
     | Some _ \<Rightarrow> Inl (registry_error registry_path (quoted ''write_targets'' @ '' must be a list''))))"

section \<open>What is trusted\<close>

text \<open>Nobody but us can write through the group: it is our private group and we are alone in it.\<close>

definition private_group :: "system \<Rightarrow> nat \<Rightarrow> bool" where
  "private_group S gid \<longleftrightarrow>
     (\<exists>my_name first. sys_account S = Some (my_name, gid) \<and> sys_group S gid = Some first \<and> ge_name first = my_name \<and>
        (\<forall>a \<in> set (sys_accounts S). ae_gid a = gid \<longrightarrow> ae_uid a = sys_uid S) \<and>
        (\<forall>g \<in> set (first # sys_groups S). ge_gid g = gid \<longrightarrow> ge_name g = my_name \<and> (\<forall>u \<in> set (ge_members g). u = my_name)))"

text \<open>\<open>getgrgid\<close> answers with an entry of that gid.\<close>

definition system_ok :: "system \<Rightarrow> bool" where
  "system_ok S \<longleftrightarrow> (\<forall>gid g. sys_group S gid = Some g \<longrightarrow> ge_gid g = gid)"

lemma shared_group_problem_None:
  assumes "system_ok S" and "shared_group_problem S gid = Inr None"
  shows "private_group S gid"
proof -
  obtain my_name my_gid where acc0: "sys_account S = Some (my_name, my_gid)"
    using assms(2) by (cases "sys_account S") (auto simp: shared_group_problem_def)
  have acc: "sys_account S = Some (my_name, gid)"
    using assms(2) acc0 by (auto simp: shared_group_problem_def split: if_splits)
  obtain members where mem: "other_group_members S gid = Inr (Some members)" and "gm_group members = my_name"
    and "ours_alone members"
  proof (cases "other_group_members S gid")
    case (Inl e)
    then show thesis using assms(2) acc by (simp add: shared_group_problem_def)
  next
    case (Inr found)
    then show thesis
      using that assms(2) acc by (cases found) (auto simp: shared_group_problem_def split: if_splits)
  qed
  from mem acc obtain first where first: "sys_group S gid = Some first"
    and m: "members = collect_group_members gid (sys_uid S) my_name
      (first # filter (\<lambda>g. ge_gid g = gid) (sys_groups S)) (filter (\<lambda>a. ae_gid a = gid) (sys_accounts S))"
    by (auto simp: other_group_members_def Let_def split: option.splits)
  have "ge_gid first = gid" using assms(1) first by (simp add: system_ok_def)
  then have gid: "of_gid gid (first # filter (\<lambda>g. ge_gid g = gid) (sys_groups S)) =
      first # filter (\<lambda>g. ge_gid g = gid) (sys_groups S)"
    by (simp add: of_gid_def)
  have name: "ge_name first = my_name"
    using \<open>gm_group members = my_name\<close> collect_group_name [of gid] m gid by simp
  show ?thesis
    using \<open>ours_alone members\<close> acc first name gid
    unfolding m private_group_def
    by (subst (asm) ours_alone_iff) auto
qed

text \<open>What passes: ours (a directory may be root's), nobody else may write, no ACL widens the group.\<close>

definition trusted :: "system \<Rightarrow> file_stat \<Rightarrow> bool \<Rightarrow> acl_answer \<Rightarrow> bool" where
  "trusted S st directory acl \<longleftrightarrow>
     (fs_uid st = sys_uid S \<or> directory \<and> fs_uid st = 0) \<and> \<not> fs_world_writable st \<and>
     (fs_group_writable st \<longrightarrow> private_group S (fs_gid st) \<and> acl = NoAcl)"

lemma require_trusted_Inr:
  assumes "system_ok S" and "require_trusted S path st noun directory acl = Inr u"
  shows "trusted S st directory acl"
proof -
  have uid: "fs_uid st = sys_uid S \<or> directory \<and> fs_uid st = 0"
    using assms(2) by (auto simp: require_trusted_def Let_def split: if_splits)
  then have r: "bindE (if fs_group_writable st then shared_group_problem S (fs_gid st) else Inr None) (\<lambda>group_problem.
        if fs_world_writable st then Inl undefined
        else (case group_problem of Some p \<Rightarrow> Inl undefined | None \<Rightarrow>
               if fs_group_writable st then (case acl_problem acl path of Some p \<Rightarrow> Inl undefined | None \<Rightarrow> Inr ())
               else Inr ())) = Inr ()"
    using assms(2)
    by (cases "fs_group_writable st") (auto simp: require_trusted_def Let_def split: if_splits option.splits prod.splits)
  have "\<not> fs_world_writable st"
    using r by (auto split: if_splits)
  moreover have "shared_group_problem S (fs_gid st) = Inr None \<and> acl = NoAcl" if "fs_group_writable st"
    using r that by (cases acl) (auto simp: acl_problem_def split: if_splits option.splits)
  ultimately show ?thesis
    using uid shared_group_problem_None [OF assms(1)] by (auto simp: trusted_def)
qed

definition trusted_dir :: "system \<Rightarrow> string \<Rightarrow> bool" where
  "trusted_dir S dir \<longleftrightarrow>
     (let p = (if dir = [] then ''.'' else dir) in
      \<exists>st. sys_stat S p = Inr st \<and> fs_is_dir st \<and> trusted S st True (sys_path_acl S p))"

lemma require_trusted_dir_Inr:
  "system_ok S \<Longrightarrow> require_trusted_dir S dir noun = Inr d \<Longrightarrow> trusted_dir S dir"
  using require_trusted_Inr
  by (auto simp: require_trusted_dir_def trusted_dir_def Let_def split: sum.splits if_splits)

text \<open>A manifest or registry that is read is a trusted regular file in trusted directories.\<close>

lemma read_manifest_text_Inr:
  assumes "system_ok S" and "read_manifest_text S path noun = Inr contents"
  shows "trusted_dir S (parent_path path) \<and>
    (\<exists>real fd st. sys_canonical S path = Inr real \<and> trusted_dir S (parent_path real) \<and> sys_open S real = Inr fd \<and>
       sys_fstat S fd = Inr st \<and> fs_is_regular st \<and> trusted S st False (sys_fd_acl S fd) \<and>
       sys_read_all S fd = Inr contents)"
proof -
  obtain real d1 fd where real: "sys_canonical S path = Inr real"
    and d1: "require_trusted_dir S (parent_path path) noun = Inr d1"
    and d2: "real \<noteq> path \<Longrightarrow> \<exists>d2. require_trusted_dir S (parent_path real) noun = Inr d2"
    and fd: "sys_open S real = Inr fd" "read_open S path noun fd = Inr contents"
    using assms(2) by (auto simp: read_manifest_text_def split: sum.splits if_splits)
  obtain st where st: "sys_fstat S fd = Inr st" "fs_is_regular st"
    "require_trusted S path st noun False (sys_fd_acl S fd) = Inr ()" "sys_read_all S fd = Inr contents"
    using fd(2) by (auto simp: read_open_def split: sum.splits if_splits)
  have "trusted_dir S (parent_path path)" using require_trusted_dir_Inr [OF assms(1) d1] .
  moreover have "trusted_dir S (parent_path real)"
    using d2 require_trusted_dir_Inr [OF assms(1)] calculation by (cases "real = path") auto
  ultimately show ?thesis using real fd(1) st require_trusted_Inr [OF assms(1) st(3)] by blast
qed

text \<open>The walk: the nearest manifest, and every directory up to it is ours.\<close>

fun ancestors :: "nat \<Rightarrow> string \<Rightarrow> string" where
  "ancestors 0 dir = dir"
| "ancestors (Suc n) dir = ancestors n (parent_path dir)"

lemma find_manifest_upward_Some:
  "find_manifest_upward S dir = Some p \<Longrightarrow>
   \<exists>n. p = path_join (ancestors n dir) kManifestFileName \<and> sys_exists_nofollow S p \<and>
     (\<forall>i \<le> n. \<exists>st. sys_stat S (ancestors i dir) = Inr st \<and> fs_uid st = sys_uid S) \<and>
     (\<forall>i < n. \<not> sys_exists_nofollow S (path_join (ancestors i dir) kManifestFileName))"
proof (induction S dir rule: find_manifest_upward.induct)
  case (1 S dir)
  obtain st where st: "sys_stat S dir = Inr st" "fs_uid st = sys_uid S"
    using 1(2) by (auto simp: find_manifest_upward.simps [of S dir] split: sum.splits if_splits)
  show ?case
  proof (cases "sys_exists_nofollow S (path_join dir kManifestFileName)")
    case True
    then have "p = path_join dir kManifestFileName"
      using 1(2) st by (simp add: find_manifest_upward.simps [of S dir])
    then show ?thesis using True st by (intro exI [of _ 0]) simp
  next
    case False
    then have up: "parent_path dir \<noteq> dir" "find_manifest_upward S (parent_path dir) = Some p"
      using 1(2) st by (auto simp: find_manifest_upward.simps [of S dir] Let_def split: if_splits)
    obtain n where n: "p = path_join (ancestors n (parent_path dir)) kManifestFileName" "sys_exists_nofollow S p"
      "\<forall>i \<le> n. \<exists>st. sys_stat S (ancestors i (parent_path dir)) = Inr st \<and> fs_uid st = sys_uid S"
      "\<forall>i < n. \<not> sys_exists_nofollow S (path_join (ancestors i (parent_path dir)) kManifestFileName)"
      using 1(1) [OF st(1) _ refl False refl] up st(2) by auto
    have "\<exists>st. sys_stat S (ancestors i dir) = Inr st \<and> fs_uid st = sys_uid S" if "i \<le> Suc n" for i
      using n(3) st that by (cases i) auto
    moreover have "\<not> sys_exists_nofollow S (path_join (ancestors i dir) kManifestFileName)" if "i < Suc n" for i
      using n(4) False that by (cases i) auto
    ultimately show ?thesis using n(1,2) by (intro exI [of _ "Suc n"]) simp
  qed
qed

text \<open>Text without a variable is left alone; only HOME and USER are ever looked up.\<close>

lemma expand_vars_plain: "CHR ''$'' \<notin> set s \<Longrightarrow> expand_vars_from env whole s = Inr s"
proof (induction s)
  case Nil
  then show ?case by (simp add: expand_vars_from.simps)
next
  case (Cons c s)
  then show ?case by (subst expand_vars_from.simps) (auto simp: has_prefix_def)
qed

lemma expand_vars_var:
  assumes "name \<in> {''HOME'', ''USER''}" and "env name = Some v" and "v \<noteq> []"
    and "expand_vars_from env whole s = Inr r"
  shows "expand_vars_from env whole (''${'' @ name @ CHR ''}'' # s) = Inr (v @ r)"
  using assms
  by (subst expand_vars_from.simps) (auto simp: has_prefix_def env_nonempty_def)

lemma registry_write_targets_valid:
  "registry_write_targets S Y path = Inr targets \<Longrightarrow> t \<in> set targets \<Longrightarrow> is_write_target t"
proof -
  assume r: "registry_write_targets S Y path = Inr targets" and t: "t \<in> set targets"
  obtain items where "collectE (write_target Y path) items = Inr targets"
  proof (cases "load_registry S Y path")
    case (Inl e)
    then show thesis using r by (simp add: registry_write_targets_def)
  next
    case doc: (Inr doc)
    show thesis
    proof (cases "lookup Y path doc ''write_targets''")
      case (Inl e)
      then show thesis using r doc by (simp add: registry_write_targets_def)
    next
      case listed: (Inr listed)
      show thesis
      proof (cases listed)
        case None
        then show thesis using r doc listed t by (simp add: registry_write_targets_def)
      next
        case (Some node)
        then show thesis
          using that r doc listed t by (cases node) (simp_all add: registry_write_targets_def)
      qed
    qed
  qed
  from collectE_all [OF this t] obtain item where "write_target Y path item = Inr t" by (elim bexE)
  then show "is_write_target t" by (auto simp: write_target_def split: if_splits)
qed

end
