(* ===== verification/FileWrite.thy ===== *)
theory FileWrite
  imports Prelude
begin

text \<open>
  \<open>write_file_atomic\<close> of src/src/paths.hpp: temporary file, fsync, rename, directory fsync.

  The function is a machine that makes one system call per step; the outcome of every call is
  an event chosen by the kernel, so a run over a list of events is one execution, and a list
  that ends early is a process killed at that point. The file system maps a path to the file
  it names: its bytes, its creation mode, and whether its bytes have been fsynced.
\<close>

record inode =
  f_data :: string
  f_mode :: nat
  f_synced :: bool

type_synonym files = "string \<Rightarrow> inode option"

text \<open>What a system call answers; \<open>Fails e\<close> carries \<open>strerror(errno)\<close>.\<close>

datatype outcome = Succeeds | Interrupted | Wrote nat | Fails string

datatype wfa_pc =
    Mkdir
  | UnlinkTmp
  | OpenTmp
  | Write nat           \<comment> \<open>\<open>written\<close>, the bytes already in the temporary file\<close>
  | Fsync
  | Close
  | Rename
  | OpenDir
  | FsyncDir
  | Cleanup string      \<comment> \<open>about to unlink the temporary file and throw\<close>
  | Returned bool       \<comment> \<open>returned; whether it warned that the directory was not synced\<close>
  | Threw string

definition tmp_name :: "string \<Rightarrow> string" where
  "tmp_name path = path @ ''.tmp''"

text \<open>The directory \<open>ensure_parent_dir\<close> creates: none for a bare name or one right under the root.\<close>

definition parent_to_create :: "string \<Rightarrow> string option" where
  "parent_to_create path =
     (case rfind_char SLASH path of
        None \<Rightarrow> None
      | Some slash \<Rightarrow> if slash = 0 then None else
          (let dir = take slash path in if dir = [] \<or> dir = ''/'' then None else Some dir))"

definition next_write :: "string \<Rightarrow> nat \<Rightarrow> wfa_pc" where
  "next_write contents written = (if written < length contents then Write written else Fsync)"

fun wfa_step :: "string \<Rightarrow> string \<Rightarrow> nat \<Rightarrow> wfa_pc \<times> files \<Rightarrow> outcome \<Rightarrow> wfa_pc \<times> files" where
  "wfa_step path contents mode (Mkdir, fs) out =
     (case parent_to_create path of
        None \<Rightarrow> (UnlinkTmp, fs)
      | Some dir \<Rightarrow>
          (case out of
             Fails e \<Rightarrow> (Threw (''mkdir '' @ quoted dir @ '': '' @ e), fs)
           | _ \<Rightarrow> (UnlinkTmp, fs)))"
| "wfa_step path contents mode (UnlinkTmp, fs) out =
     (OpenTmp, case out of Fails e \<Rightarrow> fs | _ \<Rightarrow> fs(tmp_name path := None))"
| "wfa_step path contents mode (OpenTmp, fs) out =
     (case out of
        Fails e \<Rightarrow> (Threw (''create '' @ quoted (tmp_name path) @ '': '' @ e), fs)
      | _ \<Rightarrow>
        (case fs (tmp_name path) of
           Some _ \<Rightarrow> (Threw (''create '' @ quoted (tmp_name path) @ '': File exists''), fs)
         | None \<Rightarrow>
           (next_write contents 0,
            fs(tmp_name path \<mapsto> \<lparr>f_data = [], f_mode = mode, f_synced = False\<rparr>))))"
| "wfa_step path contents mode (Write written, fs) out =
     (case out of
        Interrupted \<Rightarrow> (Write written, fs)
      | Fails e \<Rightarrow> (Cleanup (''write '' @ quoted (tmp_name path) @ '': '' @ e), fs)
      | Succeeds \<Rightarrow> (Write written, fs)
      | Wrote k \<Rightarrow>
          (let n = min k (length contents - written) in
           (next_write contents (written + n),
            fs(tmp_name path :=
                 map_option (\<lambda>f. f\<lparr>f_data := f_data f @ take n (drop written contents),
                                   f_synced := False\<rparr>) (fs (tmp_name path))))))"
| "wfa_step path contents mode (Fsync, fs) out =
     (case out of
        Fails e \<Rightarrow> (Cleanup (''fsync '' @ quoted (tmp_name path) @ '': '' @ e), fs)
      | _ \<Rightarrow> (Close, fs(tmp_name path := map_option (\<lambda>f. f\<lparr>f_synced := True\<rparr>) (fs (tmp_name path)))))"
| "wfa_step path contents mode (Close, fs) out =
     (case out of
        Fails e \<Rightarrow> (Cleanup (''close '' @ quoted (tmp_name path) @ '': '' @ e), fs)
      | _ \<Rightarrow> (Rename, fs))"
| "wfa_step path contents mode (Rename, fs) out =
     (case out of
        Fails e \<Rightarrow>
          (Cleanup (''rename '' @ quoted (tmp_name path) @ '' -> '' @ quoted path @ '': '' @ e), fs)
      | _ \<Rightarrow> (OpenDir, fs(path := fs (tmp_name path), tmp_name path := None)))"
| "wfa_step path contents mode (OpenDir, fs) out =
     (case out of Fails e \<Rightarrow> (Returned True, fs) | _ \<Rightarrow> (FsyncDir, fs))"
| "wfa_step path contents mode (FsyncDir, fs) out =
     (case out of Fails e \<Rightarrow> (Returned True, fs) | _ \<Rightarrow> (Returned False, fs))"
| "wfa_step path contents mode (Cleanup what, fs) out =
     (Threw what, case out of Fails e \<Rightarrow> fs | _ \<Rightarrow> fs(tmp_name path := None))"
| "wfa_step path contents mode (Returned w, fs) out = (Returned w, fs)"
| "wfa_step path contents mode (Threw what, fs) out = (Threw what, fs)"

fun wfa_finished :: "wfa_pc \<Rightarrow> bool" where
  "wfa_finished (Returned w) = True"
| "wfa_finished (Threw what) = True"
| "wfa_finished pc = False"

text \<open>
  Runs until the function returns or throws, handing back the outcomes it did not consume.
  An unfinished result is a process killed between two system calls.
\<close>

fun wfa_run :: "string \<Rightarrow> string \<Rightarrow> nat \<Rightarrow> wfa_pc \<times> files \<Rightarrow> outcome list \<Rightarrow> (wfa_pc \<times> files) \<times> outcome list" where
  "wfa_run path contents mode st [] = (st, [])"
| "wfa_run path contents mode st (out # outs) =
     (if wfa_finished (fst st) then (st, out # outs)
      else wfa_run path contents mode (wfa_step path contents mode st out) outs)"

definition write_file_atomic ::
  "string \<Rightarrow> string \<Rightarrow> nat \<Rightarrow> files \<Rightarrow> outcome list \<Rightarrow> (wfa_pc \<times> files) \<times> outcome list" where
  "write_file_atomic path contents mode fs outs = wfa_run path contents mode (Mkdir, fs) outs"

section \<open>The invariant of the write\<close>

text \<open>
  What the file system holds at each point: before the rename \<open>path\<close> is untouched and the
  temporary file holds a prefix of the contents (all of it, synced, once fsync returned);
  after the rename \<open>path\<close> names the complete synced file. Other paths never change.
\<close>

definition complete_file :: "string \<Rightarrow> nat \<Rightarrow> inode" where
  "complete_file contents mode = \<lparr>f_data = contents, f_mode = mode, f_synced = True\<rparr>"

definition partial_file :: "string \<Rightarrow> nat \<Rightarrow> nat \<Rightarrow> inode" where
  "partial_file contents mode n = \<lparr>f_data = take n contents, f_mode = mode, f_synced = False\<rparr>"

fun wfa_target :: "string \<Rightarrow> nat \<Rightarrow> inode option \<Rightarrow> wfa_pc \<Rightarrow> inode option" where
  "wfa_target contents mode old OpenDir = Some (complete_file contents mode)"
| "wfa_target contents mode old FsyncDir = Some (complete_file contents mode)"
| "wfa_target contents mode old (Returned w) = Some (complete_file contents mode)"
| "wfa_target contents mode old _ = old"

fun wfa_tmp_ok :: "string \<Rightarrow> nat \<Rightarrow> wfa_pc \<Rightarrow> inode option \<Rightarrow> bool" where
  "wfa_tmp_ok contents mode (Write n) f \<longleftrightarrow> n < length contents \<and> f = Some (partial_file contents mode n)"
| "wfa_tmp_ok contents mode Fsync f \<longleftrightarrow> f = Some (partial_file contents mode (length contents))"
| "wfa_tmp_ok contents mode Close f \<longleftrightarrow> f = Some (complete_file contents mode)"
| "wfa_tmp_ok contents mode Rename f \<longleftrightarrow> f = Some (complete_file contents mode)"
| "wfa_tmp_ok contents mode OpenDir f \<longleftrightarrow> f = None"
| "wfa_tmp_ok contents mode FsyncDir f \<longleftrightarrow> f = None"
| "wfa_tmp_ok contents mode (Returned w) f \<longleftrightarrow> f = None"
| "wfa_tmp_ok contents mode _ f \<longleftrightarrow> True"

definition wfa_inv :: "string \<Rightarrow> string \<Rightarrow> nat \<Rightarrow> files \<Rightarrow> wfa_pc \<times> files \<Rightarrow> bool" where
  "wfa_inv path contents mode fs0 st \<longleftrightarrow>
     snd st path = wfa_target contents mode (fs0 path) (fst st) \<and>
     wfa_tmp_ok contents mode (fst st) (snd st (tmp_name path)) \<and>
     (\<forall>p. p \<noteq> path \<and> p \<noteq> tmp_name path \<longrightarrow> snd st p = fs0 p)"

lemma tmp_name_neq [simp]: "tmp_name path \<noteq> path" "path \<noteq> tmp_name path"
  by (simp_all add: tmp_name_def)

lemma partial_file_0: "partial_file contents mode 0 = \<lparr>f_data = [], f_mode = mode, f_synced = False\<rparr>"
  by (simp add: partial_file_def)

lemma wfa_inv_start: "wfa_inv path contents mode fs (Mkdir, fs)"
  by (simp add: wfa_inv_def)

lemma next_write_inv:
  assumes "n \<le> length contents" and "fs (tmp_name path) = Some (partial_file contents mode n)"
  shows "wfa_tmp_ok contents mode (next_write contents n) (fs (tmp_name path))"
    and "wfa_target contents mode old (next_write contents n) = old"
  using assms by (auto simp: next_write_def)

lemma partial_file_extend:
  "(partial_file contents mode w)\<lparr>f_data := f_data (partial_file contents mode w) @ take n (drop w contents),
      f_synced := False\<rparr> = partial_file contents mode (w + n)"
  by (simp add: partial_file_def take_add)

lemma wfa_step_inv:
  assumes "wfa_inv path contents mode fs0 (pc, fs)"
  shows "wfa_inv path contents mode fs0 (wfa_step path contents mode (pc, fs) out)"
proof (cases pc)
  case Mkdir
  then show ?thesis using assms by (auto simp: wfa_inv_def split: option.splits outcome.splits)
next
  case OpenTmp
  then show ?thesis using assms
    by (auto simp: wfa_inv_def next_write_def partial_file_0 split: option.splits outcome.splits)
next
  case (Write w)
  show ?thesis
  proof (cases out)
    case (Wrote k)
    define n where "n = min k (length contents - w)"
    have "w + n \<le> length contents" using assms Write by (auto simp: wfa_inv_def n_def)
    then show ?thesis using assms Write Wrote
      by (auto simp: wfa_inv_def Let_def n_def [symmetric] next_write_def partial_file_extend)
  qed (use assms Write in \<open>auto simp: wfa_inv_def\<close>)
next
  case Fsync
  then show ?thesis using assms
    by (auto simp: wfa_inv_def partial_file_def complete_file_def split: outcome.splits)
qed (use assms in \<open>auto simp: wfa_inv_def split: outcome.splits\<close>)

lemma wfa_run_inv:
  "wfa_inv path contents mode fs0 st \<Longrightarrow>
   wfa_inv path contents mode fs0 (fst (wfa_run path contents mode st outs))"
proof (induction outs arbitrary: st)
  case (Cons out outs)
  obtain pc fs where st: "st = (pc, fs)" by (cases st)
  then have "wfa_inv path contents mode fs0 (wfa_step path contents mode st out)"
    using Cons.prems by (simp only: wfa_step_inv)
  then show ?case using Cons.IH Cons.prems by (simp del: wfa_step.simps)
qed simp

lemma write_file_atomic_inv:
  "write_file_atomic path contents mode fs outs = ((pc, fs'), rest) \<Longrightarrow>
   wfa_inv path contents mode fs (pc, fs')"
  using wfa_run_inv [OF wfa_inv_start, of path contents mode fs outs]
  by (simp add: write_file_atomic_def)

text \<open>What a caller may conclude from how the write ended.\<close>

lemma write_returned:
  "write_file_atomic path contents mode fs outs = ((Returned w, fs'), rest) \<Longrightarrow>
   fs' path = Some (complete_file contents mode)"
  by (drule write_file_atomic_inv) (simp add: wfa_inv_def)

lemma write_threw:
  "write_file_atomic path contents mode fs outs = ((Threw what, fs'), rest) \<Longrightarrow> fs' path = fs path"
  by (drule write_file_atomic_inv) (simp add: wfa_inv_def)

lemma wfa_target_cases:
  "wfa_target contents mode old pc = old \<or> wfa_target contents mode old pc = Some (complete_file contents mode)"
  by (cases pc) simp_all

lemma write_old_or_new:
  "write_file_atomic path contents mode fs outs = ((pc, fs'), rest) \<Longrightarrow>
   fs' path = fs path \<or> fs' path = Some (complete_file contents mode)"
  using wfa_target_cases by (drule_tac write_file_atomic_inv) (simp add: wfa_inv_def)

lemma write_frame:
  "write_file_atomic path contents mode fs outs = ((pc, fs'), rest) \<Longrightarrow>
   p \<noteq> path \<Longrightarrow> p \<noteq> tmp_name path \<Longrightarrow> fs' p = fs p"
  by (drule write_file_atomic_inv) (simp add: wfa_inv_def)

section \<open>Completion\<close>

text \<open>Short writes add up: the loop ends once the kernel has accepted every byte.\<close>

lemma short_writes:
  assumes "sum_list ns = length contents - w" and "w \<le> length contents" and "\<forall>n \<in> set ns. 0 < n"
  shows "\<exists>fs'. wfa_run path contents mode (next_write contents w, fs) (map Wrote ns @ outs)
           = wfa_run path contents mode (Fsync, fs') outs"
  using assms
proof (induction ns arbitrary: w fs)
  case Nil
  then show ?case by (auto simp: next_write_def)
next
  case (Cons n ns)
  have w: "w < length contents" and n: "min n (length contents - w) = n"
    using Cons.prems by auto
  have rest: "sum_list ns = length contents - (w + n)" "w + n \<le> length contents" "\<forall>k \<in> set ns. 0 < k"
    using Cons.prems by auto
  show ?case using w Cons.IH [OF rest] by (auto simp: next_write_def [of contents w] Let_def n)
qed

lemma close_and_rename:
  "\<exists>fs'. wfa_run path contents mode (Fsync, fs) [Succeeds, Succeeds, Succeeds, Succeeds, Succeeds]
     = ((Returned False, fs'), [])"
  by simp

lemma open_fresh:
  "write_file_atomic path contents mode fs (Succeeds # Succeeds # Succeeds # outs) =
   wfa_run path contents mode
     (next_write contents 0,
      fs(tmp_name path \<mapsto> \<lparr>f_data = [], f_mode = mode, f_synced = False\<rparr>)) outs"
  by (cases "parent_to_create path") (simp_all add: write_file_atomic_def)

lemma write_completes:
  assumes "sum_list ns = length contents" and "\<forall>n \<in> set ns. 0 < n"
  shows "\<exists>fs'. write_file_atomic path contents mode fs
           (Succeeds # Succeeds # Succeeds # map Wrote ns @ [Succeeds, Succeeds, Succeeds, Succeeds, Succeeds])
         = ((Returned False, fs'), [])"
  unfolding open_fresh using short_writes [of ns contents 0] assms close_and_rename
  by (metis diff_zero le0)

end
