(* ===== verification/Libs.thy ===== *)
theory Libs
  imports FileWrite "HOL-Library.Word"
begin

text \<open>
  The libraries and system calls the program links against, as parameters.

  JSON values are the datatype \<open>json\<close> (the node kinds of nlohmann::json; its objects are
  \<open>std::map\<close>s), while its parser and printer are fields of the record \<open>libs\<close>, as are the
  functions and size constants of libsodium. What the program relies on is the predicate
  \<open>libs_ok\<close>. Calls whose answer the program cannot predict (random bytes, locking memory)
  take the number of such calls made so far, so that a run is a function of the library.
\<close>

datatype json =
    JNull
  | JBool bool
  | JNumber string       \<comment> \<open>by its text: nothing in the program reads a number\<close>
  | JString string
  | JArray "json list"
  | JObject "(string \<times> json) list"

text \<open>A value of the C++ type: its objects are maps. And one whose strings are plain ASCII.\<close>

fun wf_json :: "json \<Rightarrow> bool" where
  "wf_json (JArray js) \<longleftrightarrow> list_all wf_json js"
| "wf_json (JObject m) \<longleftrightarrow> smap_inv m \<and> list_all (\<lambda>(k, j). wf_json j) m"
| "wf_json _ \<longleftrightarrow> True"

definition ascii :: "string \<Rightarrow> bool" where
  "ascii s \<longleftrightarrow> list_all (\<lambda>c. byte c < 128) s"

fun ascii_json :: "json \<Rightarrow> bool" where
  "ascii_json (JString s) \<longleftrightarrow> ascii s"
| "ascii_json (JArray js) \<longleftrightarrow> list_all ascii_json js"
| "ascii_json (JObject m) \<longleftrightarrow> list_all (\<lambda>(k, j). ascii k \<and> ascii_json j) m"
| "ascii_json _ \<longleftrightarrow> True"

text \<open>
  \<open>json_parse\<close> gives no value when \<open>json::parse\<close> throws; \<open>json_range_error\<close> then tells an
  \<open>out_of_range\<close> (a number too large for a double) from a \<open>parse_error\<close>.
\<close>

record libs =
  saltbytes :: nat       \<comment> \<open>\<open>crypto_pwhash_SALTBYTES\<close>\<close>
  keybytes :: nat        \<comment> \<open>\<open>crypto_secretbox_KEYBYTES\<close>\<close>
  noncebytes :: nat      \<comment> \<open>\<open>crypto_secretbox_NONCEBYTES\<close>\<close>
  macbytes :: nat        \<comment> \<open>\<open>crypto_secretbox_MACBYTES\<close>\<close>
  opslimit_min :: "64 word"
  opslimit_moderate :: "64 word"
  opslimit_sensitive :: "64 word"
  memlimit_min :: "64 word"
  memlimit_moderate :: "64 word"
  memlimit_sensitive :: "64 word"
  sodium_init_ok :: bool
  mlock_error :: "nat \<Rightarrow> string option"
  randombytes :: "nat \<Rightarrow> nat \<Rightarrow> string"
  pwhash :: "string \<Rightarrow> string \<Rightarrow> 64 word \<Rightarrow> 64 word \<Rightarrow> string option"
  secretbox :: "string \<Rightarrow> string \<Rightarrow> string \<Rightarrow> string"
  secretbox_open :: "string \<Rightarrow> string \<Rightarrow> string \<Rightarrow> string option"
  sodium_memcmp :: "string \<Rightarrow> string \<Rightarrow> int"
  clock :: "nat \<Rightarrow> 64 word"         \<comment> \<open>\<open>std::time(nullptr)\<close>\<close>
  json_parse :: "string \<Rightarrow> json option"
  json_range_error :: "string \<Rightarrow> string option"
  json_dump :: "json \<Rightarrow> string + string"
  json_type_error :: "json \<Rightarrow> string"

definition libs_ok :: "libs \<Rightarrow> bool" where
  "libs_ok L \<longleftrightarrow>
     (\<forall>i n. length (randombytes L i n) = n) \<and>
     (\<forall>pass salt ops mem k. pwhash L pass salt ops mem = Some k \<longrightarrow> length k = keybytes L) \<and>
     (\<forall>m n k. length n = noncebytes L \<and> length k = keybytes L \<longrightarrow>
        secretbox_open L (secretbox L m n k) n k = Some m) \<and>
     (\<forall>m n k. length (secretbox L m n k) = length m + macbytes L) \<and>
     (\<forall>c n k m. secretbox_open L c n k = Some m \<longrightarrow> length c = length m + macbytes L) \<and>
     (\<forall>m t. smap_inv m \<and> json_dump L (JObject m) = Inr t \<longrightarrow> json_parse L t = Some (JObject m)) \<and>
     (\<forall>m t. json_parse L t = Some (JObject m) \<longrightarrow> smap_inv m) \<and>
     (\<forall>j what. json_dump L j = Inl what \<longrightarrow> has_prefix what ''[json.exception.'') \<and>
     (\<forall>j t. json_dump L j = Inr t \<longrightarrow> LF \<notin> set t) \<and>
     (\<forall>j. wf_json j \<and> ascii_json j \<longrightarrow> (\<exists>t. json_dump L j = Inr t)) \<and>
     (\<forall>a b. length a = length b \<longrightarrow> (sodium_memcmp L a b = 0 \<longleftrightarrow> a = b)) \<and>
     opslimit_min L \<le> opslimit_moderate L \<and> opslimit_moderate L \<le> opslimit_sensitive L \<and>
     memlimit_min L \<le> memlimit_moderate L \<and> memlimit_moderate L \<le> memlimit_sensitive L"

named_theorems libs \<open>the documented behaviour of the libraries\<close>

lemma libs_random [libs]: "libs_ok L \<Longrightarrow> length (randombytes L i n) = n"
  unfolding libs_ok_def by (elim conjE) (erule allE, erule allE, assumption)

lemma libs_pwhash: "libs_ok L \<Longrightarrow> pwhash L pass salt ops mem = Some k \<Longrightarrow> length k = keybytes L"
  unfolding libs_ok_def by (elim conjE) metis

lemma libs_seal_length [libs]: "libs_ok L \<Longrightarrow> length (secretbox L m nonce key) = length m + macbytes L"
  unfolding libs_ok_def by (elim conjE) metis

lemma libs_open_length:
  "libs_ok L \<Longrightarrow> secretbox_open L c nonce key = Some m \<Longrightarrow> length c = length m + macbytes L"
  unfolding libs_ok_def by (elim conjE) metis

lemma libs_open_seal [libs]:
  "libs_ok L \<Longrightarrow> length nonce = noncebytes L \<Longrightarrow> length key = keybytes L \<Longrightarrow>
   secretbox_open L (secretbox L m nonce key) nonce key = Some m"
  unfolding libs_ok_def by (elim conjE) metis

lemma libs_json_round [libs]:
  "libs_ok L \<Longrightarrow> smap_inv m \<Longrightarrow> json_dump L (JObject m) = Inr t \<Longrightarrow> json_parse L t = Some (JObject m)"
  unfolding libs_ok_def by (elim conjE) metis

lemma libs_json_sorted: "libs_ok L \<Longrightarrow> json_parse L t = Some (JObject m) \<Longrightarrow> smap_inv m"
  unfolding libs_ok_def by (elim conjE) metis

lemma libs_one_line: "libs_ok L \<Longrightarrow> json_dump L j = Inr t \<Longrightarrow> LF \<notin> set t"
  unfolding libs_ok_def by (elim conjE) metis

lemma libs_dump_error: "libs_ok L \<Longrightarrow> json_dump L j = Inl what \<Longrightarrow> has_prefix what ''[json.exception.''"
proof -
  assume "libs_ok L"
  then have "\<forall>j what. json_dump L j = Inl what \<longrightarrow> has_prefix what ''[json.exception.''"
    unfolding libs_ok_def by (elim conjE)
  then show "json_dump L j = Inl what \<Longrightarrow> has_prefix what ''[json.exception.''" by blast
qed

lemma libs_dumps: "libs_ok L \<Longrightarrow> wf_json j \<Longrightarrow> ascii_json j \<Longrightarrow> \<exists>t. json_dump L j = Inr t"
  unfolding libs_ok_def by (elim conjE) metis

lemma libs_memcmp: "libs_ok L \<Longrightarrow> length a = length b \<Longrightarrow> sodium_memcmp L a b = 0 \<longleftrightarrow> a = b"
  unfolding libs_ok_def by (elim conjE) metis

lemma libs_limits:
  "libs_ok L \<Longrightarrow> opslimit_min L \<le> opslimit_moderate L \<and> opslimit_moderate L \<le> opslimit_sensitive L \<and>
    memlimit_min L \<le> memlimit_moderate L \<and> memlimit_moderate L \<le> memlimit_sensitive L"
  unfolding libs_ok_def by (elim conjE) (intro conjI)

section \<open>Effects\<close>

text \<open>
  The state outside the process that the program reads and writes: the files, the outcomes
  the kernel will give to the system calls of coming writes, and the number of unpredictable
  library calls so far. An action either throws or returns; \<open>Killed\<close> is a process that
  ended inside a write, which no handler catches.
\<close>

record world =
  w_files :: files
  w_outs :: "outcome list"
  w_tick :: nat

datatype exn = Throw string | Killed

type_synonym 'a act = "world \<Rightarrow> (exn + 'a) \<times> world"

definition returnA :: "'a \<Rightarrow> 'a act" where
  "returnA x w = (Inr x, w)"

definition throwA :: "string \<Rightarrow> 'a act" where
  "throwA what w = (Inl (Throw what), w)"

definition bindA :: "'a act \<Rightarrow> ('a \<Rightarrow> 'b act) \<Rightarrow> 'b act" where
  "bindA m f w = (case m w of (Inl e, w') \<Rightarrow> (Inl e, w') | (Inr x, w') \<Rightarrow> f x w')"

text \<open>Lifts a result that throws a \<open>std::runtime_error\<close>.\<close>

definition liftA :: "string + 'a \<Rightarrow> 'a act" where
  "liftA r = (case r of Inl what \<Rightarrow> throwA what | Inr x \<Rightarrow> returnA x)"

lemma act_simps [simp]:
  "returnA x w = (Inr x, w)"
  "throwA what w = (Inl (Throw what), w)"
  by (simp_all add: returnA_def throwA_def)

lemma bindA_Inr:
  "bindA m f w = (Inr y, w') \<longleftrightarrow> (\<exists>x w1. m w = (Inr x, w1) \<and> f x w1 = (Inr y, w'))"
  by (auto simp: bindA_def split: prod.splits sum.splits)

lemma bindA_Inl:
  "bindA m f w = (Inl e, w') \<longleftrightarrow>
     m w = (Inl e, w') \<or> (\<exists>x w1. m w = (Inr x, w1) \<and> f x w1 = (Inl e, w'))"
  by (auto simp: bindA_def split: prod.splits sum.splits)

lemma bindA_step: "m w = (Inr x, w1) \<Longrightarrow> bindA m f w = f x w1"
  by (simp add: bindA_def)

lemma bindA_stop: "m w = (Inl e, w1) \<Longrightarrow> bindA m f w = (Inl e, w1)"
  by (simp add: bindA_def)

lemma liftA_simps [simp]: "liftA (Inl what) w = (Inl (Throw what), w)" "liftA (Inr x) w = (Inr x, w)"
  by (simp_all add: liftA_def)

text \<open>An unpredictable call: numbered, then counted.\<close>

definition ticking :: "(nat \<Rightarrow> exn + 'a) \<Rightarrow> 'a act" where
  "ticking f w = (f (w_tick w), w\<lparr>w_tick := Suc (w_tick w)\<rparr>)"

definition random_bytes :: "libs \<Rightarrow> nat \<Rightarrow> string act" where
  "random_bytes L n = ticking (\<lambda>i. Inr (randombytes L i n))"

definition read_clock :: "libs \<Rightarrow> 64 word act" where
  "read_clock L = ticking (\<lambda>i. Inr (clock L i))"

text \<open>\<open>write_file_atomic\<close> as an action on the world.\<close>

definition write_atomic :: "string \<Rightarrow> string \<Rightarrow> nat \<Rightarrow> unit act" where
  "write_atomic path contents mode w =
     (case write_file_atomic path contents mode (w_files w) (w_outs w) of
        ((pc, fs'), rest) \<Rightarrow>
          (case pc of Returned warned \<Rightarrow> Inr () | Threw what \<Rightarrow> Inl (Throw what) | _ \<Rightarrow> Inl Killed,
           w\<lparr>w_files := fs', w_outs := rest\<rparr>))"

lemma write_atomic_Inr:
  "write_atomic path contents mode w = (Inr u, w') \<Longrightarrow>
   w_files w' path = Some (complete_file contents mode)"
  by (auto simp: write_atomic_def dest: write_returned split: prod.splits wfa_pc.splits)

lemma write_atomic_Throw:
  "write_atomic path contents mode w = (Inl (Throw what), w') \<Longrightarrow> w_files w' path = w_files w path"
  by (auto simp: write_atomic_def dest: write_threw split: prod.splits wfa_pc.splits)

lemma write_atomic_any:
  "write_atomic path contents mode w = (r, w') \<Longrightarrow>
   w_files w' path = w_files w path \<or> w_files w' path = Some (complete_file contents mode)"
  by (auto simp: write_atomic_def dest: write_old_or_new split: prod.splits)

end
