(* ===== verification/Protocol.thy ===== *)
theory Protocol
  imports Libs
begin

text \<open>
  The line protocol of src/src/protocol.hpp: a request is one line holding a JSON object, a
  response another. Both directions are parameterised by the JSON library.
\<close>

definition kMaxRequestBytes :: nat where "kMaxRequestBytes = 2 ^ 20"
definition kErrNotFound :: string where "kErrNotFound = ''not found''"
definition kErrInvalidToken :: string where "kErrInvalidToken = ''invalid token''"

record request =
  r_token :: string
  r_op :: string
  r_key :: string
  r_value :: string
  r_old :: string
  r_new :: string

text \<open>\<open>get<std::string>()\<close>: throws on a value that is not a string.\<close>

definition get_string :: "libs \<Rightarrow> json \<Rightarrow> string + string" where
  "get_string L j = (case j of JString s \<Rightarrow> Inr s | _ \<Rightarrow> Inl (json_type_error L j))"

text \<open>\<open>j.value(name, std::string{})\<close>: a missing field is the default, one of another type throws.\<close>

definition value_string :: "libs \<Rightarrow> (string \<times> json) list \<Rightarrow> string \<Rightarrow> string \<Rightarrow> string + string" where
  "value_string L m name dflt =
     (case map_of m name of None \<Rightarrow> Inr dflt | Some j \<Rightarrow> get_string L j)"

definition request_fields :: "libs \<Rightarrow> (string \<times> json) list \<Rightarrow> json \<Rightarrow> json \<Rightarrow> string + request" where
  "request_fields L m token op =
     bindE (get_string L token) (\<lambda>tok.
     bindE (get_string L op) (\<lambda>opn.
     bindE (value_string L m ''key'' []) (\<lambda>key.
     bindE (value_string L m ''value'' []) (\<lambda>v.
     bindE (value_string L m ''old'' []) (\<lambda>old_pass.
     bindE (value_string L m ''new'' []) (\<lambda>new_pass.
       Inr \<lparr>r_token = tok, r_op = opn, r_key = key, r_value = v, r_old = old_pass, r_new = new_pass\<rparr>))))))"

text \<open>Only a \<open>parse_error\<close> is caught around the parser: an \<open>out_of_range\<close> leaves the function.\<close>

definition parse_request :: "libs \<Rightarrow> string \<Rightarrow> string + request option" where
  "parse_request L line =
     (case json_parse L line of
        None \<Rightarrow> (case json_range_error L line of Some what \<Rightarrow> Inl what | None \<Rightarrow> Inr None)
      | Some (JObject m) \<Rightarrow>
          (case (map_of m ''token'', map_of m ''op'') of
             (Some token, Some op) \<Rightarrow>
               (case request_fields L m token op of Inl what \<Rightarrow> Inr None | Inr req \<Rightarrow> Inr (Some req))
           | _ \<Rightarrow> Inr None)
      | Some _ \<Rightarrow> Inr None)"

text \<open>An object built from an initializer list.\<close>

definition json_object :: "(string \<times> json) list \<Rightarrow> json" where
  "json_object members = JObject (fold (\<lambda>(k, v). smap_put k v) members [])"

definition ok_response :: "libs \<Rightarrow> string + string" where
  "ok_response L = json_dump L (json_object [(''ok'', JBool True)])"

definition ok_value :: "libs \<Rightarrow> string \<Rightarrow> string + string" where
  "ok_value L v = json_dump L (json_object [(''ok'', JBool True), (''value'', JString v)])"

definition ok_keys :: "libs \<Rightarrow> string list \<Rightarrow> string + string" where
  "ok_keys L keys = json_dump L (json_object [(''ok'', JBool True), (''keys'', JArray (map JString keys))])"

definition ok_values :: "libs \<Rightarrow> (string \<times> string) list \<Rightarrow> string + string" where
  "ok_values L values =
     json_dump L (json_object [(''ok'', JBool True), (''values'', JObject (map (\<lambda>(k, v). (k, JString v)) values))])"

definition error_response :: "libs \<Rightarrow> string \<Rightarrow> string + string" where
  "error_response L msg = json_dump L (json_object [(''ok'', JBool False), (''error'', JString msg)])"

section \<open>Properties of the codec\<close>

lemma get_string_Inr [simp]: "get_string L j = Inr s \<longleftrightarrow> j = JString s"
  by (cases j) (auto simp: get_string_def)

lemma value_string_Inr:
  "value_string L m name d = Inr s \<longleftrightarrow>
     map_of m name = Some (JString s) \<or> map_of m name = None \<and> s = d"
  by (auto simp: value_string_def split: option.splits)

lemma json_object_inv:
  "json_object members = JObject m \<Longrightarrow> smap_inv m"
proof -
  have "smap_inv (fold (\<lambda>(k, v). smap_put k v) kvs m0)" if "smap_inv m0" for kvs m0 :: "(string \<times> json) list"
    using that by (induction kvs arbitrary: m0) (auto simp: smap.inv_put)
  then show "json_object members = JObject m \<Longrightarrow> smap_inv m"
    by (auto simp: json_object_def)
qed

lemma find_object:
  "map_of (fold (\<lambda>(k, v). smap_put k v) members m0) k =
     (case map_of (rev members) k of Some v \<Rightarrow> Some v | None \<Rightarrow> map_of m0 k)"
  by (induction members arbitrary: m0) (auto simp: smap_find_put map_add_def split: option.splits)

text \<open>A dumped object reads back as an object with the same members.\<close>

lemma object_round:
  assumes "libs_ok L" and "json_dump L (json_object members) = Inr t"
  shows "\<exists>m. json_parse L t = Some (JObject m) \<and> smap_inv m \<and> map_of m = map_of (rev members)"
proof -
  define m where "m = fold (\<lambda>(k, v). smap_put k v) members []"
  have m: "json_object members = JObject m" by (simp add: json_object_def m_def)
  have "json_parse L t = Some (JObject m)"
    using libs_json_round [OF assms(1) json_object_inv [OF m]] assms(2) m by simp
  moreover have "map_of m = map_of (rev members)"
    by (rule ext) (simp add: m_def find_object split: option.splits)
  ultimately show ?thesis using json_object_inv [OF m] by blast
qed

text \<open>Absent fields are empty.\<close>

lemma parse_request_object:
  assumes "libs_ok L" and "json_dump L (json_object members) = Inr t"
    and "map_of (rev members) ''token'' = Some (JString tok)" and "map_of (rev members) ''op'' = Some (JString opn)"
    and "\<And>name. name \<in> {''key'', ''value'', ''old'', ''new''} \<Longrightarrow>
      map_of (rev members) name = Some (JString (field name)) \<or> map_of (rev members) name = None \<and> field name = []"
  shows "parse_request L t = Inr (Some \<lparr>r_token = tok, r_op = opn, r_key = field ''key'',
    r_value = field ''value'', r_old = field ''old'', r_new = field ''new''\<rparr>)"
proof -
  obtain m where m: "json_parse L t = Some (JObject m)" "map_of m = map_of (rev members)"
    using object_round [OF assms(1,2)] by blast
  have "value_string L m name [] = Inr (field name)" if "name \<in> {''key'', ''value'', ''old'', ''new''}" for name
    using assms(5) [OF that] m by (auto simp: value_string_def get_string_def)
  then have "request_fields L m (JString tok) (JString opn) = Inr \<lparr>r_token = tok, r_op = opn, r_key = field ''key'',
    r_value = field ''value'', r_old = field ''old'', r_new = field ''new''\<rparr>"
    by (simp add: request_fields_def get_string_def)
  then show ?thesis
    using m assms(3,4) by (simp add: parse_request_def)
qed

lemma wf_json_object: "list_all (\<lambda>(k, j). wf_json j) members \<Longrightarrow> wf_json (json_object members)"
proof -
  have keep: "list_all (\<lambda>(k, j). wf_json j) (smap_put k v m)" if "list_all (\<lambda>(k, j). wf_json j) m" "wf_json v" for k v m
    using that by (auto simp: smap_put_def list_all_iff)
  have "list_all (\<lambda>(k, j). wf_json j) (fold (\<lambda>(k, v). smap_put k v) kvs m0)"
    if "list_all (\<lambda>(k, j). wf_json j) m0" "list_all (\<lambda>(k, j). wf_json j) kvs" for kvs m0 :: "(string \<times> json) list"
    using that by (induction kvs arbitrary: m0) (auto simp: keep)
  then show "list_all (\<lambda>(k, j). wf_json j) members \<Longrightarrow> wf_json (json_object members)"
    using json_object_inv [of members] by (simp add: json_object_def)
qed

lemma ascii_json_object:
  "list_all (\<lambda>(k, j). ascii k \<and> ascii_json j) members \<Longrightarrow> ascii_json (json_object members)"
proof -
  have keep: "list_all (\<lambda>(k, j). ascii k \<and> ascii_json j) (smap_put k v m)"
    if "list_all (\<lambda>(k, j). ascii k \<and> ascii_json j) m" "ascii k" "ascii_json v" for k v m
    using that by (auto simp: smap_put_def list_all_iff)
  have "list_all (\<lambda>(k, j). ascii k \<and> ascii_json j) (fold (\<lambda>(k, v). smap_put k v) kvs m0)"
    if "list_all (\<lambda>(k, j). ascii k \<and> ascii_json j) m0" "list_all (\<lambda>(k, j). ascii k \<and> ascii_json j) kvs" for kvs m0 :: "(string \<times> json) list"
    using that by (induction kvs arbitrary: m0) (auto simp: keep)
  then show "list_all (\<lambda>(k, j). ascii k \<and> ascii_json j) members \<Longrightarrow> ascii_json (json_object members)"
    by (simp add: json_object_def)
qed

lemma error_response_ascii: "libs_ok L \<Longrightarrow> ascii msg \<Longrightarrow> \<exists>t. error_response L msg = Inr t"
  unfolding error_response_def
  by (rule libs_dumps) (auto intro!: wf_json_object ascii_json_object simp: ascii_def byte_def)

lemma ok_response_returns: "libs_ok L \<Longrightarrow> \<exists>t. ok_response L = Inr t"
  unfolding ok_response_def
  by (rule libs_dumps) (auto intro!: wf_json_object ascii_json_object simp: ascii_def byte_def)

end
