(* ===== verification/Store.thy ===== *)
theory Store
  imports Protocol
begin

unbundle bit_operations_syntax

text \<open>
  The encrypted store of src/src/store.hpp and src/src/store.cpp: the file format, the
  envelope (a data key wrapped under a passphrase-derived key), and the operations of the
  class. A member function takes the object and the world and returns both, also when it
  throws, so that what memory and disk hold after a failure is part of the model.
\<close>

section \<open>The file format\<close>

definition kMagic :: string where "kMagic = ''SCTV''"
definition kVersion1 :: char where "kVersion1 = CHR 0x01"
definition kVersion2 :: char where "kVersion2 = CHR 0x02"

definition kCommonHeaderSize :: "libs \<Rightarrow> nat" where
  "kCommonHeaderSize L = length kMagic + 1 + saltbytes L + 8 + 8 + 8"

definition kHeaderSizeV1 :: "libs \<Rightarrow> nat" where
  "kHeaderSizeV1 L = kCommonHeaderSize L + noncebytes L"

definition kHeaderSizeV2 :: "libs \<Rightarrow> nat" where
  "kHeaderSizeV2 L = kCommonHeaderSize L + noncebytes L + (keybytes L + macbytes L) + noncebytes L"

definition put_u64_le :: "64 word \<Rightarrow> string" where
  "put_u64_le v = map (\<lambda>i. char_of (unat (drop_bit (8 * i) v))) [0..<8]"

definition get_u64_le :: "string \<Rightarrow> 64 word" where
  "get_u64_le p = foldl (\<lambda>v i. v OR push_bit (8 * i) (word_of_nat (byte (p ! i)))) 0 [0..<8]"

definition check_kdf_params :: "libs \<Rightarrow> 64 word \<Rightarrow> 64 word \<Rightarrow> string + unit" where
  "check_kdf_params L opslimit memlimit =
     refuse_if (opslimit > opslimit_sensitive L \<or> memlimit > memlimit_sensitive L \<or>
                opslimit < opslimit_min L \<or> memlimit < memlimit_min L)
       ''corrupted store: implausible KDF parameters''"

record envelope =
  salt :: string
  opslimit :: "64 word"
  memlimit :: "64 word"
  key_created_at :: "64 word"
  wrap_nonce :: string
  wrapped_key :: string

text \<open>A value-initialised \<open>Envelope\<close>.\<close>

definition zero_envelope :: "libs \<Rightarrow> envelope" where
  "zero_envelope L =
     \<lparr>salt = replicate (saltbytes L) (CHR 0x00), opslimit = 0, memlimit = 0, key_created_at = 0,
      wrap_nonce = replicate (noncebytes L) (CHR 0x00),
      wrapped_key = replicate (keybytes L + macbytes L) (CHR 0x00)\<rparr>"

text \<open>The header fields both versions share, and the offset just past them.\<close>

definition read_common_header :: "libs \<Rightarrow> string \<Rightarrow> envelope \<Rightarrow> string + nat \<times> envelope" where
  "read_common_header L buf env =
     (let offset = length kMagic + 1;
          s = take (saltbytes L) (drop offset buf);
          offset = offset + saltbytes L;
          ops = get_u64_le (drop offset buf);
          offset = offset + 8;
          mem = get_u64_le (drop offset buf);
          offset = offset + 8;
          created = get_u64_le (drop offset buf);
          offset = offset + 8;
          env = env\<lparr>salt := s, opslimit := ops, memlimit := mem, key_created_at := created\<rparr>
      in bindE (check_kdf_params L ops mem) (\<lambda>_. Inr (offset, env)))"

text \<open>The bytes \<open>Store::persist\<close> writes ahead of the ciphertext.\<close>

definition common_header :: "char \<Rightarrow> envelope \<Rightarrow> string" where
  "common_header version env =
     kMagic @ [version] @ salt env @ put_u64_le (opslimit env) @ put_u64_le (memlimit env) @
     put_u64_le (key_created_at env)"

definition store_bytes :: "envelope \<Rightarrow> string \<Rightarrow> string \<Rightarrow> string" where
  "store_bytes env payload_nonce ciphertext =
     common_header kVersion2 env @ wrap_nonce env @ wrapped_key env @ payload_nonce @ ciphertext"

section \<open>Keys\<close>

text \<open>\<open>malloc\<close> and \<open>sodium_mlock\<close> of a key buffer; either may fail.\<close>

definition alloc_guarded :: "libs \<Rightarrow> unit act" where
  "alloc_guarded L =
     ticking (\<lambda>i. case mlock_error L i of None \<Rightarrow> Inr () | Some e \<Rightarrow> Inl (Throw (''sodium_mlock failed: '' @ e)))"

definition ensure_sodium :: "libs \<Rightarrow> unit act" where
  "ensure_sodium L = liftA (refuse_if (\<not> sodium_init_ok L) ''libsodium initialization failed'')"

definition derive_kdf_key :: "libs \<Rightarrow> string \<Rightarrow> string \<Rightarrow> 64 word \<Rightarrow> 64 word \<Rightarrow> string act" where
  "derive_kdf_key L passphrase s ops mem =
     bindA (alloc_guarded L) (\<lambda>_.
       case pwhash L passphrase s ops mem of
         None \<Rightarrow> throwA ''Argon2id key derivation failed (out of memory?)''
       | Some key \<Rightarrow> returnA key)"

definition decrypt_payload ::
  "libs \<Rightarrow> string \<Rightarrow> string \<Rightarrow> string \<Rightarrow> string + (string \<times> json) list" where
  "decrypt_payload L ciphertext nonce key =
     (case secretbox_open L ciphertext nonce key of
        None \<Rightarrow> Inl ''wrong passphrase or corrupted store''
      | Some plaintext \<Rightarrow>
          (case json_parse L plaintext of
             None \<Rightarrow> Inl ''corrupted store: decrypted payload is not valid JSON''
           | Some (JObject data) \<Rightarrow> Inr data
           | Some _ \<Rightarrow> Inl ''corrupted store: decrypted payload is not a JSON object''))"

text \<open>A fresh data key, wrapped into the envelope under a fresh wrap nonce.\<close>

definition mint_data_key :: "libs \<Rightarrow> string \<Rightarrow> envelope \<Rightarrow> (string \<times> envelope) act" where
  "mint_data_key L wrap_key env =
     bindA (random_bytes L (keybytes L)) (\<lambda>data_key.
     bindA (random_bytes L (noncebytes L)) (\<lambda>nonce.
       returnA (data_key, env\<lparr>wrap_nonce := nonce, wrapped_key := secretbox L data_key nonce wrap_key\<rparr>)))"

definition mint_fresh_envelope ::
  "libs \<Rightarrow> string \<Rightarrow> 64 word \<Rightarrow> 64 word \<Rightarrow> 64 word \<Rightarrow> envelope \<Rightarrow> (string \<times> envelope) act" where
  "mint_fresh_envelope L passphrase ops mem now env =
     bindA (random_bytes L (saltbytes L)) (\<lambda>s.
       let env = env\<lparr>salt := s, opslimit := ops, memlimit := mem, key_created_at := now\<rparr> in
       bindA (derive_kdf_key L passphrase s ops mem) (\<lambda>wrap_key.
       bindA (alloc_guarded L) (\<lambda>_.
         mint_data_key L wrap_key env)))"

section \<open>The class\<close>

record store =
  st_path :: string
  st_data :: "(string \<times> json) list"
  st_key :: string
  st_env :: envelope

type_synonym 'a store_act = "store \<Rightarrow> world \<Rightarrow> (exn + 'a) \<times> store \<times> world"

definition unwrap :: "libs \<Rightarrow> store \<Rightarrow> string \<Rightarrow> string \<Rightarrow> (string \<times> string) act" where
  "unwrap L st passphrase fail_msg =
     bindA (alloc_guarded L) (\<lambda>_.
     bindA (derive_kdf_key L passphrase (salt (st_env st)) (opslimit (st_env st)) (memlimit (st_env st))) (\<lambda>wrap_key.
       case secretbox_open L (wrapped_key (st_env st)) (wrap_nonce (st_env st)) wrap_key of
         None \<Rightarrow> throwA fail_msg
       | Some data_key \<Rightarrow> returnA (wrap_key, data_key)))"

text \<open>File mode 0600.\<close>

definition mode_0600 :: nat where "mode_0600 = 384"

definition persist :: "libs \<Rightarrow> string \<Rightarrow> (string \<times> json) list \<Rightarrow> string \<Rightarrow> envelope \<Rightarrow> unit act" where
  "persist L path data data_key env =
     bindA (liftA (json_dump L (JObject data))) (\<lambda>plaintext.
     bindA (random_bytes L (noncebytes L)) (\<lambda>payload_nonce.
       write_atomic path
         (store_bytes env payload_nonce (secretbox L plaintext payload_nonce data_key)) mode_0600))"

definition store_create :: "libs \<Rightarrow> string \<Rightarrow> string \<Rightarrow> 64 word \<Rightarrow> store act" where
  "store_create L path passphrase now =
     bindA (ensure_sodium L) (\<lambda>_.
     bindA (\<lambda>w. (if w_files w path \<noteq> None then Inl (Throw (''store already exists: '' @ quoted path))
                 else Inr (), w)) (\<lambda>_.
     bindA (mint_fresh_envelope L passphrase (opslimit_moderate L) (memlimit_moderate L) now (zero_envelope L))
       (\<lambda>(key, env).
     bindA (persist L path [] key env) (\<lambda>_.
       returnA \<lparr>st_path = path, st_data = [], st_key = key, st_env = env\<rparr>))))"

definition read_file_string :: "string \<Rightarrow> string act" where
  "read_file_string path w =
     (case w_files w path of
        None \<Rightarrow> Inl (Throw (''open '' @ quoted path @ '': No such file or directory''))
      | Some f \<Rightarrow> Inr (f_data f), w)"

definition open_v1 :: "libs \<Rightarrow> string \<Rightarrow> string \<Rightarrow> string \<Rightarrow> store act" where
  "open_v1 L path passphrase buf =
     (if length buf < kHeaderSizeV1 L + macbytes L
      then throwA ''corrupted store: truncated header or ciphertext'' else
      bindA (liftA (read_common_header L buf (zero_envelope L))) (\<lambda>(offset, env).
      let payload_nonce = take (noncebytes L) (drop offset buf);
          offset = offset + noncebytes L in
      bindA (derive_kdf_key L passphrase (salt env) (opslimit env) (memlimit env)) (\<lambda>wrap_key.
      bindA (liftA (decrypt_payload L (drop offset buf) payload_nonce wrap_key)) (\<lambda>data.
      bindA (alloc_guarded L) (\<lambda>_.
      bindA (mint_data_key L wrap_key env) (\<lambda>(data_key, env).
      bindA (persist L path data data_key env) (\<lambda>_.
        returnA \<lparr>st_path = path, st_data = data, st_key = data_key, st_env = env\<rparr>)))))))"

definition open_v2 :: "libs \<Rightarrow> string \<Rightarrow> string \<Rightarrow> string \<Rightarrow> store act" where
  "open_v2 L path passphrase buf =
     (if length buf < kHeaderSizeV2 L + macbytes L
      then throwA (''corrupted store: truncated header or ciphertext: '' @ quoted path) else
      bindA (liftA (read_common_header L buf (zero_envelope L))) (\<lambda>(offset, env).
      let env = env\<lparr>wrap_nonce := take (noncebytes L) (drop offset buf)\<rparr>;
          offset = offset + noncebytes L;
          env = env\<lparr>wrapped_key := take (keybytes L + macbytes L) (drop offset buf)\<rparr>;
          offset = offset + (keybytes L + macbytes L);
          payload_nonce = take (noncebytes L) (drop offset buf);
          offset = offset + noncebytes L;
          s = \<lparr>st_path = path, st_data = [], st_key = [], st_env = env\<rparr> in
      bindA (unwrap L s passphrase ''wrong passphrase or corrupted store'') (\<lambda>(wrap_key, data_key).
      bindA (liftA (decrypt_payload L (drop offset buf) payload_nonce data_key)) (\<lambda>data.
        returnA (s\<lparr>st_data := data, st_key := data_key\<rparr>)))))"

definition store_open :: "libs \<Rightarrow> string \<Rightarrow> string \<Rightarrow> store act" where
  "store_open L path passphrase =
     bindA (ensure_sodium L) (\<lambda>_.
     bindA (read_file_string path) (\<lambda>buf.
       if length buf < length kMagic + 1 \<or> take (length kMagic) buf \<noteq> kMagic
       then throwA (''not a secretov store: '' @ quoted path) else
       let version = buf ! length kMagic in
       if version = kVersion1 then open_v1 L path passphrase buf
       else if version \<noteq> kVersion2 then throwA (''unsupported version: '' @ decimal (byte version))
       else open_v2 L path passphrase buf))"

definition store_get :: "libs \<Rightarrow> string \<Rightarrow> store \<Rightarrow> string + string option" where
  "store_get L key st =
     (case map_of (st_data st) key of
        None \<Rightarrow> Inr None
      | Some j \<Rightarrow> bindE (get_string L j) (\<lambda>s. Inr (Some s)))"

definition store_set :: "libs \<Rightarrow> string \<Rightarrow> string \<Rightarrow> unit store_act" where
  "store_set L key v st w =
     (let next = smap_put key (JString v) (st_data st) in
      case persist L (st_path st) next (st_key st) (st_env st) w of
        (Inl e, w') \<Rightarrow> (Inl e, st, w')
      | (Inr _, w') \<Rightarrow> (Inr (), st\<lparr>st_data := next\<rparr>, w'))"

definition store_remove :: "libs \<Rightarrow> string \<Rightarrow> bool store_act" where
  "store_remove L key st w =
     (if map_of (st_data st) key = None then (Inr False, st, w) else
      let next = smap_erase key (st_data st) in
      case persist L (st_path st) next (st_key st) (st_env st) w of
        (Inl e, w') \<Rightarrow> (Inl e, st, w')
      | (Inr _, w') \<Rightarrow> (Inr True, st\<lparr>st_data := next\<rparr>, w'))"

definition store_list :: "store \<Rightarrow> string list" where
  "store_list st = sort (map fst (st_data st))"

text \<open>\<open>out[key] = value\<close> over the entries whose key starts with the prefix.\<close>

definition get_prefix :: "libs \<Rightarrow> string \<Rightarrow> store \<Rightarrow> string + (string \<times> string) list" where
  "get_prefix L pre st =
     bindE (collectE (\<lambda>(k, j). bindE (get_string L j) (\<lambda>s. Inr (k, s)))
              (filter (\<lambda>(k, j). has_prefix k pre) (st_data st)))
       (\<lambda>found. Inr (fold (\<lambda>(k, s) out. smap_put k s out) found []))"

definition commit_new_key :: "libs \<Rightarrow> string \<Rightarrow> envelope \<Rightarrow> unit store_act" where
  "commit_new_key L new_data_key next st w =
     (case persist L (st_path st) (st_data st) new_data_key next w of
        (Inl e, w') \<Rightarrow> (Inl e, st, w')
      | (Inr _, w') \<Rightarrow> (Inr (), st\<lparr>st_key := new_data_key, st_env := next\<rparr>, w'))"

definition store_rotate :: "libs \<Rightarrow> string \<Rightarrow> 64 word \<Rightarrow> unit store_act" where
  "store_rotate L passphrase now st w =
     (case bindA (unwrap L st passphrase ''wrong passphrase'') (\<lambda>(wrap_key, data_key).
           let next = (st_env st)\<lparr>key_created_at := now\<rparr> in
           bindA (alloc_guarded L) (\<lambda>_. mint_data_key L wrap_key next)) w of
        (Inl e, w') \<Rightarrow> (Inl e, st, w')
      | (Inr (new_data_key, next), w') \<Rightarrow> commit_new_key L new_data_key next st w')"

definition change_passphrase :: "libs \<Rightarrow> string \<Rightarrow> string \<Rightarrow> 64 word \<Rightarrow> unit store_act" where
  "change_passphrase L old_pass new_pass now st w =
     (if new_pass = [] then (Inl (Throw ''empty passphrase''), st, w) else
      case bindA (unwrap L st old_pass ''wrong passphrase'') (\<lambda>_.
           mint_fresh_envelope L new_pass (max (opslimit (st_env st)) (opslimit_moderate L))
             (max (memlimit (st_env st)) (memlimit_moderate L)) now (zero_envelope L)) w of
        (Inl e, w') \<Rightarrow> (Inl e, st, w')
      | (Inr (new_data_key, next), w') \<Rightarrow> commit_new_key L new_data_key next st w')"

end
