(* ===== verification/StoreFacts.thy ===== *)
theory StoreFacts
  imports Store
begin

text \<open>
  What the store promises: the header round trip, the agreement of memory and disk after
  every operation (failed writes and crashes included), and reopening with a passphrase.
\<close>

section \<open>Little-endian 64-bit fields\<close>

lemma length_put_u64_le [simp]: "length (put_u64_le v) = 8"
  by (simp add: put_u64_le_def)

lemma byte_char_of: "word_of_nat (byte (char_of (unat x))) = take_bit 8 (x :: 64 word)"
proof -
  have "byte (char_of (unat x)) = take_bit 8 (unat x)"
    by (simp add: byte_def of_char_of take_bit_eq_mod)
  then show ?thesis by (simp add: unsigned_take_bit_eq [symmetric])
qed

lemma u64_bytes:
  "get_u64_le (put_u64_le v) =
     foldl (\<lambda>a i. a OR push_bit (8 * i) (take_bit 8 (drop_bit (8 * i) v))) 0 [0..<8]"
  unfolding get_u64_le_def put_u64_le_def
  by (rule foldl_cong) (simp_all add: byte_char_of)

lemma bit_or_fold:
  "bit (foldl (\<lambda>a i. a OR f i) (a0 :: 64 word) is) n \<longleftrightarrow> bit a0 n \<or> (\<exists>i \<in> set is. bit (f i) n)"
  by (induction "is" arbitrary: a0) (auto simp: bit_or_iff)

lemma get_put_u64_le [simp]: "get_u64_le (put_u64_le v) = v"
proof (rule bit_word_eqI)
  fix n
  assume "n < LENGTH(64)"
  then have n: "n < 64" by simp
  have "bit (get_u64_le (put_u64_le v)) n \<longleftrightarrow>
      (\<exists>i \<in> {0..<8}. 8 * i \<le> n \<and> n - 8 * i < 8 \<and> bit v n)"
    using n by (simp add: u64_bytes bit_or_fold bit_push_bit_iff bit_take_bit_iff bit_drop_bit_eq
        cong: conj_cong)
  also have "\<dots> \<longleftrightarrow> bit v n"
  proof -
    have "n div 8 \<in> {0..<8}" "8 * (n div 8) \<le> n" "n - 8 * (n div 8) < 8"
      using n by (simp_all add: minus_mult_div_eq_mod)
    then show ?thesis by blast
  qed
  finally show "bit (get_u64_le (put_u64_le v)) n = bit v n" .
qed

lemma get_u64_le_append: "length p = 8 \<Longrightarrow> get_u64_le (p @ q) = get_u64_le p"
  unfolding get_u64_le_def by (rule foldl_cong) (simp_all add: nth_append)

text \<open>The other direction: eight bytes read as a number and written back.\<close>

lemma bit_byte:
  "bit (word_of_nat (byte c) :: 64 word) m \<longleftrightarrow> m < 8 \<and> bit (byte c) m"
proof -
  have "\<not> bit (byte c) m" if "8 \<le> m"
  proof -
    have "(256 :: nat) \<le> 2 ^ m"
      using power_increasing [OF that, of "2 :: nat"] by simp
    then have "byte c div 2 ^ m = 0"
      using byte_bound [of c] by (intro div_less) linarith
    then show ?thesis by (simp add: bit_iff_odd)
  qed
  then show ?thesis
    by (cases "m < 8") (auto simp: bit_of_nat_iff)
qed

lemma get_u64_le_byte:
  assumes "length p = 8" and "i < 8"
  shows "take_bit 8 (drop_bit (8 * i) (get_u64_le p)) = word_of_nat (byte (p ! i))"
proof (rule bit_word_eqI)
  fix n
  assume "n < LENGTH(64)"
  have "bit (take_bit 8 (drop_bit (8 * i) (get_u64_le p))) n \<longleftrightarrow> n < 8 \<and> (\<exists>j \<in> {0..<8}.
      8 * j \<le> 8 * i + n \<and> 8 * i + n < 64 \<and> 8 * i + n - 8 * j < 8 \<and> bit (byte (p ! j)) (8 * i + n - 8 * j))"
    unfolding get_u64_le_def
    by (simp add: bit_take_bit_iff bit_drop_bit_eq bit_or_fold bit_push_bit_iff bit_byte)
  also have "\<dots> \<longleftrightarrow> n < 8 \<and> bit (byte (p ! i)) n"
  proof (intro iffI conjI; (elim conjE bexE)?)
    fix j
    assume "n < 8" "8 * j \<le> 8 * i + n" "8 * i + n - 8 * j < 8" and b: "bit (byte (p ! j)) (8 * i + n - 8 * j)"
    then have "j = i" by linarith
    then show "bit (byte (p ! i)) n" using b by simp
  next
    assume "n < 8" and b: "bit (byte (p ! i)) n"
    then show "\<exists>j\<in>{0..<8}. 8 * j \<le> 8 * i + n \<and> 8 * i + n < 64 \<and> 8 * i + n - 8 * j < 8 \<and>
        bit (byte (p ! j)) (8 * i + n - 8 * j)"
      using assms(2) by (intro bexI [of _ i] conjI) simp_all
  qed
  also have "\<dots> \<longleftrightarrow> bit (word_of_nat (byte (p ! i)) :: 64 word) n"
    by (simp add: bit_byte)
  finally show "bit (take_bit 8 (drop_bit (8 * i) (get_u64_le p))) n
      = bit (word_of_nat (byte (p ! i)) :: 64 word) n" .
qed

lemma put_get_u64_le:
  assumes "length p = 8"
  shows "put_u64_le (get_u64_le p) = p"
proof (rule nth_equalityI)
  show "length (put_u64_le (get_u64_le p)) = length p"
    using assms by simp
  fix i
  assume "i < length (put_u64_le (get_u64_le p))"
  then have i: "i < 8" by simp
  let ?x = "drop_bit (8 * i) (get_u64_le p)"
  have "char_of (unat ?x) = (char_of (unat (take_bit 8 ?x)) :: char)"
    by (simp add: char_of_take_bit_eq unsigned_take_bit_eq)
  also have "\<dots> = char_of (byte (p ! i))"
  proof -
    have "byte (p ! i) < 2 ^ LENGTH(64)" using byte_bound [of "p ! i"] by simp
    then show ?thesis by (simp add: get_u64_le_byte [OF assms i] unsigned_of_nat take_bit_nat_eq_self)
  qed
  also have "\<dots> = p ! i" by (simp add: byte_def)
  finally show "put_u64_le (get_u64_le p) ! i = p ! i"
    using i by (simp add: put_u64_le_def)
qed

lemma drop_past: "length p = n \<Longrightarrow> drop n (p @ q) = q"
  by simp

lemma take_past: "length p = n \<Longrightarrow> take n (p @ q) = p"
  by simp

section \<open>The header round trip\<close>

definition wf_envelope :: "libs \<Rightarrow> envelope \<Rightarrow> bool" where
  "wf_envelope L env \<longleftrightarrow>
     length (salt env) = saltbytes L \<and> length (wrap_nonce env) = noncebytes L \<and>
     length (wrapped_key env) = keybytes L + macbytes L \<and>
     check_kdf_params L (opslimit env) (memlimit env) = Inr ()"

lemma length_kMagic [simp]: "length kMagic = 4"
  by (simp add: kMagic_def)

lemma length_common_header:
  "length (salt env) = saltbytes L \<Longrightarrow> length (common_header version env) = kCommonHeaderSize L"
  by (simp add: common_header_def kCommonHeaderSize_def)

lemma read_common_header_bytes:
  assumes "length (salt env) = saltbytes L"
    and "check_kdf_params L (opslimit env) (memlimit env) = Inr ()"
  shows "read_common_header L (common_header version env @ rest) env0 =
    Inr (kCommonHeaderSize L,
      env0\<lparr>salt := salt env, opslimit := opslimit env, memlimit := memlimit env,
           key_created_at := key_created_at env\<rparr>)"
proof -
  let ?created = "put_u64_le (key_created_at env) @ rest"
  let ?mem = "put_u64_le (memlimit env) @ ?created"
  let ?ops = "put_u64_le (opslimit env) @ ?mem"
  let ?buf = "common_header version env @ rest"
  have "?buf = (kMagic @ [version]) @ salt env @ ?ops"
    and "?buf = (kMagic @ [version] @ salt env) @ ?ops"
    and "?buf = (kMagic @ [version] @ salt env @ put_u64_le (opslimit env)) @ ?mem"
    and "?buf = (kMagic @ [version] @ salt env @ put_u64_le (opslimit env) @ put_u64_le (memlimit env)) @ ?created"
    by (simp_all add: common_header_def)
  note splits = this
  have "drop (4 + 1) ?buf = salt env @ ?ops"
    unfolding splits(1) by (rule drop_past) simp
  moreover have "drop (4 + 1 + saltbytes L) ?buf = ?ops"
    unfolding splits(2) by (rule drop_past) (simp add: assms)
  moreover have "drop (4 + 1 + saltbytes L + 8) ?buf = ?mem"
    unfolding splits(3) by (rule drop_past) (simp add: assms)
  moreover have "drop (4 + 1 + saltbytes L + 8 + 8) ?buf = ?created"
    unfolding splits(4) by (rule drop_past) (simp add: assms)
  ultimately show ?thesis
    using assms unfolding read_common_header_def Let_def length_kMagic
    by (simp only: take_past get_u64_le_append get_put_u64_le length_put_u64_le bindE_Inr)
      (simp add: kCommonHeaderSize_def)
qed

text \<open>Every field the header parser returns has its full length.\<close>

lemma read_common_header_wf:
  assumes "read_common_header L buf env0 = Inr (offset, env)" and "kCommonHeaderSize L \<le> length buf"
  shows "offset = kCommonHeaderSize L \<and> length (salt env) = saltbytes L \<and>
    check_kdf_params L (opslimit env) (memlimit env) = Inr () \<and>
    wrap_nonce env = wrap_nonce env0 \<and> wrapped_key env = wrapped_key env0"
  using assms by (auto simp: read_common_header_def Let_def kCommonHeaderSize_def)

text \<open>The parser loses nothing: the header it returns is written back as the bytes it read.\<close>

lemma split_at: "n \<le> length buf \<Longrightarrow> buf = take n buf @ drop n buf"
  by simp

lemma read_common_header_rebuild:
  assumes "read_common_header L buf env0 = Inr (offset, env)" and "kCommonHeaderSize L \<le> length buf"
    and "take (length kMagic) buf = kMagic" and "buf ! length kMagic = version"
  shows "take (kCommonHeaderSize L) buf = common_header version env"
proof -
  define n where "n = 5 + saltbytes L"
  have size: "n + 24 \<le> length buf" "kCommonHeaderSize L = n + 24"
    using assms(2) by (simp_all add: n_def kCommonHeaderSize_def)
  have magic: "take 5 buf = kMagic @ [version]"
    using assms(3,4) size take_Suc_conv_app_nth [of 4 buf] by (simp add: n_def)
  have fields: "salt env = take (saltbytes L) (drop 5 buf)"
    "opslimit env = get_u64_le (take 8 (drop n buf))"
    "memlimit env = get_u64_le (take 8 (drop (n + 8) buf))"
    "key_created_at env = get_u64_le (take 8 (drop (n + 16) buf))"
    using assms(1) size get_u64_le_append [of "take 8 (drop n buf)" "drop 8 (drop n buf)"]
      get_u64_le_append [of "take 8 (drop (n + 8) buf)" "drop 8 (drop (n + 8) buf)"]
      get_u64_le_append [of "take 8 (drop (n + 16) buf)" "drop 8 (drop (n + 16) buf)"]
    by (auto simp: read_common_header_def Let_def n_def add.commute add.left_commute
        append_take_drop_id simp del: drop_drop)
  have "take (n + 24) buf = take 5 buf @ take (saltbytes L) (drop 5 buf) @ take 8 (drop n buf) @
      take 8 (drop (n + 8) buf) @ take 8 (drop (n + 16) buf)"
    by (simp add: n_def take_add [symmetric] flip: append_assoc)
  then show ?thesis
    using size by (simp add: common_header_def fields magic put_get_u64_le)
qed

section \<open>What a file says\<close>

text \<open>
  \<open>stored_as\<close>: the bytes are a version 2 store whose payload opens under \<open>key\<close> to \<open>data\<close>.
  \<open>on_disk\<close>: the file at \<open>path\<close> is such a store. \<open>synced\<close>: it is the one \<open>st\<close> holds in memory.
\<close>

definition stored_as :: "libs \<Rightarrow> (string \<times> json) list \<Rightarrow> string \<Rightarrow> envelope \<Rightarrow> string \<Rightarrow> bool" where
  "stored_as L data key env bytes \<longleftrightarrow>
     (\<exists>nonce c t. bytes = store_bytes env nonce c \<and> length nonce = noncebytes L \<and>
        secretbox_open L c nonce key = Some t \<and> json_parse L t = Some (JObject data))"

definition on_disk :: "libs \<Rightarrow> world \<Rightarrow> string \<Rightarrow> (string \<times> json) list \<Rightarrow> string \<Rightarrow> envelope \<Rightarrow> bool" where
  "on_disk L w path data key env \<longleftrightarrow>
     (\<exists>f. w_files w path = Some f \<and> stored_as L data key env (f_data f))"

definition synced :: "libs \<Rightarrow> store \<Rightarrow> world \<Rightarrow> bool" where
  "synced L st w \<longleftrightarrow> on_disk L w (st_path st) (st_data st) (st_key st) (st_env st)"

definition wf_store :: "libs \<Rightarrow> store \<Rightarrow> bool" where
  "wf_store L st \<longleftrightarrow> wf_envelope L (st_env st) \<and> length (st_key st) = keybytes L \<and> smap_inv (st_data st)"

text \<open>\<open>pass\<close> is the passphrase whose derived key unwraps the data key.\<close>

definition unwraps :: "libs \<Rightarrow> string \<Rightarrow> store \<Rightarrow> bool" where
  "unwraps L pass st \<longleftrightarrow>
     (\<exists>wk. pwhash L pass (salt (st_env st)) (opslimit (st_env st)) (memlimit (st_env st)) = Some wk \<and>
        secretbox_open L (wrapped_key (st_env st)) (wrap_nonce (st_env st)) wk = Some (st_key st))"

lemma on_disk_files: "w_files w' path = w_files w path \<Longrightarrow> on_disk L w' path = on_disk L w path"
  unfolding on_disk_def by (rule ext)+ simp

lemma synced_files:
  "w_files w' (st_path st) = w_files w (st_path st) \<Longrightarrow> synced L st w' = synced L st w"
  by (simp add: synced_def on_disk_def)

section \<open>Writing\<close>

lemma random_bytes_run [simp]:
  "random_bytes L n w = (Inr (randombytes L (w_tick w) n), w\<lparr>w_tick := Suc (w_tick w)\<rparr>)"
  by (simp add: random_bytes_def ticking_def)

lemma persist_run:
  "persist L path data key env w =
     (case json_dump L (JObject data) of
        Inl what \<Rightarrow> (Inl (Throw what), w)
      | Inr t \<Rightarrow>
          let nonce = randombytes L (w_tick w) (noncebytes L) in
          write_atomic path (store_bytes env nonce (secretbox L t nonce key)) mode_0600
            (w\<lparr>w_tick := Suc (w_tick w)\<rparr>))"
  by (cases "json_dump L (JObject data)") (simp_all add: persist_def bindA_step bindA_stop Let_def)

lemma on_disk_written:
  assumes "libs_ok L" and "smap_inv data" and "length key = keybytes L"
    and "json_dump L (JObject data) = Inr t"
    and "w_files w path = Some (complete_file (store_bytes env (randombytes L i (noncebytes L))
           (secretbox L t (randombytes L i (noncebytes L)) key)) mode)"
  shows "on_disk L w path data key env"
proof -
  have "secretbox_open L (secretbox L t (randombytes L i (noncebytes L)) key)
      (randombytes L i (noncebytes L)) key = Some t"
    using assms by (simp add: libs)
  moreover have "json_parse L t = Some (JObject data)"
    using assms by (simp add: libs_json_round)
  ultimately show ?thesis
    using assms(1,5) libs_random unfolding on_disk_def stored_as_def complete_file_def
    by (metis inode.select_convs(1))
qed

text \<open>
  The three ways a write ends: done (the new store is on disk), thrown (the file is
  untouched), killed (one or the other).
\<close>

lemma persist_cases:
  assumes "libs_ok L" and "smap_inv data" and "length key = keybytes L"
    and "persist L path data key env w = (r, w')"
  shows "(\<forall>u. r = Inr u \<longrightarrow> on_disk L w' path data key env) \<and>
    (\<forall>what. r = Inl (Throw what) \<longrightarrow> w_files w' path = w_files w path) \<and>
    (w_files w' path = w_files w path \<or> on_disk L w' path data key env)"
proof (cases "json_dump L (JObject data)")
  case (Inl what)
  with assms(4) show ?thesis by (auto simp: persist_run)
next
  case (Inr t)
  let ?bytes = "store_bytes env (randombytes L (w_tick w) (noncebytes L))
    (secretbox L t (randombytes L (w_tick w) (noncebytes L)) key)"
  have wr: "write_atomic path ?bytes mode_0600 (w\<lparr>w_tick := Suc (w_tick w)\<rparr>) = (r, w')"
    using assms(4) Inr by (simp add: persist_run Let_def)
  have written: "w_files w' path = Some (complete_file ?bytes mode_0600) \<Longrightarrow> on_disk L w' path data key env"
    using on_disk_written [OF assms(1-3) Inr] by blast
  show ?thesis
    using wr written write_atomic_Inr [of path ?bytes] write_atomic_Throw [of path ?bytes]
      write_atomic_any [of path ?bytes] by fastforce
qed

section \<open>Actions that leave the files alone\<close>

definition quiet :: "'a act \<Rightarrow> bool" where
  "quiet m \<longleftrightarrow> (\<forall>w. w_files (snd (m w)) = w_files w)"

lemma quietD: "quiet m \<Longrightarrow> m w = (r, w') \<Longrightarrow> w_files w' = w_files w"
  by (metis quiet_def snd_conv)

named_theorems quiet_intros \<open>actions that leave the files alone\<close>

lemma quiet_basic [quiet_intros]:
  "quiet (returnA x)" "quiet (throwA what)" "quiet (ticking f)" "quiet (random_bytes L n)"
  by (simp_all add: quiet_def ticking_def)

lemma quiet_lift [quiet_intros]: "quiet (liftA r)"
  by (cases r) (simp_all add: quiet_def)

lemma quiet_bind [quiet_intros]: "quiet m \<Longrightarrow> (\<And>x. quiet (f x)) \<Longrightarrow> quiet (bindA m f)"
  unfolding quiet_def bindA_def by (auto split: prod.splits sum.splits) (metis snd_conv)+

lemma quiet_alloc [quiet_intros]: "quiet (alloc_guarded L)"
  by (simp add: alloc_guarded_def quiet_intros)

lemma quiet_derive [quiet_intros]: "quiet (derive_kdf_key L p s ops mem)"
  by (auto simp: derive_kdf_key_def intro!: quiet_intros split: option.splits)

lemma quiet_mint [quiet_intros]: "quiet (mint_data_key L wk env)"
  by (simp add: mint_data_key_def quiet_intros)

lemma quiet_mint_fresh [quiet_intros]: "quiet (mint_fresh_envelope L p ops mem now env)"
  by (simp add: mint_fresh_envelope_def Let_def quiet_intros)

lemma quiet_unwrap [quiet_intros]: "quiet (unwrap L st p msg)"
  by (auto simp: unwrap_def intro!: quiet_intros split: option.splits)

section \<open>Minting and unwrapping\<close>

lemma derive_kdf_key_Inr:
  "derive_kdf_key L p s ops mem w = (Inr k, w') \<Longrightarrow> pwhash L p s ops mem = Some k"
  by (auto simp: derive_kdf_key_def bindA_Inr split: option.splits)

text \<open>A minted data key is wrapped in the new envelope, and everything else in it is kept.\<close>

lemma mint_data_key_Inr:
  assumes "libs_ok L" and "length wk = keybytes L" and "mint_data_key L wk env w = (Inr (k, env'), w')"
  shows "length k = keybytes L"
    and "secretbox_open L (wrapped_key env') (wrap_nonce env') wk = Some k"
    and "length (wrap_nonce env') = noncebytes L" and "length (wrapped_key env') = keybytes L + macbytes L"
    and "salt env' = salt env" and "opslimit env' = opslimit env"
    and "memlimit env' = memlimit env" and "key_created_at env' = key_created_at env"
  using assms by (auto simp: mint_data_key_def bindA_def libs)

lemma mint_fresh_envelope_Inr:
  assumes "libs_ok L" and "mint_fresh_envelope L p ops mem now env0 w = (Inr (k, env), w')"
  shows "length k = keybytes L"
    and "\<exists>wk. pwhash L p (salt env) ops mem = Some wk \<and>
      secretbox_open L (wrapped_key env) (wrap_nonce env) wk = Some k"
    and "length (salt env) = saltbytes L" and "length (wrap_nonce env) = noncebytes L"
    and "length (wrapped_key env) = keybytes L + macbytes L"
    and "opslimit env = ops" and "memlimit env = mem" and "key_created_at env = now"
proof -
  define s where "s = randombytes L (w_tick w) (saltbytes L)"
  have s: "length s = saltbytes L"
    using assms(1) by (simp add: s_def libs)
  obtain wk w1 w2 w3 where d: "derive_kdf_key L p s ops mem w1 = (Inr wk, w2)"
    and m: "mint_data_key L wk
      (env0\<lparr>salt := s, opslimit := ops, memlimit := mem, key_created_at := now\<rparr>) w3 = (Inr (k, env), w')"
    using assms(2) by (auto simp: mint_fresh_envelope_def bindA_Inr Let_def s_def)
  have wk: "length wk = keybytes L"
    using derive_kdf_key_Inr [OF d] libs_pwhash assms(1) by blast
  note minted = mint_data_key_Inr [OF assms(1) wk m]
  show "length k = keybytes L" "length (salt env) = saltbytes L" "length (wrap_nonce env) = noncebytes L"
    "length (wrapped_key env) = keybytes L + macbytes L" "opslimit env = ops" "memlimit env = mem"
    "key_created_at env = now"
    using minted s by simp_all
  show "\<exists>wk. pwhash L p (salt env) ops mem = Some wk \<and>
      secretbox_open L (wrapped_key env) (wrap_nonce env) wk = Some k"
    using derive_kdf_key_Inr [OF d] minted s by auto
qed

lemma unwrap_Inr:
  assumes "libs_ok L" and "unwrap L st p msg w = (Inr (wk, k), w')"
  shows "pwhash L p (salt (st_env st)) (opslimit (st_env st)) (memlimit (st_env st)) = Some wk"
    and "secretbox_open L (wrapped_key (st_env st)) (wrap_nonce (st_env st)) wk = Some k"
    and "length wk = keybytes L"
proof -
  show p: "pwhash L p (salt (st_env st)) (opslimit (st_env st)) (memlimit (st_env st)) = Some wk"
    using assms(2) by (auto simp: unwrap_def bindA_Inr dest!: derive_kdf_key_Inr split: option.splits)
  show "secretbox_open L (wrapped_key (st_env st)) (wrap_nonce (st_env st)) wk = Some k"
    using assms(2) by (auto simp: unwrap_def bindA_Inr split: option.splits)
  show "length wk = keybytes L"
    using p libs_pwhash assms(1) by blast
qed

section \<open>Operations keep memory and disk together\<close>

text \<open>
  \<open>committed\<close> is the promise of an operation that rewrites the store: if it returned, the
  new store is on disk; if it threw, neither the object nor the file changed; if the process
  was killed inside the write, the file is the old store or the one about to be adopted.
\<close>

definition committed :: "libs \<Rightarrow> store \<Rightarrow> store \<Rightarrow> world \<Rightarrow> (exn + 'a) \<Rightarrow> store \<Rightarrow> world \<Rightarrow> bool" where
  "committed L st next w r st' w' \<longleftrightarrow>
     (case r of
        Inr _ \<Rightarrow> st' = next \<and> synced L next w'
      | Inl (Throw _) \<Rightarrow> st' = st \<and> w_files w' (st_path st) = w_files w (st_path st)
      | Inl Killed \<Rightarrow> st' = st \<and>
          (w_files w' (st_path st) = w_files w (st_path st) \<or> synced L next w'))"

text \<open>The pattern all mutators share: persist a candidate, then adopt it.\<close>

definition adopt :: "libs \<Rightarrow> store \<Rightarrow> store \<Rightarrow> 'a \<Rightarrow> world \<Rightarrow> (exn + 'a) \<times> store \<times> world" where
  "adopt L st next x w =
     (case persist L (st_path st) (st_data next) (st_key next) (st_env next) w of
        (Inl e, w') \<Rightarrow> (Inl e, st, w')
      | (Inr _, w') \<Rightarrow> (Inr x, next, w'))"

lemma adopt_committed:
  assumes "libs_ok L" and "wf_store L next" and "st_path next = st_path st"
    and "adopt L st next x w = (r, st', w')"
  shows "committed L st next w r st' w'"
proof -
  obtain r0 w0 where p: "persist L (st_path st) (st_data next) (st_key next) (st_env next) w = (r0, w0)"
    by (cases "persist L (st_path st) (st_data next) (st_key next) (st_env next) w")
  have "smap_inv (st_data next)" "length (st_key next) = keybytes L"
    using assms(2) by (simp_all add: wf_store_def)
  note cases = persist_cases [OF assms(1) this p]
  show ?thesis
    using assms(3,4) p cases
    by (cases r0) (auto simp: adopt_def committed_def synced_def split: exn.splits)
qed

lemma store_set_adopt:
  "store_set L k v st w = adopt L st (st\<lparr>st_data := smap_put k (JString v) (st_data st)\<rparr>) () w"
  by (simp add: store_set_def adopt_def Let_def)

lemma store_remove_adopt:
  "store_remove L k st w =
     (if map_of (st_data st) k = None then (Inr False, st, w)
      else adopt L st (st\<lparr>st_data := smap_erase k (st_data st)\<rparr>) True w)"
  by (simp add: store_remove_def adopt_def Let_def)

lemma commit_new_key_adopt:
  "commit_new_key L k env st w = adopt L st (st\<lparr>st_key := k, st_env := env\<rparr>) () w"
  by (simp add: commit_new_key_def adopt_def)

end
