(* ===== verification/StoreInv.thy ===== *)
theory StoreInv
  imports StoreFacts
begin

text \<open>
  The store as a state machine: its mutating operations, what each does to the secrets and to
  the passphrase, and the invariant that memory and disk agree after every operation.
\<close>

datatype store_op =
    SetOp string string
  | RemoveOp string
  | RotateOp string "64 word"
  | PasswdOp string string "64 word"

fun store_step :: "libs \<Rightarrow> store_op \<Rightarrow> unit store_act" where
  "store_step L (SetOp k v) st w = store_set L k v st w"
| "store_step L (RemoveOp k) st w =
     (case store_remove L k st w of (Inl e, st', w') \<Rightarrow> (Inl e, st', w') | (Inr _, st', w') \<Rightarrow> (Inr (), st', w'))"
| "store_step L (RotateOp pass now) st w = store_rotate L pass now st w"
| "store_step L (PasswdOp old_pass new_pass now) st w = change_passphrase L old_pass new_pass now st w"

text \<open>What the operation does to the map of secrets, and which passphrase opens the result.\<close>

fun op_effect :: "store_op \<Rightarrow> (string \<times> json) list \<Rightarrow> (string \<times> json) list" where
  "op_effect (SetOp k v) m = smap_put k (JString v) m"
| "op_effect (RemoveOp k) m = smap_erase k m"
| "op_effect _ m = m"

fun op_opens :: "store_op \<Rightarrow> string \<Rightarrow> string" where
  "op_opens (RotateOp pass now) p = pass"
| "op_opens (PasswdOp old_pass new_pass now) p = new_pass"
| "op_opens _ p = p"

text \<open>
  The passphrases whose key opens the envelope. Changing the data key or the passphrase takes
  one of them, and the one the operation names unlocks the store afterwards.
\<close>

definition accepts :: "libs \<Rightarrow> store \<Rightarrow> string \<Rightarrow> bool" where
  "accepts L st p \<longleftrightarrow>
     (\<exists>wk k. pwhash L p (salt (st_env st)) (opslimit (st_env st)) (memlimit (st_env st)) = Some wk \<and>
        secretbox_open L (wrapped_key (st_env st)) (wrap_nonce (st_env st)) wk = Some k)"

lemma unwraps_accepts: "unwraps L p st \<Longrightarrow> accepts L st p"
  by (auto simp: unwraps_def accepts_def)

lemma unwrap_accepts: "libs_ok L \<Longrightarrow> unwrap L st p msg w = (Inr (wk, k), w') \<Longrightarrow> accepts L st p"
  unfolding accepts_def using unwrap_Inr by blast

fun authorised :: "libs \<Rightarrow> store_op \<Rightarrow> store \<Rightarrow> store \<Rightarrow> bool" where
  "authorised L (RotateOp pass now) st next \<longleftrightarrow> accepts L st pass \<and> unwraps L pass next"
| "authorised L (PasswdOp old_pass new_pass now) st next \<longleftrightarrow> accepts L st old_pass \<and> unwraps L new_pass next"
| "authorised L op st next \<longleftrightarrow> accepts L next = accepts L st \<and> (\<forall>p. unwraps L p next \<longleftrightarrow> unwraps L p st)"

text \<open>An operation either wrote nothing, or persisted one candidate store.\<close>

definition candidate :: "libs \<Rightarrow> store_op \<Rightarrow> store \<Rightarrow> store \<Rightarrow> bool" where
  "candidate L op st next \<longleftrightarrow>
     wf_store L next \<and> st_path next = st_path st \<and> st_data next = op_effect op (st_data st) \<and>
     authorised L op st next \<and> (\<forall>p. unwraps L p st \<longrightarrow> unwraps L (op_opens op p) next)"

lemma smap_erase_missing: "map_of m k = None \<Longrightarrow> smap_erase k m = m"
  unfolding smap_erase_def by (rule filter_True) (auto simp: map_of_eq_None_iff image_iff)

lemma check_kdf_params_max:
  assumes "libs_ok L" and "check_kdf_params L ops mem = Inr ()"
  shows "check_kdf_params L (max ops (opslimit_moderate L)) (max mem (memlimit_moderate L)) = Inr ()"
  using assms(2) libs_limits [OF assms(1)]
  by (auto simp: check_kdf_params_def not_less max_def)

lemma store_set_step:
  assumes "libs_ok L" and "wf_store L st" and "store_set L k v st w = (r, st', w')"
  shows "\<exists>next. candidate L (SetOp k v) st next \<and> committed L st next w r st' w'"
proof -
  let ?next = "st\<lparr>st_data := smap_put k (JString v) (st_data st)\<rparr>"
  have "candidate L (SetOp k v) st ?next"
    using assms(2) by (auto simp: candidate_def wf_store_def smap.inv_put unwraps_def accepts_def fun_eq_iff)
  moreover have "committed L st ?next w r st' w'"
    using assms calculation by (auto simp: store_set_adopt candidate_def intro!: adopt_committed)
  ultimately show ?thesis by blast
qed

lemma store_remove_step:
  assumes "libs_ok L" and "wf_store L st" and "store_remove L k st w = (r, st', w')"
  shows "st' = st \<and> w' = w \<and> r = Inr False \<and> map_of (st_data st) k = None \<or>
    (\<exists>next. candidate L (RemoveOp k) st next \<and> committed L st next w r st' w')"
proof (cases "map_of (st_data st) k = None")
  case True
  then show ?thesis using assms by (simp add: store_remove_adopt)
next
  case False
  let ?next = "st\<lparr>st_data := smap_erase k (st_data st)\<rparr>"
  have "candidate L (RemoveOp k) st ?next"
    using assms(2) by (auto simp: candidate_def wf_store_def smap.inv_erase unwraps_def accepts_def fun_eq_iff)
  moreover have "committed L st ?next w r st' w'"
    using assms False calculation
    by (auto simp: store_remove_adopt candidate_def intro!: adopt_committed)
  ultimately show ?thesis by blast
qed

lemma commit_new_key_step:
  assumes "libs_ok L" and "wf_store L st" and "candidate L op st (st\<lparr>st_key := k, st_env := env\<rparr>)"
    and "commit_new_key L k env st w1 = (r, st', w')"
  shows "committed L st (st\<lparr>st_key := k, st_env := env\<rparr>) w1 r st' w'"
  using assms by (auto simp: commit_new_key_adopt candidate_def intro!: adopt_committed)

lemma committed_files:
  "w_files w1 = w_files w \<Longrightarrow> committed L st next w1 r st' w' = committed L st next w r st' w'"
  by (simp add: committed_def split: sum.splits exn.splits)

lemma store_rotate_step:
  assumes "libs_ok L" and "wf_store L st" and "store_rotate L pass now st w = (r, st', w')"
  shows "st' = st \<and> w_files w' = w_files w \<and> (\<exists>e. r = Inl e) \<or>
    (\<exists>next. candidate L (RotateOp pass now) st next \<and> committed L st next w r st' w')"
proof -
  define mint where "mint = bindA (unwrap L st pass ''wrong passphrase'') (\<lambda>(wrap_key, data_key).
      bindA (alloc_guarded L) (\<lambda>_. mint_data_key L wrap_key ((st_env st)\<lparr>key_created_at := now\<rparr>)))"
  have quiet: "quiet mint"
    by (auto simp: mint_def intro!: quiet_intros)
  have rot: "store_rotate L pass now st w =
      (case mint w of (Inl e, w') \<Rightarrow> (Inl e, st, w') | (Inr (k, env), w') \<Rightarrow> commit_new_key L k env st w')"
    by (simp add: store_rotate_def mint_def Let_def)
  obtain m w1 where m: "mint w = (m, w1)" by (cases "mint w")
  have files: "w_files w1 = w_files w" using quietD [OF quiet m] .
  show ?thesis
  proof (cases m)
    case (Inl e)
    then show ?thesis using assms(3) m files by (auto simp: rot)
  next
    case (Inr kenv)
    obtain k env where kenv: "kenv = (k, env)" by (cases kenv)
    obtain wk dk w2 w3 where u: "unwrap L st pass ''wrong passphrase'' w = (Inr (wk, dk), w2)"
      and mk: "mint_data_key L wk ((st_env st)\<lparr>key_created_at := now\<rparr>) w3 = (Inr (k, env), w1)"
      using m Inr kenv by (auto simp: mint_def bindA_Inr)
    note unwrapped = unwrap_Inr [OF assms(1) u]
    note minted = mint_data_key_Inr [OF assms(1) unwrapped(3) mk]
    have acc: "accepts L st pass" "unwraps L pass (st\<lparr>st_key := k, st_env := env\<rparr>)"
      using unwrapped minted by (simp_all add: accepts_def unwraps_def)
    have cand: "candidate L (RotateOp pass now) st (st\<lparr>st_key := k, st_env := env\<rparr>)"
      using assms(2) unwrapped minted acc
      by (auto simp: candidate_def wf_store_def wf_envelope_def unwraps_def)
    have "commit_new_key L k env st w1 = (r, st', w')"
      using assms(3) m Inr kenv by (simp add: rot)
    from commit_new_key_step [OF assms(1,2) cand this] show ?thesis
      using cand committed_files [OF files] by blast
  qed
qed

lemma change_passphrase_step:
  assumes "libs_ok L" and "wf_store L st"
    and "change_passphrase L old_pass new_pass now st w = (r, st', w')"
  shows "st' = st \<and> w_files w' = w_files w \<and> (\<exists>e. r = Inl e) \<or>
    (\<exists>next. candidate L (PasswdOp old_pass new_pass now) st next \<and> committed L st next w r st' w' \<and>
       opslimit (st_env next) = max (opslimit (st_env st)) (opslimit_moderate L) \<and>
       memlimit (st_env next) = max (memlimit (st_env st)) (memlimit_moderate L) \<and>
       unwraps L new_pass next)"
proof (cases "new_pass = []")
  case True
  then show ?thesis using assms by (auto simp: change_passphrase_def)
next
  case False
  define mint where "mint = bindA (unwrap L st old_pass ''wrong passphrase'') (\<lambda>_.
      mint_fresh_envelope L new_pass (max (opslimit (st_env st)) (opslimit_moderate L))
        (max (memlimit (st_env st)) (memlimit_moderate L)) now (zero_envelope L))"
  have quiet: "quiet mint"
    by (auto simp: mint_def intro!: quiet_intros)
  have chg: "change_passphrase L old_pass new_pass now st w =
      (case mint w of (Inl e, w') \<Rightarrow> (Inl e, st, w') | (Inr (k, env), w') \<Rightarrow> commit_new_key L k env st w')"
    using False by (simp add: change_passphrase_def mint_def)
  obtain m w1 where m: "mint w = (m, w1)" by (cases "mint w")
  have files: "w_files w1 = w_files w" using quietD [OF quiet m] .
  show ?thesis
  proof (cases m)
    case (Inl e)
    then show ?thesis using assms(3) m files by (auto simp: chg)
  next
    case (Inr kenv)
    obtain k env where kenv: "kenv = (k, env)" by (cases kenv)
    obtain wk dk w2 where u: "unwrap L st old_pass ''wrong passphrase'' w = (Inr (wk, dk), w2)"
      and mk: "mint_fresh_envelope L new_pass (max (opslimit (st_env st)) (opslimit_moderate L))
        (max (memlimit (st_env st)) (memlimit_moderate L)) now (zero_envelope L) w2 = (Inr (k, env), w1)"
      using m Inr kenv by (auto simp: mint_def bindA_Inr)
    note minted = mint_fresh_envelope_Inr [OF assms(1) mk]
    have old: "accepts L st old_pass"
      using unwrap_accepts [OF assms(1) u] .
    have opens: "unwraps L new_pass (st\<lparr>st_key := k, st_env := env\<rparr>)"
      using minted by (simp add: unwraps_def)
    have cand: "candidate L (PasswdOp old_pass new_pass now) st (st\<lparr>st_key := k, st_env := env\<rparr>)"
      using assms(2) minted check_kdf_params_max [OF assms(1)] opens old
      by (simp add: candidate_def wf_store_def wf_envelope_def)
    have "commit_new_key L k env st w1 = (r, st', w')"
      using assms(3) m Inr kenv by (simp add: chg)
    from commit_new_key_step [OF assms(1,2) cand this]
    have "committed L st (st\<lparr>st_key := k, st_env := env\<rparr>) w r st' w'"
      using committed_files [OF files] by blast
    with cand opens minted(6,7) show ?thesis
      by (intro disjI2 exI [of _ "st\<lparr>st_key := k, st_env := env\<rparr>"]) simp
  qed
qed

section \<open>The invariant\<close>

text \<open>Every operation: nothing happened, or one candidate was committed.\<close>

lemma store_step_cases:
  assumes "libs_ok L" and "wf_store L st" and "store_step L op st w = (r, st', w')"
  obtains (nothing) "st' = st" "w_files w' = w_files w" "r = Inr () \<Longrightarrow> op_effect op (st_data st) = st_data st"
      "r = Inr () \<Longrightarrow> \<forall>p. op_opens op p = p"
    | (written) "next" where "candidate L op st next" "committed L st next w r st' w'"
proof (cases op)
  case (SetOp k v)
  then show ?thesis using assms store_set_step written by fastforce
next
  case (RemoveOp k)
  obtain r0 where r0: "store_remove L k st w = (r0, st', w')" and r: "r = (case r0 of Inl e \<Rightarrow> Inl e | Inr _ \<Rightarrow> Inr ())"
    using assms(3) RemoveOp by (auto split: prod.splits sum.splits)
  have "committed L st next w r0 st' w' \<Longrightarrow> committed L st next w r st' w'" for "next"
    by (cases r0) (simp_all add: r committed_def)
  then show ?thesis
    using store_remove_step [OF assms(1,2) r0] RemoveOp r that smap_erase_missing by fastforce
next
  case (RotateOp p now)
  then show ?thesis using assms store_rotate_step [OF assms(1,2)] that by fastforce
next
  case (PasswdOp old_pass new_pass now)
  then show ?thesis using assms change_passphrase_step [OF assms(1,2)] that by fastforce
qed

lemma store_step_synced:
  assumes "libs_ok L" and "wf_store L st" and "synced L st w"
    and "store_step L op st w = (r, st', w')"
  shows "st_path st' = st_path st \<and> wf_store L st' \<and> (r \<noteq> Inl Killed \<longrightarrow> synced L st' w')"
  using assms(1,2,4)
proof (cases rule: store_step_cases)
  case nothing
  then show ?thesis using assms synced_files by metis
next
  case (written "next")
  then show ?thesis using assms(2,3) synced_files [of w' st w L]
    by (auto simp: candidate_def committed_def split: sum.splits exn.splits)
qed

text \<open>After a crash the file is one of two complete stores.\<close>

lemma store_step_killed:
  assumes "libs_ok L" and "wf_store L st" and "synced L st w"
    and "store_step L op st w = (Inl Killed, st', w')"
  shows "synced L st w' \<or> (\<exists>next. candidate L op st next \<and> synced L next w')"
  using assms(1,2,4)
proof (cases rule: store_step_cases)
  case nothing
  then show ?thesis using assms synced_files by metis
next
  case (written "next")
  then show ?thesis using assms(3) synced_files [of w' st w L]
    by (auto simp: committed_def)
qed

lemma store_step_effect:
  assumes "libs_ok L" and "wf_store L st" and "store_step L op st w = (Inr u, st', w')"
  shows "st_data st' = op_effect op (st_data st)"
    and "unwraps L p st \<Longrightarrow> unwraps L (op_opens op p) st'"
  using assms by (auto elim!: store_step_cases simp: candidate_def committed_def)

lemma store_step_thrown:
  assumes "libs_ok L" and "wf_store L st" and "store_step L op st w = (Inl e, st', w')"
  shows "st' = st" and "e \<noteq> Killed \<Longrightarrow> w_files w' (st_path st) = w_files w (st_path st)"
  using assms by (auto elim!: store_step_cases simp: committed_def split: exn.splits)

section \<open>Runs\<close>

text \<open>The daemon survives an exception and goes on; a kill ends the run.\<close>

fun store_run :: "libs \<Rightarrow> store_op list \<Rightarrow> store \<Rightarrow> world \<Rightarrow> bool \<times> store \<times> world" where
  "store_run L [] st w = (True, st, w)"
| "store_run L (op # ops) st w =
     (case store_step L op st w of
        (Inl Killed, st', w') \<Rightarrow> (False, st', w')
      | (_, st', w') \<Rightarrow> store_run L ops st' w')"

lemma store_run_synced:
  assumes "libs_ok L" and "wf_store L st" and "synced L st w"
    and "store_run L ops st w = (alive, st', w')"
  shows "st_path st' = st_path st \<and> wf_store L st' \<and>
    (\<exists>d. st_path d = st_path st \<and> wf_store L d \<and> synced L d w' \<and> (alive \<longrightarrow> d = st'))"
  using assms(2-)
proof (induction ops arbitrary: st w)
  case Nil
  then show ?case by auto
next
  case (Cons op ops)
  obtain r st1 w1 where step: "store_step L op st w = (r, st1, w1)"
    by (cases "store_step L op st w")
  note ok = store_step_synced [OF assms(1) Cons.prems(1,2) step]
  show ?case
  proof (cases "r = Inl Killed")
    case True
    from store_step_killed [OF assms(1) Cons.prems(1,2) step [unfolded True]]
    have "\<exists>d. st_path d = st_path st \<and> wf_store L d \<and> synced L d w1"
      using Cons.prems(1) by (auto simp: candidate_def)
    then show ?thesis
      using Cons.prems step ok True by auto
  next
    case False
    then have "store_run L ops st1 w1 = (alive, st', w')"
      using Cons.prems step by (auto split: sum.splits exn.splits)
    with Cons.IH [of st1 w1] ok False show ?thesis by auto
  qed
qed

end
