(* ===== verification/StoreOpen.thy ===== *)
theory StoreOpen
  imports StoreInv
begin

text \<open>
  Opening a store: what any file that opens is guaranteed to give, that a store written by
  the program opens again with its passphrase, and the one-way migration of version 1.
\<close>

text \<open>No key buffer fails to lock, and libsodium initialises.\<close>

definition runs_clean :: "libs \<Rightarrow> bool" where
  "runs_clean L \<longleftrightarrow> sodium_init_ok L \<and> (\<forall>i. mlock_error L i = None)"

lemma alloc_clean: "runs_clean L \<Longrightarrow> alloc_guarded L w = (Inr (), w\<lparr>w_tick := Suc (w_tick w)\<rparr>)"
  by (simp add: runs_clean_def alloc_guarded_def ticking_def)

lemma derive_clean:
  "runs_clean L \<Longrightarrow> pwhash L p s ops mem = Some k \<Longrightarrow>
   derive_kdf_key L p s ops mem w = (Inr k, w\<lparr>w_tick := Suc (w_tick w)\<rparr>)"
  by (simp add: derive_kdf_key_def bindA_def alloc_clean)

lemma ensure_sodium_clean: "runs_clean L \<Longrightarrow> ensure_sodium L w = (Inr (), w)"
  by (simp add: ensure_sodium_def runs_clean_def refuse_if_def)

lemma unwrap_clean:
  assumes "runs_clean L"
    and "pwhash L p (salt (st_env st)) (opslimit (st_env st)) (memlimit (st_env st)) = Some wk"
    and "secretbox_open L (wrapped_key (st_env st)) (wrap_nonce (st_env st)) wk = Some k"
  shows "\<exists>w'. unwrap L st p msg w = (Inr (wk, k), w') \<and> w_files w' = w_files w"
  using assms by (simp add: unwrap_def bindA_def alloc_clean derive_clean)

section \<open>Sizes\<close>

lemma length_store_bytes:
  "wf_envelope L env \<Longrightarrow> length nonce = noncebytes L \<Longrightarrow>
   length (store_bytes env nonce c) = kHeaderSizeV2 L + length c"
  by (simp add: store_bytes_def length_common_header [where L = L] wf_envelope_def kHeaderSizeV2_def)

lemma store_bytes_start:
  "\<not> length (store_bytes env nonce c) < 5"
  "take 4 (store_bytes env nonce c) = kMagic"
  "store_bytes env nonce c ! 4 = kVersion2"
  by (simp_all add: store_bytes_def common_header_def nth_append)

section \<open>Reopening\<close>

lemma open_v2_bytes:
  assumes "libs_ok L" and "runs_clean L" and "wf_envelope L env" and "length nonce = noncebytes L"
    and "pwhash L p (salt env) (opslimit env) (memlimit env) = Some wk"
    and "secretbox_open L (wrapped_key env) (wrap_nonce env) wk = Some key"
    and "secretbox_open L c nonce key = Some t" and "json_parse L t = Some (JObject data)"
  shows "\<exists>w'. open_v2 L path p (store_bytes env nonce c) w =
      (Inr \<lparr>st_path = path, st_data = data, st_key = key, st_env = env\<rparr>, w') \<and> w_files w' = w_files w"
proof -
  let ?buf = "store_bytes env nonce c"
  have env: "length (salt env) = saltbytes L" "length (wrap_nonce env) = noncebytes L"
    "length (wrapped_key env) = keybytes L + macbytes L"
    and kdf: "check_kdf_params L (opslimit env) (memlimit env) = Inr ()"
    using assms(3) by (simp_all add: wf_envelope_def)
  have long: "\<not> length ?buf < kHeaderSizeV2 L + macbytes L"
    using libs_open_length [OF assms(1,7)] assms(3,4) by (simp add: length_store_bytes)
  let ?rest = "wrap_nonce env @ wrapped_key env @ nonce @ c"
  have buf: "?buf = common_header kVersion2 env @ ?rest"
    by (simp add: store_bytes_def)
  let ?o = "kCommonHeaderSize L"
  have "drop ?o ?buf = ?rest"
    unfolding buf by (rule drop_past) (simp add: length_common_header env)
  then have at: "drop ?o ?buf = wrap_nonce env @ (wrapped_key env @ nonce @ c)"
    "drop (?o + noncebytes L) ?buf = wrapped_key env @ (nonce @ c)"
    "drop (?o + noncebytes L + (keybytes L + macbytes L)) ?buf = nonce @ c"
    "drop (?o + noncebytes L + (keybytes L + macbytes L) + noncebytes L) ?buf = c"
    using env assms(4) by (simp_all flip: drop_drop add: add.commute)
  have head: "read_common_header L ?buf (zero_envelope L) = Inr (?o, (zero_envelope L)
      \<lparr>salt := salt env, opslimit := opslimit env, memlimit := memlimit env,
       key_created_at := key_created_at env\<rparr>)"
    unfolding buf using env(1) kdf by (rule read_common_header_bytes)
  let ?env = "(zero_envelope L)
      \<lparr>salt := salt env, opslimit := opslimit env, memlimit := memlimit env,
       key_created_at := key_created_at env, wrap_nonce := wrap_nonce env, wrapped_key := wrapped_key env\<rparr>"
  have same: "?env = env"
    by (simp add: zero_envelope_def)
  let ?s = "\<lparr>st_path = path, st_data = [], st_key = [], st_env = env\<rparr>"
  obtain w1 where u: "unwrap L ?s p ''wrong passphrase or corrupted store'' w = (Inr (wk, key), w1)"
    and files: "w_files w1 = w_files w"
    using unwrap_clean [OF assms(2), of p ?s wk key] assms(5,6) by auto
  have dec: "decrypt_payload L c nonce key = Inr data"
    using assms(7,8) by (simp add: decrypt_payload_def)
  have un: "bindA (unwrap L ?s p ''wrong passphrase or corrupted store'') f w = f (wk, key) w1" for f :: "_ \<Rightarrow> store act"
    using u by (rule bindA_step)
  show ?thesis
    using long env assms(4) dec files
    by (simp add: open_v2_def bindA_step head at take_past Let_def same un)
qed

lemma store_open_synced:
  assumes "libs_ok L" and "runs_clean L" and "wf_store L st" and "synced L st w" and "unwraps L p st"
  shows "\<exists>w'. store_open L (st_path st) p w = (Inr st, w') \<and> w_files w' = w_files w"
proof -
  obtain f nonce c t where f: "w_files w (st_path st) = Some f"
    and bytes: "f_data f = store_bytes (st_env st) nonce c" and n: "length nonce = noncebytes L"
    and c: "secretbox_open L c nonce (st_key st) = Some t" "json_parse L t = Some (JObject (st_data st))"
    using assms(4) by (auto simp: synced_def on_disk_def stored_as_def)
  obtain wk where wk: "pwhash L p (salt (st_env st)) (opslimit (st_env st)) (memlimit (st_env st)) = Some wk"
    "secretbox_open L (wrapped_key (st_env st)) (wrap_nonce (st_env st)) wk = Some (st_key st)"
    using assms(5) by (auto simp: unwraps_def)
  have wf: "wf_envelope L (st_env st)"
    using assms(3) by (simp add: wf_store_def)
  obtain w' where "open_v2 L (st_path st) p (f_data f) w = (Inr st, w')" "w_files w' = w_files w"
    using open_v2_bytes [OF assms(1,2) wf n wk c, of "st_path st" w] bytes by auto
  then show ?thesis
    using f bytes assms(2)
    by (simp add: store_open_def bindA_step ensure_sodium_clean read_file_string_def
        store_bytes_start kVersion1_def kVersion2_def)
qed

section \<open>What an opened store is\<close>

text \<open>
  Nothing is assumed of the file here: it may be truncated, corrupted or hostile. If it opens,
  every header field has its length, the KDF parameters are plausible, the passphrase unwraps
  the key, and the file on disk is the version 2 store that memory holds.
\<close>

lemma decrypt_payload_Inr:
  "decrypt_payload L c nonce key = Inr data \<longleftrightarrow>
     (\<exists>t. secretbox_open L c nonce key = Some t \<and> json_parse L t = Some (JObject data))"
  by (auto simp: decrypt_payload_def split: option.splits json.splits)

lemma liftA_Inr [simp]: "liftA r w = (Inr x, w') \<longleftrightarrow> r = Inr x \<and> w' = w"
  by (cases r) auto

lemma open_v2_Inr:
  assumes "libs_ok L" and "open_v2 L path p buf w = (Inr st, w')" and "take (length kMagic) buf = kMagic"
    and "buf ! length kMagic = kVersion2"
  shows "wf_store L st \<and> st_path st = path \<and> unwraps L p st \<and>
    stored_as L (st_data st) (st_key st) (st_env st) buf \<and> w_files w' = w_files w"
proof -
  have long: "kHeaderSizeV2 L + macbytes L \<le> length buf"
    using assms(2) by (auto simp: open_v2_def split: if_splits)
  define o1 o2 o3 o4 where "o1 = kCommonHeaderSize L" and "o2 = o1 + noncebytes L"
    and "o3 = o2 + (keybytes L + macbytes L)" and "o4 = o3 + noncebytes L"
  have size: "o4 \<le> length buf"
    using long by (simp add: kHeaderSizeV2_def o1_def o2_def o3_def o4_def)
  obtain env0 where head: "read_common_header L buf (zero_envelope L) = Inr (o1, env0)"
    using assms(2) long read_common_header_wf [of L buf "zero_envelope L"]
    by (force simp: open_v2_def bindA_Inr kHeaderSizeV2_def o1_def)
  define env where "env = env0\<lparr>wrap_nonce := take (noncebytes L) (drop o1 buf),
      wrapped_key := take (keybytes L + macbytes L) (drop o2 buf)\<rparr>"
  let ?s = "\<lparr>st_path = path, st_data = [], st_key = [], st_env = env\<rparr>"
  let ?nonce = "take (noncebytes L) (drop o3 buf)"
  obtain wk dk data w1 where u: "unwrap L ?s p ''wrong passphrase or corrupted store'' w = (Inr (wk, dk), w1)"
    and dec: "decrypt_payload L (drop o4 buf) ?nonce dk = Inr data"
    and st: "st = \<lparr>st_path = path, st_data = data, st_key = dk, st_env = env\<rparr>" "w' = w1"
    using assms(2) long head
    by (auto simp: open_v2_def bindA_Inr Let_def env_def o2_def o3_def o4_def)
  have "o1 \<le> length buf" using size by (simp add: o2_def o3_def o4_def)
  note fields = read_common_header_wf [OF head this [unfolded o1_def]]
  note whole = read_common_header_rebuild [OF head \<open>o1 \<le> length buf\<close> [unfolded o1_def] assms(3,4)]
  have wf: "wf_envelope L env"
    using fields size by (simp add: wf_envelope_def env_def o2_def o3_def o4_def)
  have key: "length dk = keybytes L"
    using libs_open_length [OF assms(1) unwrap_Inr(2) [OF assms(1) u]] wf by (simp add: wf_envelope_def)
  have unwraps: "unwraps L p st"
    using unwrap_Inr [OF assms(1) u] by (auto simp: unwraps_def st)
  have "buf = take o1 buf @ take (noncebytes L) (drop o1 buf) @ take (keybytes L + macbytes L) (drop o2 buf) @
      ?nonce @ drop o4 buf"
    by (simp add: o2_def o3_def o4_def take_add [symmetric] flip: append_assoc)
  moreover have "common_header kVersion2 env = common_header kVersion2 env0"
    by (simp add: common_header_def env_def)
  ultimately have bytes: "buf = store_bytes env ?nonce (drop o4 buf)"
    using whole by (simp add: store_bytes_def env_def o1_def)
  have "length ?nonce = noncebytes L" using size by (simp add: o4_def)
  then have "stored_as L (st_data st) (st_key st) (st_env st) buf"
    using bytes dec unfolding stored_as_def st decrypt_payload_Inr store.simps by blast
  moreover have "smap_inv data"
    using dec libs_json_sorted [OF assms(1)] by (auto simp: decrypt_payload_Inr)
  moreover have "w_files w' = w_files w"
    using quietD [OF quiet_unwrap u] st by simp
  ultimately show ?thesis using wf key unwraps by (simp add: wf_store_def st)
qed

text \<open>Version 1: the payload opens under the passphrase key itself, and is rewritten as version 2.\<close>

lemma open_v1_Inr:
  assumes "libs_ok L" and "open_v1 L path p buf w = (Inr st, w')"
  shows "wf_store L st \<and> st_path st = path \<and> unwraps L p st \<and> synced L st w' \<and>
    (\<exists>nonce c wk. buf = take (kCommonHeaderSize L) buf @ nonce @ c \<and> length nonce = noncebytes L \<and>
       pwhash L p (salt (st_env st)) (opslimit (st_env st)) (memlimit (st_env st)) = Some wk \<and>
       decrypt_payload L c nonce wk = Inr (st_data st))"
proof -
  have long: "kHeaderSizeV1 L + macbytes L \<le> length buf"
    using assms(2) by (auto simp: open_v1_def split: if_splits)
  define o1 o2 where "o1 = kCommonHeaderSize L" and "o2 = o1 + noncebytes L"
  have size: "o2 \<le> length buf"
    using long by (simp add: kHeaderSizeV1_def o1_def o2_def)
  obtain env0 where head: "read_common_header L buf (zero_envelope L) = Inr (o1, env0)"
    using assms(2) long read_common_header_wf [of L buf "zero_envelope L"]
    by (force simp: open_v1_def bindA_Inr kHeaderSizeV1_def o1_def)
  let ?nonce = "take (noncebytes L) (drop o1 buf)"
  obtain wk data k env w1 w2 w3 w4 where
    d: "derive_kdf_key L p (salt env0) (opslimit env0) (memlimit env0) w1 = (Inr wk, w2)"
    and dec: "decrypt_payload L (drop o2 buf) ?nonce wk = Inr data"
    and mk: "mint_data_key L wk env0 w3 = (Inr (k, env), w4)"
    and per: "persist L path data k env w4 = (Inr (), w')"
    and st: "st = \<lparr>st_path = path, st_data = data, st_key = k, st_env = env\<rparr>"
    using assms(2) long head by (auto simp: open_v1_def bindA_Inr Let_def o2_def)
  have "o1 \<le> length buf" using size by (simp add: o2_def)
  note fields = read_common_header_wf [OF head this [unfolded o1_def]]
  have wk: "pwhash L p (salt env0) (opslimit env0) (memlimit env0) = Some wk" "length wk = keybytes L"
    using derive_kdf_key_Inr [OF d] libs_pwhash assms(1) by blast+
  note minted = mint_data_key_Inr [OF assms(1) wk(2) mk]
  have sorted: "smap_inv data"
    using dec libs_json_sorted [OF assms(1)] by (auto simp: decrypt_payload_Inr)
  have "wf_store L st"
    using minted fields sorted by (simp add: wf_store_def wf_envelope_def st)
  moreover have "synced L st w'"
    using persist_cases [OF assms(1) sorted minted(1) per] by (simp add: synced_def st)
  moreover have "unwraps L p st"
    using wk minted by (simp add: unwraps_def st)
  moreover have "length ?nonce = noncebytes L" "buf = take o1 buf @ ?nonce @ drop o2 buf"
    using size by (simp_all add: o2_def take_add [symmetric] flip: append_assoc)
  moreover have "pwhash L p (salt (st_env st)) (opslimit (st_env st)) (memlimit (st_env st)) = Some wk"
    using wk(1) minted by (simp add: st)
  ultimately show ?thesis
    using dec unfolding st o1_def store.simps by blast
qed

lemma store_open_Inr:
  assumes "libs_ok L" and "store_open L path p w = (Inr st, w')"
  shows "wf_store L st \<and> st_path st = path \<and> unwraps L p st \<and> synced L st w'"
proof -
  obtain f where f: "w_files w path = Some f" and long: "length kMagic + 1 \<le> length (f_data f)"
    and magic: "take (length kMagic) (f_data f) = kMagic"
    and v: "f_data f ! length kMagic = kVersion1 \<and> open_v1 L path p (f_data f) w = (Inr st, w') \<or>
      f_data f ! length kMagic = kVersion2 \<and> open_v2 L path p (f_data f) w = (Inr st, w')"
    using assms(2)
    by (auto simp: store_open_def bindA_Inr ensure_sodium_def read_file_string_def not_less Let_def
        split: option.splits if_splits)
  from v show ?thesis
  proof (elim disjE conjE)
    assume "open_v1 L path p (f_data f) w = (Inr st, w')"
    then show ?thesis using open_v1_Inr [OF assms(1)] by blast
  next
    assume "f_data f ! length kMagic = kVersion2" "open_v2 L path p (f_data f) w = (Inr st, w')"
    then show ?thesis
      using open_v2_Inr [OF assms(1) _ magic] f by (auto simp: synced_def on_disk_def)
  qed
qed

section \<open>Creating\<close>

lemma store_create_Inr:
  assumes "libs_ok L" and "store_create L path p now w = (Inr st, w')"
  shows "wf_store L st \<and> st_path st = path \<and> unwraps L p st \<and> synced L st w' \<and> st_data st = [] \<and>
    w_files w path = None"
proof -
  obtain k env w1 w2 where
    m: "mint_fresh_envelope L p (opslimit_moderate L) (memlimit_moderate L) now (zero_envelope L) w1 = (Inr (k, env), w2)"
    and per: "persist L path [] k env w2 = (Inr (), w')"
    and st: "st = \<lparr>st_path = path, st_data = [], st_key = k, st_env = env\<rparr>" and new: "w_files w path = None"
    using assms(2) by (auto simp: store_create_def bindA_Inr ensure_sodium_def split: if_splits)
  note minted = mint_fresh_envelope_Inr [OF assms(1) m]
  have "check_kdf_params L (opslimit_moderate L) (memlimit_moderate L) = Inr ()"
    using libs_limits [OF assms(1)] by (simp add: check_kdf_params_def not_less)
  then have "wf_store L st"
    using minted by (simp add: wf_store_def wf_envelope_def st)
  moreover have "synced L st w'"
    using persist_cases [OF assms(1) smap_inv_Nil minted(1) per] by (simp add: synced_def st)
  moreover have "unwraps L p st"
    using minted by (auto simp: unwraps_def st)
  ultimately show ?thesis by (simp add: st new)
qed

end
