(* ===== verification/Transport.thy ===== *)
theory Transport
  imports Prelude
begin

text \<open>
  The line transport of src/src/transport.cpp: \<open>Connection::read_line\<close>, which reassembles lines
  from whatever chunks the kernel delivers, and \<open>Connection::write_line\<close>. What the kernel answers
  to each \<open>read\<close> and \<open>send\<close> is a list; an exhausted list is a peer that closed its end, and a
  kernel that takes everything. Scrubbing of buffers is not modelled.
\<close>

datatype recv =
    Received string        \<comment> \<open>bytes that arrived; no bytes at all is end of file\<close>
  | RecvInterrupted        \<comment> \<open>EINTR\<close>
  | RecvTimeout            \<comment> \<open>EAGAIN or EWOULDBLOCK\<close>
  | RecvFailed

datatype sent = Took nat | SendInterrupted | SendTimeout | SendFailed

record connection =
  c_buffer :: string
  c_scanned :: nat
  c_timed_out :: bool
  c_in :: "recv list"
  c_sends :: "sent list"
  c_out :: string          \<comment> \<open>the bytes the peer has been sent\<close>
  c_peer :: "string + nat" \<comment> \<open>what \<open>SO_PEERCRED\<close> answers\<close>

text \<open>A fresh connection on a descriptor with that future.\<close>

definition connection_of :: "recv list \<Rightarrow> sent list \<Rightarrow> string + nat \<Rightarrow> connection" where
  "connection_of ins sends peer =
     \<lparr>c_buffer = [], c_scanned = 0, c_timed_out = False, c_in = ins, c_sends = sends, c_out = [], c_peer = peer\<rparr>"

text \<open>\<open>char chunk[4096]\<close>.\<close>

definition chunk_size :: nat where "chunk_size = 4096"

text \<open>\<open>read_retry\<close>: what does not fit in the chunk stays in the socket.\<close>

fun read_retry :: "recv list \<Rightarrow> recv \<times> recv list" where
  "read_retry [] = (Received [], [])"
| "read_retry (RecvInterrupted # r) = read_retry r"
| "read_retry (Received s # r) =
     (if length s \<le> chunk_size then (Received s, r)
      else (Received (take chunk_size s), Received (drop chunk_size s) # r))"
| "read_retry (e # r) = (e, r)"

text \<open>\<open>buffer_.find('\n', scanned_)\<close>.\<close>

definition find_newline :: "connection \<Rightarrow> nat option" where
  "find_newline c = map_option (\<lambda>i. c_scanned c + i) (find_char LF (drop (c_scanned c) (c_buffer c)))"

text \<open>The bytes a socket still holds, and the answers.\<close>

fun weight :: "recv list \<Rightarrow> nat" where
  "weight [] = 0"
| "weight (Received s # r) = Suc (length s + weight r)"
| "weight (e # r) = Suc (weight r)"

lemma read_retry_weight:
  "read_retry ins = (Received s, rest) \<Longrightarrow> s \<noteq> [] \<Longrightarrow> weight rest + length s \<le> weight ins \<and> weight rest < weight ins"
  by (induction ins rule: read_retry.induct) (auto simp: chunk_size_def split: if_splits)

function read_line :: "nat \<Rightarrow> connection \<Rightarrow> string option \<times> connection" where
  "read_line max_line_bytes c =
     (case find_newline c of
        Some newline_pos \<Rightarrow>
          (Some (take newline_pos (c_buffer c)),
           c\<lparr>c_buffer := drop (Suc newline_pos) (c_buffer c), c_scanned := 0\<rparr>)
      | None \<Rightarrow>
          let c = c\<lparr>c_scanned := length (c_buffer c)\<rparr> in
          if length (c_buffer c) > max_line_bytes then (None, c) else
          (case read_retry (c_in c) of
             (RecvTimeout, rest) \<Rightarrow> (None, c\<lparr>c_timed_out := True, c_in := rest\<rparr>)
           | (RecvFailed, rest) \<Rightarrow> (None, c\<lparr>c_timed_out := False, c_in := rest\<rparr>)
           | (RecvInterrupted, rest) \<Rightarrow> (None, c\<lparr>c_timed_out := False, c_in := rest\<rparr>)
           | (Received s, rest) \<Rightarrow>
               if s = [] then (None, c\<lparr>c_in := rest\<rparr>)
               else read_line max_line_bytes (c\<lparr>c_buffer := c_buffer c @ s, c_in := rest\<rparr>)))"
  by pat_completeness auto
termination
  by (relation "measure (\<lambda>(m, c). weight (c_in c))") (auto dest!: read_retry_weight [OF sym])

declare read_line.simps [simp del]

text \<open>The rest of the socket's answers once everything has been offered to \<open>send\<close>.\<close>

function send_rest :: "string \<Rightarrow> nat \<Rightarrow> connection \<Rightarrow> bool \<times> connection" where
  "send_rest out sofar c =
     (if length out \<le> sofar then (True, c) else
      case c_sends c of
        [] \<Rightarrow> (True, c\<lparr>c_out := c_out c @ drop sofar out\<rparr>)
      | Took k # r \<Rightarrow>
          (let n = min k (length out - sofar) in
           send_rest out (sofar + n) (c\<lparr>c_sends := r, c_out := c_out c @ take n (drop sofar out)\<rparr>))
      | SendInterrupted # r \<Rightarrow> send_rest out sofar (c\<lparr>c_sends := r\<rparr>)
      | SendTimeout # r \<Rightarrow> (False, c\<lparr>c_sends := r, c_timed_out := True\<rparr>)
      | SendFailed # r \<Rightarrow> (False, c\<lparr>c_sends := r, c_timed_out := False\<rparr>))"
  by pat_completeness auto
termination
  by (relation "measure (\<lambda>(out, sofar, c). length (c_sends c))") auto

declare send_rest.simps [simp del]

definition write_line :: "string \<Rightarrow> connection \<Rightarrow> bool \<times> connection" where
  "write_line line c = send_rest (line @ [LF]) 0 c"

section \<open>Framing\<close>

text \<open>What the peer sends before it closes or fails, whatever the chunks.\<close>

fun received :: "recv list \<Rightarrow> string" where
  "received [] = []"
| "received (RecvInterrupted # r) = received r"
| "received (Received s # r) = (if s = [] then [] else s @ received r)"
| "received (e # r) = []"

definition pending :: "connection \<Rightarrow> string" where
  "pending c = c_buffer c @ received (c_in c)"

text \<open>The part of the buffer already searched holds no newline.\<close>

definition conn_inv :: "connection \<Rightarrow> bool" where
  "conn_inv c \<longleftrightarrow> LF \<notin> set (take (c_scanned c) (c_buffer c)) \<and> c_scanned c \<le> length (c_buffer c)"

lemma conn_inv_fresh [simp]: "conn_inv (connection_of ins sends peer)"
  by (simp add: conn_inv_def connection_of_def)

lemma find_newline_whole: "conn_inv c \<Longrightarrow> find_newline c = find_char LF (c_buffer c)"
proof -
  have "find_char LF (p @ s) = map_option (\<lambda>i. length p + i) (find_char LF s)" if "LF \<notin> set p" for p s
    using that by (induction p; cases "find_char LF s") (auto simp del: find_char_None)
  then show "conn_inv c \<Longrightarrow> ?thesis"
    unfolding conn_inv_def find_newline_def
    by (metis append_take_drop_id length_take min.absorb2)
qed

lemma read_retry_received:
  "read_retry ins = (Received s, rest) \<Longrightarrow> s \<noteq> [] \<Longrightarrow> received ins = s @ received rest \<and> length s \<le> chunk_size"
  by (induction ins rule: read_retry.induct) (auto simp: chunk_size_def split: if_splits)

lemma read_retry_end:
  "read_retry ins = (e, rest) \<Longrightarrow> (\<And>s. e = Received s \<Longrightarrow> s = []) \<Longrightarrow> received ins = []"
  by (induction ins rule: read_retry.induct) (auto simp: chunk_size_def split: if_splits)

text \<open>One round: answer from the buffer, give up, or go on with more bytes.\<close>

lemma read_line_cases:
  assumes "conn_inv c"
  obtains (line) i where "find_char LF (c_buffer c) = Some i"
      "read_line m c = (Some (take i (c_buffer c)), c\<lparr>c_buffer := drop (Suc i) (c_buffer c), c_scanned := 0\<rparr>)"
    | (too_long) "LF \<notin> set (c_buffer c)" "m < length (c_buffer c)"
      "read_line m c = (None, c\<lparr>c_scanned := length (c_buffer c)\<rparr>)"
    | (ended) c' where "LF \<notin> set (c_buffer c)" "received (c_in c) = []" "read_line m c = (None, c')"
      "c_buffer c' = c_buffer c"
    | (more) s rest where "LF \<notin> set (c_buffer c)" "length (c_buffer c) \<le> m"
      "read_retry (c_in c) = (Received s, rest)" "s \<noteq> []"
      "read_line m c = read_line m (c\<lparr>c_scanned := length (c_buffer c), c_buffer := c_buffer c @ s, c_in := rest\<rparr>)"
proof (cases "find_char LF (c_buffer c)")
  case (Some i)
  then show ?thesis
    using line assms by (simp add: read_line.simps [of m c] find_newline_whole)
next
  case None
  then have no: "LF \<notin> set (c_buffer c)" "find_newline c = None"
    using assms by (simp_all add: find_newline_whole)
  obtain e rest where e: "read_retry (c_in c) = (e, rest)" by (cases "read_retry (c_in c)")
  consider "m < length (c_buffer c)" | "length (c_buffer c) \<le> m" by linarith
  then show ?thesis
  proof cases
    case 1
    then show ?thesis using too_long no by (simp add: read_line.simps [of m c])
  next
    case 2
    show ?thesis
    proof (cases "\<exists>s. e = Received s \<and> s \<noteq> []")
      case True
      then show ?thesis
        using more no e 2 by (auto simp: read_line.simps [of m c])
    next
      case False
      have "received (c_in c) = []" using read_retry_end [OF e] False by blast
      moreover have "\<exists>c'. read_line m c = (None, c') \<and> c_buffer c' = c_buffer c"
        using no e 2 False by (cases e) (auto simp: read_line.simps [of m c])
      ultimately show ?thesis using ended no by blast
    qed
  qed
qed

lemma conn_inv_more:
  "LF \<notin> set (c_buffer c) \<Longrightarrow> conn_inv (c\<lparr>c_scanned := length (c_buffer c), c_buffer := c_buffer c @ s, c_in := rest\<rparr>)"
  by (simp add: conn_inv_def)

lemma pending_more:
  "read_retry (c_in c) = (Received s, rest) \<Longrightarrow> s \<noteq> [] \<Longrightarrow>
   pending (c\<lparr>c_scanned := k, c_buffer := c_buffer c @ s, c_in := rest\<rparr>) = pending c"
  by (simp add: pending_def read_retry_received)

text \<open>A line that is returned is the next line of the stream, and only it is consumed.\<close>

lemma read_line_Some:
  "conn_inv c \<Longrightarrow> length (c_buffer c) \<le> m + chunk_size \<Longrightarrow> read_line m c = (Some line, c') \<Longrightarrow>
   pending c = line @ LF # pending c' \<and> LF \<notin> set line \<and> length line < m + chunk_size \<and> conn_inv c' \<and>
   length (c_buffer c') \<le> m + chunk_size"
proof (induction "weight (c_in c)" arbitrary: c rule: less_induct)
  case less
  from less.prems(1) show ?case
  proof (cases rule: read_line_cases [where m = m])
    case (line i)
    note f = find_char_split [OF line(1)]
    have "c_buffer c = take i (c_buffer c) @ LF # drop (Suc i) (c_buffer c)" "i < length (c_buffer c)"
      using f by simp_all
    then show ?thesis
      using line less.prems(2,3) f by (auto simp: pending_def conn_inv_def)
  next
    case (more s rest)
    have "weight rest < weight (c_in c)" "length (c_buffer c @ s) \<le> m + chunk_size"
      using read_retry_weight [OF more(3,4)] read_retry_received [OF more(3,4)] more(2) by simp_all
    with less.hyps [of "c\<lparr>c_scanned := length (c_buffer c), c_buffer := c_buffer c @ s, c_in := rest\<rparr>"]
    show ?thesis
      using less.prems(3) more(5) conn_inv_more [OF more(1)] pending_more [OF more(3,4)] by simp
  qed (use less.prems in auto)
qed

text \<open>Whatever comes back, and however much the peer sends without a newline, no more is buffered.\<close>

lemma read_line_buffer:
  "conn_inv c \<Longrightarrow> length (c_buffer c) \<le> m + chunk_size \<Longrightarrow> read_line m c = (o1, c') \<Longrightarrow>
   (case o1 of None \<Rightarrow> 0 | Some line \<Rightarrow> Suc (length line)) + length (c_buffer c') \<le> m + chunk_size"
proof (induction "weight (c_in c)" arbitrary: c rule: less_induct)
  case less
  from less.prems(1) show ?case
  proof (cases rule: read_line_cases [where m = m])
    case (line i)
    then show ?thesis using less.prems(2,3) find_char_split [OF line(1)] by auto
  next
    case (more s rest)
    have "weight rest < weight (c_in c)" "length (c_buffer c @ s) \<le> m + chunk_size"
      using read_retry_weight [OF more(3,4)] read_retry_received [OF more(3,4)] more(2) by simp_all
    with less.hyps [of "c\<lparr>c_scanned := length (c_buffer c), c_buffer := c_buffer c @ s, c_in := rest\<rparr>"]
    show ?thesis using less.prems(3) more(5) conn_inv_more [OF more(1)] by simp
  qed (use less.prems in auto)
qed

text \<open>A line within the limit is always returned.\<close>

lemma read_line_complete:
  "conn_inv c \<Longrightarrow> pending c = line @ LF # rest \<Longrightarrow> LF \<notin> set line \<Longrightarrow> length line \<le> m \<Longrightarrow>
   \<exists>c'. read_line m c = (Some line, c')"
proof (induction "weight (c_in c)" arbitrary: c rule: less_induct)
  case less
  have buffer: "length (c_buffer c) \<le> length line \<and> c_buffer c = take (length (c_buffer c)) line \<and> received (c_in c) \<noteq> []"
    if "LF \<notin> set (c_buffer c)"
  proof -
    have "length (c_buffer c) \<le> length line"
    proof (rule ccontr)
      assume "\<not> ?thesis"
      then have "pending c ! length line \<in> set (c_buffer c)"
        by (simp add: pending_def nth_append)
      then show False using that less.prems(2) by (simp add: nth_append)
    qed
    moreover have "received (c_in c) \<noteq> []"
      using less.prems(2) that by (auto simp: pending_def)
    moreover have "take (length (c_buffer c)) (pending c) = c_buffer c"
      by (simp add: pending_def)
    ultimately show ?thesis using less.prems(2) by simp
  qed
  from less.prems(1) show ?case
  proof (cases rule: read_line_cases [where m = m])
    case (line i)
    have "find_char LF (pending c) = Some i"
    proof -
      have "find_char LF (p @ q) = Some i" if "find_char LF p = Some i" for p q i
        using that by (induction p arbitrary: i) (auto split: if_splits)
      then show ?thesis using line(1) by (simp add: pending_def)
    qed
    then have "i = length line"
      using less.prems(2,3) by (simp add: find_char_append)
    moreover have "take i (c_buffer c) = take i (pending c)"
      using find_char_split [OF line(1)] by (simp add: pending_def)
    ultimately show ?thesis using line(2) less.prems(2) by simp
  next
    case (more s rest')
    with less.hyps [of "c\<lparr>c_scanned := length (c_buffer c), c_buffer := c_buffer c @ s, c_in := rest'\<rparr>"]
    show ?thesis
      using less.prems read_retry_weight [OF more(3,4)] conn_inv_more [OF more(1)] pending_more [OF more(3,4)]
      by simp
  qed (use less.prems(4) buffer in auto)
qed

section \<open>Writing a line\<close>

lemma send_rest_out:
  "send_rest out sofar c = (ok, c') \<Longrightarrow> sofar \<le> length out \<Longrightarrow>
   \<exists>k. sofar + k \<le> length out \<and> c_out c' = c_out c @ take k (drop sofar out) \<and>
     (ok \<longleftrightarrow> sofar + k = length out) \<and> c_buffer c' = c_buffer c \<and> c_in c' = c_in c \<and> c_peer c' = c_peer c \<and>
     c_scanned c' = c_scanned c"
proof (induction out sofar c arbitrary: ok c' rule: send_rest.induct)
  case (1 out sofar c)
  show ?case
  proof (cases "length out \<le> sofar")
    case True
    with 1 show ?thesis by (auto simp: send_rest.simps [of out sofar c] intro!: exI [of _ 0])
  next
    case False
    show ?thesis
    proof (cases "c_sends c")
      case Nil
      with False 1(3) show ?thesis
        by (auto simp: send_rest.simps [of out sofar c] intro!: exI [of _ "length out - sofar"])
    next
      case (Cons a r)
      show ?thesis
      proof (cases a)
        case (Took k)
        define n where "n = min k (length out - sofar)"
        let ?c = "c\<lparr>c_sends := r, c_out := c_out c @ take n (drop sofar out)\<rparr>"
        have "send_rest out (sofar + n) ?c = (ok, c')"
          using False 1(3) Cons Took by (simp add: send_rest.simps [of out sofar c] n_def Let_def)
        moreover have "sofar + n \<le> length out" using False by (simp add: n_def)
        ultimately obtain k' where k': "sofar + n + k' \<le> length out"
          "c_out c' = c_out ?c @ take k' (drop (sofar + n) out)" "ok \<longleftrightarrow> sofar + n + k' = length out"
          "c_buffer c' = c_buffer c \<and> c_in c' = c_in c \<and> c_peer c' = c_peer c \<and> c_scanned c' = c_scanned c"
          using 1(1) [OF False Cons Took n_def] by auto
        then show ?thesis
          using take_add [of n k' "drop sofar out"]
          by (intro exI [of _ "n + k'"]) (simp add: add.commute add.left_commute)
      qed (use False 1 Cons in \<open>auto simp: send_rest.simps [of out sofar c] intro!: exI [of _ 0]\<close>)
    qed
  qed
qed

text \<open>True: the peer has the whole line. False: it has a part of it, without the newline.\<close>

lemma write_line_out:
  assumes "write_line line c = (ok, c')"
  shows "\<exists>k. c_out c' = c_out c @ take k (line @ [LF]) \<and> k \<le> Suc (length line) \<and> (ok \<longleftrightarrow> k = Suc (length line))"
    and "c_buffer c' = c_buffer c \<and> c_in c' = c_in c \<and> c_peer c' = c_peer c \<and> c_scanned c' = c_scanned c"
  using send_rest_out [of "line @ [LF]" 0 c ok c'] assms by (auto simp: write_line_def)

lemma write_line_pending: "write_line line c = (ok, c') \<Longrightarrow> pending c' = pending c \<and> conn_inv c' = conn_inv c"
  using write_line_out(2) by (simp add: pending_def conn_inv_def)

text \<open>A kernel that neither fails nor times out takes the whole line, in whatever pieces.\<close>

lemma send_rest_all:
  "SendTimeout \<notin> set (c_sends c) \<Longrightarrow> SendFailed \<notin> set (c_sends c) \<Longrightarrow> fst (send_rest out sofar c)"
proof (induction out sofar c rule: send_rest.induct)
  case (1 out sofar c)
  show ?case
  proof (cases "c_sends c")
    case (Cons a r)
    then show ?thesis
      using 1 by (cases a) (simp_all add: send_rest.simps [of out sofar c] Let_def)
  qed (simp add: send_rest.simps [of out sofar c])
qed

lemma write_line_sent:
  assumes "write_line line c = (ok, c1)"
  shows "\<exists>sent. c_out c1 = c_out c @ sent \<and> (if ok then sent = line @ [LF] else \<exists>s. line = sent @ s)"
proof -
  obtain k where k: "c_out c1 = c_out c @ take k (line @ [LF])" "k \<le> Suc (length line)"
    "ok \<longleftrightarrow> k = Suc (length line)"
    using write_line_out(1) [OF assms] by blast
  show ?thesis
    using k append_take_drop_id [of k line, symmetric] by (cases ok) (auto intro!: exI [of _ "drop k line"])
qed

section \<open>Frames\<close>

lemma read_line_frame:
  "read_line m c = (o1, c') \<Longrightarrow> c_out c' = c_out c \<and> c_sends c' = c_sends c \<and> c_peer c' = c_peer c"
proof (induction m c rule: read_line.induct)
  case (1 m c)
  show ?case
    using 1(2) 1(1) [OF _ refl]
    by (auto simp: read_line.simps [of m c] Let_def split: option.splits if_splits prod.splits recv.splits)
qed

text \<open>A kernel that takes everything takes the line in one piece.\<close>

lemma write_line_all: "c_sends c = [] \<Longrightarrow> write_line line c = (True, c\<lparr>c_out := c_out c @ line @ [LF]\<rparr>)"
  by (simp add: write_line_def send_rest.simps)

lemma read_line_nothing: "conn_inv c \<Longrightarrow> LF \<notin> set (pending c) \<Longrightarrow> length (c_buffer c) \<le> m + chunk_size \<Longrightarrow>
  \<exists>c'. read_line m c = (None, c')"
proof -
  assume a: "conn_inv c" "LF \<notin> set (pending c)" "length (c_buffer c) \<le> m + chunk_size"
  obtain o1 c' where r: "read_line m c = (o1, c')" by (cases "read_line m c")
  then show ?thesis
    using read_line_Some [OF a(1,3), of _ c'] a(2) by (cases o1) auto
qed

end
