(* ===== verification/Daemon.thy ===== *)
theory Daemon
  imports Store Transport Paths
begin

text \<open>
  The daemon of src/src/daemon.cpp: dispatch of one request, the loop over the lines of a
  connection, startup with its automatic rotation, and the loop over connections. What is
  printed to stderr is not modelled.
\<close>

definition bindM :: "'a store_act \<Rightarrow> ('a \<Rightarrow> 'b store_act) \<Rightarrow> 'b store_act" where
  "bindM m f st w =
     (case m st w of (Inl e, st', w') \<Rightarrow> (Inl e, st', w') | (Inr x, st', w') \<Rightarrow> f x st' w')"

definition liftM :: "string + 'a \<Rightarrow> 'a store_act" where
  "liftM r st w = ((case r of Inl what \<Rightarrow> Inl (Throw what) | Inr x \<Rightarrow> Inr x), st, w)"

text \<open>A \<open>const\<close> member function.\<close>

definition readM :: "(store \<Rightarrow> string + 'a) \<Rightarrow> 'a store_act" where
  "readM f st w = liftM (f st) st w"

section \<open>One request\<close>

definition token_matches :: "libs \<Rightarrow> string \<Rightarrow> string \<Rightarrow> bool" where
  "token_matches L expected got =
     (if length expected \<noteq> length got then False else sodium_memcmp L expected got = 0)"

definition dispatch :: "libs \<Rightarrow> request \<Rightarrow> 64 word \<Rightarrow> string store_act" where
  "dispatch L req now =
     (if r_op req = ''get'' then
        if r_key req = [] then liftM (error_response L ''missing key'')
        else bindM (readM (store_get L (r_key req))) (\<lambda>v.
          case v of None \<Rightarrow> liftM (error_response L kErrNotFound) | Some s \<Rightarrow> liftM (ok_value L s))
      else if r_op req = ''set'' then
        if r_key req = [] then liftM (error_response L ''missing key'')
        else bindM (store_set L (r_key req) (r_value req)) (\<lambda>_. liftM (ok_response L))
      else if r_op req = ''delete'' then
        if r_key req = [] then liftM (error_response L ''missing key'')
        else bindM (store_remove L (r_key req)) (\<lambda>removed.
          if \<not> removed then liftM (error_response L kErrNotFound) else liftM (ok_response L))
      else if r_op req = ''list'' then
        bindM (readM (\<lambda>st. Inr (store_list st))) (\<lambda>keys. liftM (ok_keys L keys))
      else if r_op req = ''getprefix'' then
        if r_key req = [] then liftM (error_response L ''missing prefix'')
        else bindM (readM (get_prefix L (r_key req))) (\<lambda>values. liftM (ok_values L values))
      else if r_op req = ''rotate'' then
        if r_old req = [] then liftM (error_response L ''missing passphrase'')
        else bindM (store_rotate L (r_old req) now) (\<lambda>_. liftM (ok_response L))
      else if r_op req = ''passwd'' then
        if r_old req = [] \<or> r_new req = [] then liftM (error_response L ''missing passphrase'')
        else bindM (change_passphrase L (r_old req) (r_new req) now) (\<lambda>_. liftM (ok_response L))
      else liftM (error_response L (''unknown op: '' @ r_op req)))"

text \<open>The token check, and the handler that turns an exception into a response.\<close>

definition respond :: "libs \<Rightarrow> string \<Rightarrow> request \<Rightarrow> string store_act" where
  "respond L expected_token req st w =
     (if \<not> token_matches L expected_token (r_token req)
      then liftM (error_response L kErrInvalidToken) st w
      else
        (case read_clock L w of
           (Inl e, w) \<Rightarrow> (Inl e, st, w)
         | (Inr now, w) \<Rightarrow>
             (case dispatch L req now st w of
                (Inl (Throw what), st', w') \<Rightarrow> liftM (error_response L what) st' w'
              | r \<Rightarrow> r)))"

section \<open>One connection\<close>

lemma read_line_shrinks:
  "read_line m c = (Some line, c') \<Longrightarrow>
   weight (c_in c') + length (c_buffer c') < weight (c_in c) + length (c_buffer c)"
proof (induction m c rule: read_line.induct)
  case (1 m c)
  show ?case
  proof (cases "find_newline c")
    case (Some i)
    then have "i < length (c_buffer c)"
      by (auto simp: find_newline_def dest!: find_char_split)
    then show ?thesis using Some 1(2) by (auto simp: read_line.simps [of m c])
  next
    case None
    obtain e rest where e: "read_retry (c_in c) = (e, rest)" by (cases "read_retry (c_in c)")
    show ?thesis
    proof (cases "\<exists>s. e = Received s \<and> s \<noteq> []")
      case True
      then obtain s where s: "e = Received s" "s \<noteq> []" by blast
      have len: "\<not> m < length (c_buffer c)"
        using 1(2) None by (auto simp: read_line.simps [of m c])
      let ?c = "c\<lparr>c_scanned := length (c_buffer c), c_buffer := c_buffer c @ s, c_in := rest\<rparr>"
      have "read_line m ?c = (Some line, c')"
        using 1(2) None e s len by (simp add: read_line.simps [of m c])
      moreover have "weight rest + length s \<le> weight (c_in c)"
        using read_retry_weight [OF e [unfolded s(1)] s(2)] by simp
      ultimately show ?thesis
        using 1(1) [OF None refl, of e rest s] e s len by simp
    next
      case False
      then show ?thesis
        using 1(2) None e by (cases e) (auto simp: read_line.simps [of m c] Let_def split: if_splits)
    qed
  qed
qed

lemma write_line_keeps:
  "c_buffer (snd (write_line line c)) = c_buffer c" "c_in (snd (write_line line c)) = c_in c"
  by (cases "write_line line c"; simp add: write_line_out(2))+

lemma write_line_keeps_of:
  "write_line line c = (ok, c') \<Longrightarrow> c_buffer c' = c_buffer c \<and> c_in c' = c_in c"
  using write_line_keeps [of line c] by simp

function serve_lines ::
  "libs \<Rightarrow> string \<Rightarrow> connection \<Rightarrow> store \<Rightarrow> world \<Rightarrow> (exn + unit) \<times> connection \<times> store \<times> world" where
  "serve_lines L expected_token c st w =
     (case read_line kMaxRequestBytes c of
        (None, c') \<Rightarrow> (Inr (), c', st, w)
      | (Some line, c') \<Rightarrow>
          (case parse_request L line of
             Inl what \<Rightarrow> (Inl (Throw what), c', st, w)
           | Inr None \<Rightarrow>
               (case error_response L ''malformed request'' of
                  Inl what \<Rightarrow> (Inl (Throw what), c', st, w)
                | Inr response \<Rightarrow> serve_lines L expected_token (snd (write_line response c')) st w)
           | Inr (Some req) \<Rightarrow>
               (case respond L expected_token req st w of
                  (Inl e, st', w') \<Rightarrow> (Inl e, c', st', w')
                | (Inr response, st', w') \<Rightarrow>
                    (case write_line response c' of
                       (False, c'') \<Rightarrow> (Inr (), c'', st', w')
                     | (True, c'') \<Rightarrow> serve_lines L expected_token c'' st' w'))))"
  by pat_completeness auto
termination
  by (relation "measure (\<lambda>(L, tok, c, st, w). weight (c_in c) + length (c_buffer c))")
    (auto simp: write_line_keeps dest!: read_line_shrinks [OF sym] dest: write_line_keeps_of [OF sym])

declare serve_lines.simps [simp del]

definition serve_connection ::
  "libs \<Rightarrow> nat \<Rightarrow> string \<Rightarrow> connection \<Rightarrow> store \<Rightarrow> world \<Rightarrow> (exn + unit) \<times> connection \<times> store \<times> world" where
  "serve_connection L uid expected_token c st w =
     (case c_peer c of
        Inl what \<Rightarrow> (Inl (Throw what), c, st, w)
      | Inr peer \<Rightarrow>
          if peer \<noteq> uid then
            (case error_response L ''permission denied: peer uid mismatch'' of
               Inl what \<Rightarrow> (Inl (Throw what), c, st, w)
             | Inr response \<Rightarrow> (Inr (), snd (write_line response c), st, w))
          else serve_lines L expected_token c st w)"

section \<open>The process\<close>

definition kRotateAfterDays :: nat where "kRotateAfterDays = 30"

definition rotate_after :: "64 word" where
  "rotate_after = of_nat kRotateAfterDays * 24 * 3600"

definition rotation_due :: "64 word \<Rightarrow> store \<Rightarrow> bool" where
  "rotation_due now st \<longleftrightarrow>
     now > key_created_at (st_env st) \<and> now - key_created_at (st_env st) > rotate_after"

definition unlock :: "libs \<Rightarrow> paths \<Rightarrow> string \<Rightarrow> store act" where
  "unlock L paths passphrase w =
     (case store_open L (p_store paths) passphrase w of
        (Inl (Throw what), w') \<Rightarrow>
          (Inl (Throw (''cannot open store: '' @ what @ [LF] @
             ''  (run 'secretov init' first, or check your passphrase)'')), w')
      | r \<Rightarrow> r)"

definition auto_rotate :: "libs \<Rightarrow> string \<Rightarrow> 64 word \<Rightarrow> store \<Rightarrow> store act" where
  "auto_rotate L passphrase now st w =
     (if rotation_due now st then
        (case store_rotate L passphrase now st w of
           (Inl (Throw what), st', w') \<Rightarrow> (Inl (Throw (''auto-rotation failed: '' @ what)), w')
         | (Inl Killed, st', w') \<Rightarrow> (Inl Killed, w')
         | (Inr _, st', w') \<Rightarrow> (Inr st', w'))
      else (Inr st, w))"

definition read_token :: "paths \<Rightarrow> string act" where
  "read_token paths w =
     (case read_file_string (p_token paths) w of
        (Inl (Throw what), w') \<Rightarrow>
          (Inl (Throw (''cannot read token file '' @ quoted (p_token paths) @ '': '' @ what @ [LF] @
             ''  (run 'secretov init' first)'')), w')
      | (Inl Killed, w') \<Rightarrow> (Inl Killed, w')
      | (Inr contents, w') \<Rightarrow>
          (let expected_token = rstrip contents in
           if expected_token = []
           then (Inl (Throw (''token file '' @ quoted (p_token paths) @ '' is empty'')), w')
           else (Inr expected_token, w')))"

text \<open>
  From \<open>main\<close> to the listener: whether the core limit was set, whether something answers at the
  socket, the passphrase read, and the store, its key rotated when due, with the token.
\<close>

definition daemon_start ::
  "libs \<Rightarrow> string option \<Rightarrow> string + paths \<Rightarrow> bool \<Rightarrow> string + string \<Rightarrow> (store \<times> string) act" where
  "daemon_start L rlimit_error resolved answered passphrase_read =
     bindA (case rlimit_error of Some e \<Rightarrow> throwA (''setrlimit(RLIMIT_CORE) failed: '' @ e) | None \<Rightarrow> returnA ())
       (\<lambda>_.
     bindA (liftA resolved) (\<lambda>paths.
     bindA (liftA (refuse_if answered (''daemon already running at '' @ p_socket paths))) (\<lambda>_.
     bindA (liftA passphrase_read) (\<lambda>passphrase.
     bindA (read_clock L) (\<lambda>now.
     bindA (unlock L paths passphrase) (\<lambda>st.
     bindA (auto_rotate L passphrase now st) (\<lambda>st.
     bindA (read_token paths) (\<lambda>expected_token.
       returnA (st, expected_token)))))))))"

text \<open>The accept loop; \<open>None\<close> is an \<open>accept\<close> that failed. It only ends when the process is killed.\<close>

fun daemon_loop ::
  "libs \<Rightarrow> nat \<Rightarrow> string \<Rightarrow> connection option list \<Rightarrow> store \<Rightarrow> world \<Rightarrow> bool \<times> store \<times> world" where
  "daemon_loop L uid expected_token [] st w = (True, st, w)"
| "daemon_loop L uid expected_token (None # conns) st w = daemon_loop L uid expected_token conns st w"
| "daemon_loop L uid expected_token (Some c # conns) st w =
     (case serve_connection L uid expected_token c st w of
        (Inl Killed, c', st', w') \<Rightarrow> (False, st', w')
      | (_, c', st', w') \<Rightarrow> daemon_loop L uid expected_token conns st' w')"

end
