(* ===== verification/Service.thy ===== *)
theory Service
  imports StoreOpen Daemon
begin

text \<open>
  The interface the daemon relies on: a store that answers and changes as a finite map from
  keys to values. The locale states it, the client lemmas are proved inside it, and it is
  interpreted on the operations of the encrypted store.
\<close>

locale kv_service =
  fixes view :: "'s \<Rightarrow> string \<Rightarrow> string option"
    and ok :: "'s \<Rightarrow> bool"
    and fetch :: "string \<Rightarrow> 's \<Rightarrow> string + string option"
    and put :: "string \<Rightarrow> string \<Rightarrow> 's \<Rightarrow> 'w \<Rightarrow> (exn + unit) \<times> 's \<times> 'w"
    and erase :: "string \<Rightarrow> 's \<Rightarrow> 'w \<Rightarrow> (exn + bool) \<times> 's \<times> 'w"
    and keys :: "'s \<Rightarrow> string list"
    and scope :: "string \<Rightarrow> 's \<Rightarrow> string + (string \<times> string) list"
  assumes fetch_view: "ok st \<Longrightarrow> fetch k st = Inr (view st k)"
    and put_returns: "ok st \<Longrightarrow> put k v st w = (Inr u, st', w') \<Longrightarrow> ok st' \<and> view st' = (view st)(k \<mapsto> v)"
    and put_throws: "put k v st w = (Inl e, st', w') \<Longrightarrow> st' = st"
    and erase_returns: "ok st \<Longrightarrow> erase k st w = (Inr b, st', w') \<Longrightarrow>
      ok st' \<and> b = (view st k \<noteq> None) \<and> view st' = (view st)(k := None)"
    and erase_throws: "erase k st w = (Inl e, st', w') \<Longrightarrow> st' = st"
    and keys_view: "ok st \<Longrightarrow> set (keys st) = dom (view st) \<and> sorted (keys st) \<and> distinct (keys st)"
    and scope_view: "ok st \<Longrightarrow> \<exists>m. scope p st = Inr m \<and> smap_inv m \<and>
      (\<forall>k. map_of m k = (if has_prefix k p then view st k else None))"
begin

lemma read_own_write:
  "ok st \<Longrightarrow> put k v st w = (Inr u, st', w') \<Longrightarrow> fetch k st' = Inr (Some v)"
  by (metis put_returns fetch_view fun_upd_same)

lemma other_keys:
  "ok st \<Longrightarrow> put k v st w = (Inr u, st', w') \<Longrightarrow> j \<noteq> k \<Longrightarrow> fetch j st' = fetch j st"
  by (metis put_returns fetch_view fun_upd_other)

lemma erased_is_gone:
  "ok st \<Longrightarrow> erase k st w = (Inr b, st', w') \<Longrightarrow> fetch k st' = Inr None \<and> k \<notin> set (keys st')"
  by (metis erase_returns fetch_view keys_view fun_upd_same domIff)

lemma keys_are: "ok st \<Longrightarrow> finite (dom (view st)) \<and> keys st = sorted_list_of_set (dom (view st))"
  using keys_view sorted_list_of_set.idem_if_sorted_distinct by (metis List.finite_set)

lemma keys_after_put:
  "ok st \<Longrightarrow> put k v st w = (Inr u, st', w') \<Longrightarrow> set (keys st') = insert k (set (keys st))"
  by (metis put_returns keys_view dom_fun_upd option.distinct(1))

lemma scope_agrees:
  assumes "ok st" and "scope p st = Inr m"
  shows "(k, v) \<in> set m \<longleftrightarrow> has_prefix k p \<and> fetch k st = Inr (Some v)"
proof -
  obtain m' where "scope p st = Inr m'" "smap_inv m'"
    "\<forall>k. map_of m' k = (if has_prefix k p then view st k else None)"
    using scope_view [OF assms(1)] by blast
  then show ?thesis using assms fetch_view by (auto simp: smap_entry_iff)
qed

lemma scope_unique:
  assumes "ok st" and "smap_inv m" and "\<And>k. map_of m k = (if has_prefix k p then view st k else None)"
  shows "scope p st = Inr m"
proof -
  obtain m' where m': "scope p st = Inr m'" "smap_inv m'"
    "\<forall>k. map_of m' k = (if has_prefix k p then view st k else None)"
    using scope_view [OF assms(1)] by blast
  have "(k, v) \<in> set m \<longleftrightarrow> (k, v) \<in> set m'" for k v
    using assms(2,3) m'(2,3) by (simp add: smap_entry_iff)
  then have "set m = set m'" by auto
  moreover have "sorted_wrt (<) (map fst m)" "sorted_wrt (<) (map fst m')"
    using assms(2) m'(2) by (simp_all add: smap_inv_def)
  ultimately have "m = m'"
    by (metis map_sorted_distinct_set_unique distinct_map strict_sorted_iff Un_absorb)
  then show ?thesis using m' by simp
qed

end

section \<open>The store provides it\<close>

text \<open>Every stored value is a string.\<close>

definition text_store :: "store \<Rightarrow> bool" where
  "text_store st \<longleftrightarrow> (\<forall>j \<in> snd ` set (st_data st). \<exists>s. j = JString s)"

fun text_of :: "json \<Rightarrow> string" where
  "text_of (JString s) = s"
| "text_of _ = []"

definition store_view :: "store \<Rightarrow> string \<Rightarrow> string option" where
  "store_view st k = map_option text_of (map_of (st_data st) k)"

definition service_ok :: "libs \<Rightarrow> store \<Rightarrow> bool" where
  "service_ok L st \<longleftrightarrow> wf_store L st \<and> text_store st"

lemma dom_store_view: "dom (store_view st) = fst ` set (st_data st)"
  by (auto simp: store_view_def dom_map_of_conv_image_fst [symmetric])

lemma text_store_lookup: "text_store st \<Longrightarrow> map_of (st_data st) k = Some j \<Longrightarrow> j = JString (text_of j)"
  by (force simp: text_store_def dest!: map_of_SomeD)

lemma store_get_view: "text_store st \<Longrightarrow> store_get L k st = Inr (store_view st k)"
  by (cases "map_of (st_data st) k")
    (auto simp: store_get_def store_view_def get_string_def dest: text_store_lookup split: json.splits)

lemma text_store_put: "text_store st \<Longrightarrow> text_store (st\<lparr>st_data := smap_put k (JString v) (st_data st)\<rparr>)"
  by (auto simp: text_store_def smap_put_def)

lemma text_store_erase: "text_store st \<Longrightarrow> text_store (st\<lparr>st_data := smap_erase k (st_data st)\<rparr>)"
  by (auto simp: text_store_def smap_erase_def)

lemma text_store_data: "st_data st' = st_data st \<Longrightarrow> text_store st' = text_store st"
  by (simp add: text_store_def)

lemma store_view_put:
  "st_data st' = smap_put k (JString v) (st_data st) \<Longrightarrow> store_view st' = (store_view st)(k \<mapsto> v)"
  by (rule ext) (simp add: store_view_def smap_find_put)

lemma store_view_erase:
  "smap_inv (st_data st) \<Longrightarrow> st_data st' = smap_erase k (st_data st) \<Longrightarrow> store_view st' = (store_view st)(k := None)"
  by (rule ext) (simp add: store_view_def smap.lookup_erase)

lemma store_set_returns:
  "store_set L k v st w = (Inr u, st', w') \<Longrightarrow> st' = st\<lparr>st_data := smap_put k (JString v) (st_data st)\<rparr>"
  by (auto simp: store_set_def Let_def split: prod.splits sum.splits)

lemma store_remove_returns:
  "store_remove L k st w = (Inr b, st', w') \<Longrightarrow>
   b = (map_of (st_data st) k \<noteq> None) \<and> st_data st' = smap_erase k (st_data st) \<and>
   st' = st\<lparr>st_data := smap_erase k (st_data st)\<rparr>"
  by (auto simp: store_remove_def Let_def smap_erase_missing split: prod.splits sum.splits if_splits)

lemma store_set_throws: "store_set L k v st w = (Inl e, st', w') \<Longrightarrow> st' = st"
  by (auto simp: store_set_def Let_def split: prod.splits sum.splits)

lemma store_remove_throws: "store_remove L k st w = (Inl e, st', w') \<Longrightarrow> st' = st"
  by (auto simp: store_remove_def Let_def split: prod.splits sum.splits if_splits)

text \<open>The entries under a prefix, in the order of the map.\<close>

lemma collect_strings:
  "\<forall>j \<in> snd ` set es. \<exists>s. j = JString s \<Longrightarrow>
   collectE (\<lambda>(k, j). bindE (get_string L j) (\<lambda>s. Inr (k, s))) es = Inr (map (\<lambda>(k, j). (k, text_of j)) es)"
  by (induction es) (auto simp: get_string_def)

lemma fold_put_inv: "smap_inv m0 \<Longrightarrow> smap_inv (fold (\<lambda>(k, s) out. smap_put k s out) kvs m0)"
  by (induction kvs arbitrary: m0) (auto simp: smap.inv_put)

lemma fold_put_find:
  "map_of (fold (\<lambda>(k, s) out. smap_put k s out) kvs m0) k =
     (case map_of (rev kvs) k of Some v \<Rightarrow> Some v | None \<Rightarrow> map_of m0 k)"
  by (induction kvs arbitrary: m0) (auto simp: smap_find_put map_add_def split: option.splits)

lemma map_of_rev: "distinct (map fst m) \<Longrightarrow> map_of (rev m) = map_of m"
proof (induction m)
  case (Cons e m)
  then have "fst e \<notin> dom (map_of m)" by (simp add: dom_map_of_conv_image_fst)
  then show ?case
    using Cons by (auto simp: map_add_def fun_eq_iff split: option.splits)
qed simp

lemma get_prefix_view:
  assumes "smap_inv (st_data st)" and "text_store st"
  shows "\<exists>m. get_prefix L p st = Inr m \<and> smap_inv m \<and>
    (\<forall>k. map_of m k = (if has_prefix k p then store_view st k else None))"
proof -
  define es where "es = filter (\<lambda>(k, j). has_prefix k p) (st_data st)"
  define kvs where "kvs = map (\<lambda>(k, j). (k, text_of j)) es"
  define m where "m = fold (\<lambda>(k, s) out. smap_put k s out) kvs []"
  have "\<forall>j \<in> snd ` set es. \<exists>s. j = JString s"
    using assms(2) by (auto simp: es_def text_store_def)
  then have "get_prefix L p st = Inr m"
    by (simp add: get_prefix_def es_def [symmetric] collect_strings kvs_def m_def)
  moreover have "smap_inv m" by (simp add: m_def fold_put_inv)
  moreover have "map_of m k = (if has_prefix k p then store_view st k else None)" for k
  proof -
    have "map fst kvs = map fst es" by (simp add: kvs_def case_prod_beta comp_def)
    moreover have "smap_inv es" using assms(1) by (simp add: es_def smap_inv_filter)
    ultimately have "map_of m k = map_of kvs k"
      by (simp add: m_def fold_put_find map_of_rev smap.keys_distinct split: option.splits)
    also have "\<dots> = map_option text_of (map_of es k)"
      by (simp add: kvs_def map_of_map)
    also have "map_of es k = (if has_prefix k p then map_of (st_data st) k else None)"
      using map_of_filter_key [where p = "\<lambda>k. has_prefix k p", of "st_data st" k]
      by (simp add: es_def case_prod_unfold)
    finally show ?thesis by (simp add: store_view_def)
  qed
  ultimately show ?thesis by blast
qed

lemma store_list_keys:
  assumes "smap_inv (st_data st)"
  shows "store_list st = map fst (st_data st)"
  using smap.keys_sorted [OF assms] by (simp add: store_list_def sorted_sort_id)

interpretation kv: kv_service store_view "service_ok L" "store_get L" "store_set L" "store_remove L" store_list
  "get_prefix L" for L
proof (unfold_locales, goal_cases)
  case (1 st k)
  then show ?case by (simp add: service_ok_def store_get_view)
next
  case (2 st k v w u st' w')
  note st' = store_set_returns [OF 2(2)]
  then show ?case
    using 2(1) by (auto simp: service_ok_def wf_store_def smap.inv_put text_store_put intro: store_view_put)
next
  case 3
  then show ?case by (rule store_set_throws)
next
  case (4 st k w b st' w')
  note st' = store_remove_returns [OF 4(2)]
  then show ?case
    using 4(1) by (auto simp: service_ok_def wf_store_def smap.inv_erase text_store_erase store_view_def
        intro!: store_view_erase)
next
  case 5
  then show ?case by (rule store_remove_throws)
next
  case (6 st)
  then have "smap_inv (st_data st)" by (simp add: service_ok_def wf_store_def)
  then show ?case
    using smap.keys_sorted smap.keys_distinct by (auto simp: store_list_keys dom_store_view)
next
  case (7 st p)
  then show ?case by (simp add: service_ok_def wf_store_def get_prefix_view)
qed

end
