(* ===== verification/DaemonFacts.thy ===== *)
theory DaemonFacts
  imports Service
begin

text \<open>
  What the daemon guarantees: it answers as a key-value map, a client without the token learns
  and changes nothing, and memory and disk agree whatever the clients send.
\<close>

section \<open>Methods that keep memory and disk together\<close>

text \<open>Well formed, and some passphrase still unwraps its data key.\<close>

definition good_store :: "libs \<Rightarrow> store \<Rightarrow> bool" where
  "good_store L st \<longleftrightarrow> wf_store L st \<and> (\<exists>p. unwraps L p st)"

definition safe_end :: "libs \<Rightarrow> store \<Rightarrow> bool \<Rightarrow> store \<Rightarrow> world \<Rightarrow> bool" where
  "safe_end L st killed st' w' \<longleftrightarrow>
     st_path st' = st_path st \<and> good_store L st' \<and>
     (\<exists>d. st_path d = st_path st \<and> good_store L d \<and> synced L d w' \<and> (\<not> killed \<longrightarrow> d = st'))"

definition safe_method :: "libs \<Rightarrow> 'a store_act \<Rightarrow> bool" where
  "safe_method L m \<longleftrightarrow> (\<forall>st w r st' w'. good_store L st \<longrightarrow> synced L st w \<longrightarrow> m st w = (r, st', w') \<longrightarrow>
     safe_end L st (r = Inl Killed) st' w')"

named_theorems safe \<open>methods that keep memory and disk together\<close>

lemma safe_endI:
  "st_path st' = st_path st \<Longrightarrow> good_store L st' \<Longrightarrow> synced L st' w' \<Longrightarrow> safe_end L st killed st' w'"
  by (auto simp: safe_end_def)

lemma safe_methodD:
  "safe_method L m \<Longrightarrow> good_store L st \<Longrightarrow> synced L st w \<Longrightarrow> m st w = (r, st', w') \<Longrightarrow>
   safe_end L st (r = Inl Killed) st' w'"
  by (simp add: safe_method_def)

lemma safe_lift [safe]: "safe_method L (liftM r)"
  by (auto simp: safe_method_def liftM_def intro: safe_endI)

lemma safe_read [safe]: "safe_method L (readM f)"
  by (auto simp: safe_method_def readM_def liftM_def intro: safe_endI)

lemma safe_bind [safe]:
  assumes "safe_method L m" and "\<And>x. safe_method L (f x)"
  shows "safe_method L (bindM m f)"
  unfolding safe_method_def
proof (intro allI impI)
  fix st w r st' w'
  assume pre: "good_store L st" "synced L st w" and run: "bindM m f st w = (r, st', w')"
  obtain r1 st1 w1 where m: "m st w = (r1, st1, w1)" by (cases "m st w")
  note e1 = safe_methodD [OF assms(1) pre m]
  show "safe_end L st (r = Inl Killed) st' w'"
  proof (cases r1)
    case (Inl e)
    then show ?thesis using run m e1 by (auto simp: bindM_def)
  next
    case (Inr x)
    then have "synced L st1 w1" "good_store L st1" "st_path st1 = st_path st"
      using e1 by (auto simp: safe_end_def)
    moreover have "f x st1 w1 = (r, st', w')" using run m Inr by (simp add: bindM_def)
    ultimately have "safe_end L st1 (r = Inl Killed) st' w'"
      using safe_methodD assms(2) by blast
    then show ?thesis using \<open>st_path st1 = st_path st\<close> by (simp add: safe_end_def)
  qed
qed

lemma store_step_safe:
  assumes "libs_ok L" and good: "good_store L st" and "synced L st w" and "store_step L op st w = (r, st', w')"
  shows "safe_end L st (r = Inl Killed) st' w'"
proof -
  obtain p where wf: "wf_store L st" and p: "unwraps L p st" using good by (auto simp: good_store_def)
  note ok = store_step_synced [OF assms(1) wf assms(3,4)]
  have good': "good_store L st'"
  proof (cases r)
    case (Inl e)
    then have "st' = st" using store_step_thrown(1) [OF assms(1) wf] assms(4) by blast
    then show ?thesis using good by simp
  next
    case (Inr u)
    then have "unwraps L (op_opens op p) st'"
      using store_step_effect(2) [OF assms(1) wf] assms(4) p by blast
    then show ?thesis using ok by (auto simp: good_store_def)
  qed
  show ?thesis
  proof (cases "r = Inl Killed")
    case True
    from store_step_killed [OF assms(1) wf assms(3), of op st' w'] assms(4) True
    obtain d where "st_path d = st_path st" "good_store L d" "synced L d w'"
      using good p by (auto simp: candidate_def good_store_def)
    then show ?thesis using True ok good' by (auto simp: safe_end_def)
  next
    case False
    then show ?thesis using ok good' by (auto intro: safe_endI)
  qed
qed

lemma safe_store:
  assumes "libs_ok L"
  shows "safe_method L (store_set L k v)" "safe_method L (store_remove L k)"
    "safe_method L (store_rotate L p now)" "safe_method L (change_passphrase L p q now)"
proof -
  show "safe_method L (store_set L k v)" "safe_method L (store_rotate L p now)"
    "safe_method L (change_passphrase L p q now)"
    using store_step_safe [OF assms, of _ _ "SetOp k v"] store_step_safe [OF assms, of _ _ "RotateOp p now"]
      store_step_safe [OF assms, of _ _ "PasswdOp p q now"] by (auto simp: safe_method_def)
  show "safe_method L (store_remove L k)"
    unfolding safe_method_def
  proof (intro allI impI)
    fix st w r st' w'
    assume pre: "good_store L st" "synced L st w" and run: "store_remove L k st w = (r, st', w')"
    have "store_step L (RemoveOp k) st w = (case r of Inl e \<Rightarrow> Inl e | Inr _ \<Rightarrow> Inr (), st', w')"
      using run by (cases r) auto
    from store_step_safe [OF assms pre this] show "safe_end L st (r = Inl Killed) st' w'"
      by (cases r) auto
  qed
qed

lemma safe_dispatch: "libs_ok L \<Longrightarrow> safe_method L (dispatch L req now)"
  by (auto simp: dispatch_def intro!: safe safe_store split: option.split)

lemma read_clock_run: "read_clock L w = (Inr (clock L (w_tick w)), w\<lparr>w_tick := Suc (w_tick w)\<rparr>)"
  by (simp add: read_clock_def ticking_def)

lemma synced_tick [simp]: "synced L st (w\<lparr>w_tick := i\<rparr>) = synced L st w"
  by (rule synced_files) simp

lemma safe_respond:
  assumes "libs_ok L"
  shows "safe_method L (respond L tok req)"
  unfolding safe_method_def
proof (intro allI impI)
  fix st w r st' w'
  assume pre: "good_store L st" "synced L st w" and run: "respond L tok req st w = (r, st', w')"
  show "safe_end L st (r = Inl Killed) st' w'"
  proof (cases "token_matches L tok (r_token req)")
    case False
    then show ?thesis
      using run safe_methodD [OF safe_lift pre] by (auto simp: respond_def)
  next
    case True
    let ?w = "w\<lparr>w_tick := Suc (w_tick w)\<rparr>"
    obtain r1 st1 w1 where d: "dispatch L req (clock L (w_tick w)) st ?w = (r1, st1, w1)"
      by (cases "dispatch L req (clock L (w_tick w)) st ?w")
    have e: "safe_end L st (r1 = Inl Killed) st1 w1"
      using safe_methodD [OF safe_dispatch [OF assms] pre(1) _ d] pre(2) by simp
    show ?thesis
    proof (cases "\<exists>what. r1 = Inl (Throw what)")
      case thrown: True
      then show ?thesis
        using run d e True by (auto simp: respond_def read_clock_run liftM_def safe_end_def split: sum.splits)
    next
      case False
      then show ?thesis
        using run d e True by (auto simp: respond_def read_clock_run split: sum.splits exn.splits)
    qed
  qed
qed

section \<open>A connection, one line at a time\<close>

lemma serve_lines_cases:
  assumes "serve_lines L tok c st w = (r, c', st', w')"
  obtains (stop) "st' = st" "w' = w" "r \<noteq> Inl Killed"
    | (malformed) line c1 response where "read_line kMaxRequestBytes c = (Some line, c1)"
      "parse_request L line = Inr None"
      "serve_lines L tok (snd (write_line response c1)) st w = (r, c', st', w')"
    | (failed) line c1 req e where "read_line kMaxRequestBytes c = (Some line, c1)"
      "parse_request L line = Inr (Some req)" "respond L tok req st w = (Inl e, st', w')" "r = Inl e"
    | (gone) line c1 req response where "read_line kMaxRequestBytes c = (Some line, c1)"
      "parse_request L line = Inr (Some req)" "respond L tok req st w = (Inr response, st', w')" "r = Inr ()"
    | (served) line c1 req response st1 w1 c2 where "read_line kMaxRequestBytes c = (Some line, c1)"
      "parse_request L line = Inr (Some req)" "respond L tok req st w = (Inr response, st1, w1)"
      "write_line response c1 = (True, c2)" "serve_lines L tok c2 st1 w1 = (r, c', st', w')"
  using assms [unfolded serve_lines.simps [of L tok c st w]]
  by (auto split: prod.splits option.splits sum.splits bool.splits)

definition conn_size :: "connection \<Rightarrow> nat" where
  "conn_size c = weight (c_in c) + length (c_buffer c)"

lemma conn_size_line: "read_line m c = (Some line, c1) \<Longrightarrow> conn_size c1 < conn_size c"
  unfolding conn_size_def by (rule read_line_shrinks)

lemma conn_size_write [simp]: "conn_size (snd (write_line line c)) = conn_size c"
  by (simp add: conn_size_def write_line_keeps)

lemma conn_size_written: "write_line line c = (ok, c') \<Longrightarrow> conn_size c' = conn_size c"
  using conn_size_write by (metis snd_conv)

lemma serve_lines_safe:
  assumes "libs_ok L"
  shows "good_store L st \<Longrightarrow> synced L st w \<Longrightarrow> serve_lines L tok c st w = (r, c', st', w') \<Longrightarrow>
    safe_end L st (r = Inl Killed) st' w'"
proof (induction "conn_size c" arbitrary: c st w rule: less_induct)
  case less
  note responded = safe_methodD [OF safe_respond [OF assms] less.prems(1,2)]
  from less.prems(3) show ?case
  proof (cases rule: serve_lines_cases)
    case stop
    then show ?thesis using less.prems by (auto intro: safe_endI)
  next
    case (malformed line c1 response)
    then show ?thesis
      using less.hyps [of "snd (write_line response c1)"] less.prems conn_size_line by fastforce
  next
    case failed
    then show ?thesis using responded by fastforce
  next
    case gone
    then show ?thesis using responded by fastforce
  next
    case (served line c1 req response st1 w1 c2)
    have e: "safe_end L st False st1 w1"
      using responded [OF served(3)] by simp
    then have "st_path st1 = st_path st" "good_store L st1" "synced L st1 w1"
      by (auto simp: safe_end_def)
    then show ?thesis
      using less.hyps [OF _ _ _ served(5)] conn_size_line [OF served(1)] conn_size_written [OF served(4)]
      by (simp add: safe_end_def)
  qed
qed

lemma serve_connection_safe:
  assumes "libs_ok L" and "good_store L st" and "synced L st w"
    and "serve_connection L uid tok c st w = (r, c', st', w')"
  shows "safe_end L st (r = Inl Killed) st' w'"
  using assms serve_lines_safe [OF assms(1-3)]
  by (auto simp: serve_connection_def intro: safe_endI split: sum.splits if_splits)

lemma daemon_loop_safe:
  assumes "libs_ok L"
  shows "good_store L st \<Longrightarrow> synced L st w \<Longrightarrow> daemon_loop L uid tok conns st w = (alive, st', w') \<Longrightarrow>
    safe_end L st (\<not> alive) st' w'"
proof (induction conns arbitrary: st w)
  case Nil
  then show ?case by (auto intro: safe_endI)
next
  case (Cons o1 conns)
  show ?case
  proof (cases o1)
    case None
    then show ?thesis using Cons by simp
  next
    case (Some c)
    obtain r c1 st1 w1 where s: "serve_connection L uid tok c st w = (r, c1, st1, w1)"
      by (cases "serve_connection L uid tok c st w")
    note e = serve_connection_safe [OF assms Cons.prems(1,2) s]
    show ?thesis
    proof (cases "r = Inl Killed")
      case True
      then show ?thesis using Cons.prems(3) Some s e by auto
    next
      case False
      then have "daemon_loop L uid tok conns st1 w1 = (alive, st', w')"
        using Cons.prems(3) Some s by (auto split: sum.splits exn.splits)
      moreover have "st_path st1 = st_path st" "good_store L st1" "synced L st1 w1"
        using e False by (auto simp: safe_end_def)
      ultimately show ?thesis using Cons.IH [of st1 w1] by (auto simp: safe_end_def)
    qed
  qed
qed

section \<open>Without the token\<close>

lemma token_matches_iff: "libs_ok L \<Longrightarrow> token_matches L expected got \<longleftrightarrow> got = expected"
  using libs_memcmp [of L expected got] by (auto simp: token_matches_def)

text \<open>The complete lines of a stream of bytes.\<close>

fun stream_lines :: "string \<Rightarrow> string \<Rightarrow> string list" where
  "stream_lines line [] = []"
| "stream_lines line (c # s) = (if c = LF then line # stream_lines [] s else stream_lines (line @ [c]) s)"

lemma stream_lines_step: "LF \<notin> set l \<Longrightarrow> stream_lines p (l @ LF # s) = (p @ l) # stream_lines [] s"
  by (induction l arbitrary: p) auto

lemma respond_bad_token:
  assumes "libs_ok L" and "r_token req \<noteq> tok"
  shows "\<exists>t. error_response L kErrInvalidToken = Inr t \<and> (\<forall>st w. respond L tok req st w = (Inr t, st, w))"
proof -
  obtain t where "error_response L kErrInvalidToken = Inr t"
    using error_response_ascii [OF assms(1), of kErrInvalidToken]
    by (auto simp: ascii_def byte_def kErrInvalidToken_def)
  then show ?thesis
    using assms by (auto simp: respond_def token_matches_iff liftM_def)
qed

definition knows_token :: "libs \<Rightarrow> string \<Rightarrow> string \<Rightarrow> bool" where
  "knows_token L tok s \<longleftrightarrow>
     (\<exists>line \<in> set (stream_lines [] s). \<exists>req. parse_request L line = Inr (Some req) \<and> r_token req = tok)"

lemma serve_lines_blind:
  assumes "libs_ok L"
  shows "conn_inv c \<Longrightarrow> length (c_buffer c) \<le> kMaxRequestBytes + chunk_size \<Longrightarrow>
    \<not> knows_token L tok (pending c) \<Longrightarrow>
    \<exists>r c'. \<forall>st w. serve_lines L tok c st w = (r, c', st, w)"
proof (induction "conn_size c" arbitrary: c rule: less_induct)
  case less
  obtain o1 c1 where rl: "read_line kMaxRequestBytes c = (o1, c1)" by (cases "read_line kMaxRequestBytes c")
  show ?case
  proof (cases o1)
    case None
    then show ?thesis using rl by (auto simp: serve_lines.simps [of L tok c])
  next
    case (Some line)
    note line = read_line_Some [OF less.prems(1,2) rl [unfolded Some]]
    have lines: "stream_lines [] (pending c) = line # stream_lines [] (pending c1)"
      using line stream_lines_step by simp
    have later: "\<exists>r c'. \<forall>st w. serve_lines L tok c2 st w = (r, c', st, w)"
      if "write_line t c1 = (ok, c2)" for t ok c2
      using less.hyps [of c2] that line lines less.prems(3) conn_size_line [OF rl [unfolded Some]]
        conn_size_written [OF that] write_line_pending [OF that] write_line_out(2) [OF that]
      by (simp add: knows_token_def)
    obtain e where e: "error_response L ''malformed request'' = Inr e"
      using error_response_ascii [OF assms, of "''malformed request''"] by (auto simp: ascii_def byte_def)
    show ?thesis
    proof (cases "parse_request L line")
      case (Inl what)
      then show ?thesis using rl Some by (auto simp: serve_lines.simps [of L tok c])
    next
      case pr: (Inr rq)
      show ?thesis
      proof (cases rq)
        case None
        then show ?thesis
          using rl Some pr e later [of e] by (cases "write_line e c1") (simp add: serve_lines.simps [of L tok c])
      next
        case rq: (Some req)
        then have "r_token req \<noteq> tok"
          using less.prems(3) pr lines by (auto simp: knows_token_def)
        then obtain t where t: "\<forall>st w. respond L tok req st w = (Inr t, st, w)"
          using respond_bad_token [OF assms] by blast
        obtain ok c2 where "write_line t c1 = (ok, c2)" by (cases "write_line t c1")
        then show ?thesis
          using rl Some pr rq t later [of t] by (cases ok) (simp_all add: serve_lines.simps [of L tok c])
      qed
    qed
  qed
qed

lemma serve_connection_stranger:
  assumes "c_peer c = Inr peer" and "peer \<noteq> uid"
  shows "\<exists>r c'. (\<forall>st w. serve_connection L uid tok c st w = (r, c', st, w)) \<and>
    c_in c' = c_in c \<and> c_buffer c' = c_buffer c"
proof (cases "error_response L ''permission denied: peer uid mismatch''")
  case (Inl e)
  then show ?thesis using assms by (simp add: serve_connection_def)
next
  case (Inr t)
  then show ?thesis using assms by (simp add: serve_connection_def write_line_keeps)
qed

section \<open>The daemon as a key-value service\<close>

text \<open>
  The contract of one authenticated request, on the map of secrets alone: the answer, and the
  map afterwards. The re-keying operations keep the map.
\<close>

definition failure :: "string \<Rightarrow> json" where
  "failure msg = json_object [(''ok'', JBool False), (''error'', JString msg)]"

definition success :: "(string \<times> json) list \<Rightarrow> json" where
  "success members = json_object ((''ok'', JBool True) # members)"

definition restrict_prefix :: "string \<Rightarrow> (string \<Rightarrow> string option) \<Rightarrow> (string \<times> string) list" where
  "restrict_prefix p m =
     map (\<lambda>k. (k, the (m k))) (filter (\<lambda>k. has_prefix k p) (sorted_list_of_set (dom m)))"

definition kv_spec :: "request \<Rightarrow> (string \<Rightarrow> string option) \<Rightarrow> json \<times> (string \<Rightarrow> string option)" where
  "kv_spec req m =
     (let k = r_key req in
      if r_op req = ''get'' then
        (if k = [] then failure ''missing key''
         else case m k of None \<Rightarrow> failure ''not found'' | Some v \<Rightarrow> success [(''value'', JString v)], m)
      else if r_op req = ''set'' then
        if k = [] then (failure ''missing key'', m) else (success [], m(k \<mapsto> r_value req))
      else if r_op req = ''delete'' then
        if k = [] then (failure ''missing key'', m)
        else (if m k = None then failure ''not found'' else success [], m(k := None))
      else if r_op req = ''list'' then
        (success [(''keys'', JArray (map JString (sorted_list_of_set (dom m))))], m)
      else if r_op req = ''getprefix'' then
        (if k = [] then failure ''missing prefix''
         else success [(''values'', JObject (map (\<lambda>(k, v). (k, JString v)) (restrict_prefix k m)))], m)
      else if r_op req = ''rotate'' then
        (if r_old req = [] then failure ''missing passphrase'' else success [], m)
      else if r_op req = ''passwd'' then
        (if r_old req = [] \<or> r_new req = [] then failure ''missing passphrase'' else success [], m)
      else (failure (''unknown op: '' @ r_op req), m))"

lemma bindM_Inr:
  "bindM m f st w = (Inr y, st', w') \<longleftrightarrow> (\<exists>x st1 w1. m st w = (Inr x, st1, w1) \<and> f x st1 w1 = (Inr y, st', w'))"
  by (auto simp: bindM_def split: prod.splits sum.splits)

lemma liftM_Inr [simp]: "liftM r st w = (Inr x, st', w') \<longleftrightarrow> r = Inr x \<and> st' = st \<and> w' = w"
  by (cases r) (auto simp: liftM_def)

lemma readM_Inr [simp]: "readM f st w = (Inr x, st', w') \<longleftrightarrow> f st = Inr x \<and> st' = st \<and> w' = w"
  by (simp add: readM_def)

lemma get_prefix_spec:
  assumes "service_ok L st"
  shows "get_prefix L p st = Inr (restrict_prefix p (store_view st))"
proof (rule kv.scope_unique [OF assms])
  let ?ks = "filter (\<lambda>k. has_prefix k p) (sorted_list_of_set (dom (store_view st)))"
  have fin: "finite (dom (store_view st))" using kv.keys_are [OF assms] by blast
  show "smap_inv (restrict_prefix p (store_view st))"
    by (simp add: smap_inv_def restrict_prefix_def comp_def sorted_wrt_filter)
  fix k
  have "map_of (map (\<lambda>k. (k, the (store_view st k))) ?ks) k =
      (if k \<in> set ?ks then Some (the (store_view st k)) else None)"
    by (simp add: map_of_map_restrict restrict_map_def)
  then show "map_of (restrict_prefix p (store_view st)) k = (if has_prefix k p then store_view st k else None)"
    using fin by (auto simp: restrict_prefix_def dom_def)
qed

lemma rekey_keeps:
  assumes "libs_ok L" and "service_ok L st"
  shows "store_rotate L p now st w = (Inr u, st', w') \<Longrightarrow> service_ok L st' \<and> store_view st' = store_view st"
    and "change_passphrase L p q now st w = (Inr u, st', w') \<Longrightarrow> service_ok L st' \<and> store_view st' = store_view st"
proof -
  have wf: "wf_store L st" using assms(2) by (simp add: service_ok_def)
  have "service_ok L st' \<and> store_view st' = store_view st"
    if "store_step L op st w = (Inr u, st', w')" "op_effect op (st_data st) = st_data st" for op
  proof -
    have "st_data st' = st_data st"
      using store_step_effect(1) [OF assms(1) wf that(1)] that(2) by simp
    moreover have "wf_store L st'"
      using assms(1) wf that(1) by (auto elim!: store_step_cases simp: candidate_def committed_def)
    moreover have "store_view st' = store_view st"
      by (rule ext) (simp add: store_view_def calculation(1))
    ultimately show ?thesis
      using assms(2) by (simp add: service_ok_def text_store_def)
  qed
  from this [of "RotateOp p now"] this [of "PasswdOp p q now"]
  show "store_rotate L p now st w = (Inr u, st', w') \<Longrightarrow> service_ok L st' \<and> store_view st' = store_view st"
    and "change_passphrase L p q now st w = (Inr u, st', w') \<Longrightarrow> service_ok L st' \<and> store_view st' = store_view st"
    by simp_all
qed

text \<open>A response that is returned is the contract's, and so is the store after it.\<close>

lemma dispatch_spec:
  assumes "libs_ok L" and ok: "service_ok L st" and "dispatch L req now st w = (Inr t, st', w')"
  shows "service_ok L st' \<and> json_dump L (fst (kv_spec req (store_view st))) = Inr t \<and>
    store_view st' = snd (kv_spec req (store_view st))"
proof -
  note ops = kv_spec_def failure_def success_def Let_def bindM_Inr kv.fetch_view [OF ok]
    error_response_def ok_response_def ok_value_def ok_keys_def ok_values_def kErrNotFound_def
    get_prefix_spec [OF ok] kv.keys_are [OF ok]
  note run = assms(3) [unfolded dispatch_def]
  consider "r_op req = ''get''" | "r_op req = ''set''" | "r_op req = ''delete''" | "r_op req = ''list''"
    | "r_op req = ''getprefix''" | "r_op req = ''rotate''" | "r_op req = ''passwd''"
    | "r_op req \<notin> {''get'', ''set'', ''delete'', ''list'', ''getprefix'', ''rotate'', ''passwd''}"
    by blast
  then show ?thesis
  proof cases
    case 1
    then show ?thesis using run ok by (auto simp: ops split: if_splits option.splits)
  next
    case 2
    then show ?thesis using run ok by (auto simp: ops split: if_splits dest!: kv.put_returns [OF ok])
  next
    case 3
    then show ?thesis
      using run ok by (auto simp: ops split: if_splits dest!: kv.erase_returns [OF ok])
  next
    case 4
    then show ?thesis using run ok by (auto simp: ops)
  next
    case 5
    then show ?thesis using run ok by (auto simp: ops split: if_splits)
  next
    case 6
    then show ?thesis using run ok by (auto simp: ops split: if_splits dest!: rekey_keeps [OF assms(1) ok])
  next
    case 7
    then show ?thesis using run ok by (auto simp: ops split: if_splits dest!: rekey_keeps [OF assms(1) ok])
  next
    case 8
    then show ?thesis using run ok by (auto simp: ops)
  qed
qed

section \<open>Startup\<close>

text \<open>Thirty days, and no wrap-around when the clock is behind the key.\<close>

lemma rotation_due_iff:
  "rotation_due now st \<longleftrightarrow> unat (key_created_at (st_env st)) + 30 * 24 * 3600 < unat now"
proof -
  have "unat rotate_after = 30 * 24 * 3600"
    by (simp add: rotate_after_def kRotateAfterDays_def)
  then show ?thesis
    by (auto simp: rotation_due_def word_less_nat_alt unat_sub word_le_nat_alt)
qed

lemma unlock_Inr: "unlock L paths p w = (Inr st, w') \<longleftrightarrow> store_open L (p_store paths) p w = (Inr st, w')"
  by (auto simp: unlock_def split: prod.splits sum.splits exn.splits)

lemma read_token_Inr: "read_token paths w = (Inr tok, w') \<Longrightarrow> tok \<noteq> [] \<and> w' = w"
  by (auto simp: read_token_def read_file_string_def Let_def split: prod.splits sum.splits exn.splits option.splits
      if_splits)

lemma auto_rotate_Inr:
  assumes "auto_rotate L p now st w = (Inr st', w')"
  shows "\<not> rotation_due now st \<and> st' = st \<and> w' = w \<or>
    rotation_due now st \<and> (\<exists>u. store_step L (RotateOp p now) st w = (Inr u, st', w'))"
  using assms by (auto simp: auto_rotate_def split: prod.splits sum.splits exn.splits if_splits)

lemma daemon_start_Inr:
  assumes "libs_ok L" and "daemon_start L rl resolved answered pass w = (Inr (st, tok), w')"
  shows "\<exists>paths p. resolved = Inr paths \<and> \<not> answered \<and> pass = Inr p \<and> tok \<noteq> [] \<and>
    wf_store L st \<and> synced L st w' \<and> st_path st = p_store paths \<and> unwraps L p st"
proof -
  obtain paths p now st0 w1 w2 w3 where r: "resolved = Inr paths" "\<not> answered" "pass = Inr p"
    and op: "store_open L (p_store paths) p w1 = (Inr st0, w2)"
    and rot: "auto_rotate L p now st0 w2 = (Inr st, w3)" and tok: "read_token paths w3 = (Inr tok, w')"
    using assms(2) by (auto simp: daemon_start_def bindA_Inr unlock_Inr split: option.splits)
  note opened = store_open_Inr [OF assms(1) op]
  from auto_rotate_Inr [OF rot] show ?thesis
  proof (elim disjE conjE exE)
    assume "st = st0" "w3 = w2"
    then show ?thesis using opened r read_token_Inr [OF tok] by auto
  next
    fix u
    assume s: "store_step L (RotateOp p now) st0 w2 = (Inr u, st, w3)"
    have wf: "wf_store L st0" "synced L st0 w2" using opened by simp_all
    show ?thesis
      using store_step_synced [OF assms(1) wf s] store_step_effect(2) [OF assms(1) wf(1) s, of p]
        opened r read_token_Inr [OF tok] by simp
  qed
qed

end
