(* ===== verification/Client.thy ===== *)
theory Client
  imports Protocol Transport Paths
begin

text \<open>
  The client end: \<open>DaemonClient\<close> of src/src/client.cpp and the local backend of
  src/src/backend.cpp. The other end of the socket is a parameter, a \<open>peer\<close> that answers the
  bytes it is sent before the client closes or waits, and may change a state of its own, so that
  the daemon's model can be put there; a line that could be sent only in part reaches it as that
  part. Scrubbing is not modelled.
\<close>

definition kMaxResponseBytes :: nat where "kMaxResponseBytes = 64 * 2 ^ 20"
definition kReplyTimeoutSeconds :: nat where "kReplyTimeoutSeconds = 5"
definition kKdfReplyTimeoutSeconds :: nat where "kKdfReplyTimeoutSeconds = 60"

datatype stage = NotRunning | NotSent | Sent

datatype backend_kind = NotFound | Denied | NoCredentials | UnreachableKind | PendingDeletion

record backend_error =
  be_kind :: backend_kind
  be_what :: string
  be_maybe_applied :: bool
  be_pending_until :: string
  be_timed_out :: bool
  be_timeout_seconds :: nat
  be_not_running :: bool

text \<open>\<open>BackendError(kind, what)\<close>.\<close>

definition backend_error_of :: "backend_kind \<Rightarrow> string \<Rightarrow> backend_error" where
  "backend_error_of kind what =
     \<lparr>be_kind = kind, be_what = what, be_maybe_applied = False, be_pending_until = [], be_timed_out = False,
      be_timeout_seconds = 0, be_not_running = False\<rparr>"

text \<open>The exceptions a request can end with; \<open>JsonError\<close> is no \<open>std::runtime_error\<close>.\<close>

datatype client_error =
    DaemonUnreachable string stage bool nat
  | RuntimeError string
  | JsonError string
  | BackendFailure backend_error

record 'd peer =
  peer_listens :: "'d \<Rightarrow> bool"
  peer_timeout_error :: "string option"     \<comment> \<open>\<open>setsockopt\<close> refuses\<close>
  peer_cred :: "string + nat"
  peer_sends :: "sent list"
  peer_answer :: "string \<Rightarrow> 'd \<Rightarrow> recv list \<times> 'd"

record daemon_client =
  dc_socket :: string
  dc_token :: string

type_synonym ('d, 'a) remote = "'d \<Rightarrow> (client_error + 'a) \<times> 'd"

definition returnR :: "'a \<Rightarrow> ('d, 'a) remote" where
  "returnR x d = (Inr x, d)"

definition throwR :: "client_error \<Rightarrow> ('d, 'a) remote" where
  "throwR e d = (Inl e, d)"

definition bindR :: "('d, 'a) remote \<Rightarrow> ('a \<Rightarrow> ('d, 'b) remote) \<Rightarrow> ('d, 'b) remote" where
  "bindR m f d = (case m d of (Inl e, d') \<Rightarrow> (Inl e, d') | (Inr x, d') \<Rightarrow> f x d')"

definition liftR :: "client_error + 'a \<Rightarrow> ('d, 'a) remote" where
  "liftR r d = (r, d)"

lemma remote_simps [simp]: "returnR x d = (Inr x, d)" "throwR e d = (Inl e, d)" "liftR r d = (r, d)"
  by (simp_all add: returnR_def throwR_def liftR_def)

lemma bindR_Inr:
  "bindR m f d = (Inr y, d') \<longleftrightarrow> (\<exists>x d1. m d = (Inr x, d1) \<and> f x d1 = (Inr y, d'))"
  by (auto simp: bindR_def split: prod.splits sum.splits)

section \<open>One request\<close>

definition serialize :: "libs \<Rightarrow> daemon_client \<Rightarrow> (string \<times> json) list \<Rightarrow> client_error + string" where
  "serialize L cl req =
     (case json_dump L (JObject (smap_put ''token'' (JString (dc_token cl)) req)) of
        Inl what \<Rightarrow> Inl (JsonError what)
      | Inr request_line \<Rightarrow>
          if length request_line > kMaxRequestBytes
          then Inl (RuntimeError (''value too large: the request is '' @ decimal (length request_line) @
                 '' bytes, the daemon's limit is '' @ decimal kMaxRequestBytes))
          else Inr request_line)"

text \<open>\<open>req.value("op", std::string{})\<close>: what the program builds always has it.\<close>

definition op_of :: "libs \<Rightarrow> (string \<times> json) list \<Rightarrow> client_error + string" where
  "op_of L req = (case value_string L req ''op'' [] of Inl what \<Rightarrow> Inl (JsonError what) | Inr s \<Rightarrow> Inr s)"

definition reply_timeout :: "string \<Rightarrow> nat" where
  "reply_timeout op = (if op = ''rotate'' \<or> op = ''passwd'' then kKdfReplyTimeoutSeconds else kReplyTimeoutSeconds)"

definition read_only_op :: "string \<Rightarrow> bool" where
  "read_only_op op \<longleftrightarrow> op = ''get'' \<or> op = ''list'' \<or> op = ''getprefix''"

definition no_reply_error :: "string \<Rightarrow> bool \<Rightarrow> client_error" where
  "no_reply_error op timed_out =
     (let no_reply = ''no reply within '' @ decimal (reply_timeout op) @ '' s'';
          why = (if timed_out then ''daemon busy: request sent but '' @ no_reply
                 else ''daemon closed the connection without a reply'');
          why = (if \<not> read_only_op op then why @ ''; it may still be applied (check with list/get)'' else why)
      in DaemonUnreachable why Sent timed_out (reply_timeout op))"

definition send :: "libs \<Rightarrow> nat \<Rightarrow> 'd peer \<Rightarrow> daemon_client \<Rightarrow> (string \<times> json) list \<Rightarrow> ('d, json) remote" where
  "send L uid P cl req d =
     (if \<not> peer_listens P d
      then (Inl (DaemonUnreachable (''daemon not running at '' @ dc_socket cl @ '' ?'') NotRunning False 0), d)
      else
        (case op_of L req of
           Inl e \<Rightarrow> (Inl e, d)
         | Inr op \<Rightarrow>
        (case peer_timeout_error P of
           Some e \<Rightarrow> (Inl (RuntimeError (''setsockopt(SO_RCVTIMEO/SO_SNDTIMEO) failed: '' @ e)), d)
         | None \<Rightarrow>
        (case peer_cred P of
           Inl e \<Rightarrow> (Inl (RuntimeError e), d)
         | Inr daemon_uid \<Rightarrow>
             if daemon_uid \<noteq> uid
             then (Inl (RuntimeError (''socket '' @ dc_socket cl @ '' is served by uid '' @ decimal daemon_uid @
                    '', not ours; refusing to send'')), d)
             else
        (case serialize L cl req of
           Inl e \<Rightarrow> (Inl e, d)
         | Inr request_line \<Rightarrow>
             (case write_line request_line (connection_of [] (peer_sends P) (Inr daemon_uid)) of
                (False, conn) \<Rightarrow>
                  (Inl (DaemonUnreachable
                     (if c_timed_out conn
                      then ''daemon busy: no reply within '' @ decimal (reply_timeout op) @
                           '' s (another client may be holding it)''
                      else ''failed to send request to daemon'')
                     NotSent (c_timed_out conn) (reply_timeout op)), snd (peer_answer P (c_out conn) d))
              | (True, conn) \<Rightarrow>
                  (case peer_answer P (c_out conn) d of
                     (ins, d') \<Rightarrow>
                       (case read_line kMaxResponseBytes (conn\<lparr>c_in := ins\<rparr>) of
                          (None, conn') \<Rightarrow> (Inl (no_reply_error op (c_timed_out conn')), d')
                        | (Some line, conn') \<Rightarrow>
                            (case json_parse L line of
                               None \<Rightarrow> (Inl (RuntimeError ''malformed response from daemon''), d')
                             | Some resp \<Rightarrow> (Inr resp, d'))))))))))"

text \<open>\<open>resp.value(name, ...)\<close> of a boolean and of a string; a response that is no object throws.\<close>

definition response_ok :: "libs \<Rightarrow> json \<Rightarrow> client_error + bool" where
  "response_ok L resp =
     (case resp of
        JObject m \<Rightarrow>
          (case map_of m ''ok'' of
             None \<Rightarrow> Inr False
           | Some (JBool b) \<Rightarrow> Inr b
           | Some j \<Rightarrow> Inl (JsonError (json_type_error L j)))
      | j \<Rightarrow> Inl (JsonError (json_type_error L j)))"

definition response_error :: "libs \<Rightarrow> json \<Rightarrow> client_error" where
  "response_error L resp =
     (case resp of
        JObject m \<Rightarrow>
          (case value_string L m ''error'' ''request failed'' of
             Inl what \<Rightarrow> JsonError what
           | Inr msg \<Rightarrow> RuntimeError msg)
      | j \<Rightarrow> JsonError (json_type_error L j))"

definition request_raw :: "libs \<Rightarrow> nat \<Rightarrow> 'd peer \<Rightarrow> daemon_client \<Rightarrow> (string \<times> json) list \<Rightarrow> ('d, json) remote" where
  "request_raw L uid P cl req =
     bindR (send L uid P cl req) (\<lambda>resp.
     bindR (liftR (response_ok L resp)) (\<lambda>ok.
       if \<not> ok then throwR (response_error L resp) else returnR resp))"

definition make_request :: "string \<Rightarrow> string \<Rightarrow> string option \<Rightarrow> (string \<times> json) list" where
  "make_request op key v =
     (let req = smap_put ''op'' (JString op) [];
          req = (if key \<noteq> [] then smap_put ''key'' (JString key) req else req)
      in case v of None \<Rightarrow> req | Some s \<Rightarrow> smap_put ''value'' (JString s) req)"

definition check_request :: "libs \<Rightarrow> daemon_client \<Rightarrow> string \<Rightarrow> string \<Rightarrow> string option \<Rightarrow> client_error + unit" where
  "check_request L cl op key v = bindE (serialize L cl (make_request op key v)) (\<lambda>_. Inr ())"

definition request :: "libs \<Rightarrow> nat \<Rightarrow> 'd peer \<Rightarrow> daemon_client \<Rightarrow> string \<Rightarrow> string \<Rightarrow> string option \<Rightarrow> ('d, json) remote" where
  "request L uid P cl op key v = request_raw L uid P cl (make_request op key v)"

definition daemon_client_of :: "paths \<Rightarrow> (string \<Rightarrow> string + string) \<Rightarrow> string + daemon_client" where
  "daemon_client_of paths read_file =
     bindE (read_file (p_token paths)) (\<lambda>contents.
       let token = rstrip contents in
       if token = [] then Inl (''token file '' @ quoted (p_token paths) @ '' is empty'')
       else Inr \<lparr>dc_socket = p_socket paths, dc_token = token\<rparr>)"

section \<open>The local backend\<close>

definition typed_error :: "client_error \<Rightarrow> client_error" where
  "typed_error e =
     (case e of
        DaemonUnreachable what at timed_out seconds \<Rightarrow>
          BackendFailure ((backend_error_of UnreachableKind what)
            \<lparr>be_maybe_applied := (at = Sent), be_timed_out := timed_out, be_timeout_seconds := seconds,
             be_not_running := (at = NotRunning)\<rparr>)
      | RuntimeError what \<Rightarrow>
          if what = kErrNotFound then BackendFailure (backend_error_of NotFound what)
          else if what = kErrInvalidToken then BackendFailure (backend_error_of NoCredentials what)
          else e
      | _ \<Rightarrow> e)"

definition local_request ::
  "libs \<Rightarrow> nat \<Rightarrow> 'd peer \<Rightarrow> daemon_client \<Rightarrow> string \<Rightarrow> string \<Rightarrow> string option \<Rightarrow> ('d, json) remote" where
  "local_request L uid P cl op key v d =
     (case request L uid P cl op key v d of
        (Inl e, d') \<Rightarrow> (Inl (typed_error e), d')
      | r \<Rightarrow> r)"

definition take_string :: "json \<Rightarrow> client_error + string" where
  "take_string holder =
     (case holder of JString s \<Rightarrow> Inr s | _ \<Rightarrow> Inl (RuntimeError ''daemon reply has no value''))"

text \<open>\<open>resp[name]\<close> of an object: null when missing.\<close>

definition member :: "json \<Rightarrow> string \<Rightarrow> json" where
  "member resp name = (case resp of JObject m \<Rightarrow> or_else (map_of m name) JNull | _ \<Rightarrow> JNull)"

text \<open>\<open>items()\<close>: an array counts its elements, a primitive is one element under the empty key.\<close>

definition items :: "json \<Rightarrow> (string \<times> json) list" where
  "items j =
     (case j of
        JObject m \<Rightarrow> m
      | JArray js \<Rightarrow> zip (map decimal [0..<length js]) js
      | JNull \<Rightarrow> []
      | _ \<Rightarrow> [([], j)])"

record fetched =
  f_values :: "(string \<times> string) list"
  f_failures :: "(string \<times> backend_error) list"

text \<open>The prefix up to the last slash, empty when there is none.\<close>

definition path_prefix :: "string \<Rightarrow> string" where
  "path_prefix path = (case rfind_char SLASH path of None \<Rightarrow> [] | Some slash \<Rightarrow> take (slash + 1) path)"

definition add_path :: "string \<Rightarrow> (string \<times> string list) list \<Rightarrow> (string \<times> string list) list" where
  "add_path path by_prefix =
     (let grp = or_else (map_of by_prefix (path_prefix path)) [] in
      smap_put (path_prefix path) (if path \<in> set grp then grp else grp @ [path]) by_prefix)"

definition group_by_prefix :: "string list \<Rightarrow> (string \<times> string list) list" where
  "group_by_prefix paths = fold add_path paths []"

text \<open>One path of a group: fetched singly, or looked up in the scope already fetched.\<close>

definition fetch_one ::
  "libs \<Rightarrow> nat \<Rightarrow> 'd peer \<Rightarrow> daemon_client \<Rightarrow> bool \<Rightarrow> (string \<times> string) list \<Rightarrow> string \<Rightarrow> ('d, string) remote" where
  "fetch_one L uid P cl batched scope path =
     (if \<not> batched then
        bindR (local_request L uid P cl ''get'' path None) (\<lambda>resp. liftR (take_string (member resp ''value'')))
      else case map_of scope path of
        Some v \<Rightarrow> returnR v
      | None \<Rightarrow> throwR (BackendFailure (backend_error_of NotFound kErrNotFound)))"

fun fetch_group ::
  "libs \<Rightarrow> nat \<Rightarrow> 'd peer \<Rightarrow> daemon_client \<Rightarrow> bool \<Rightarrow> (string \<times> string) list \<Rightarrow> string list \<Rightarrow> fetched \<Rightarrow> ('d, fetched) remote" where
  "fetch_group L uid P cl batched scope [] acc d = (Inr acc, d)"
| "fetch_group L uid P cl batched scope (path # grp) acc d =
     (case fetch_one L uid P cl batched scope path d of
        (Inr v, d') \<Rightarrow>
          fetch_group L uid P cl batched scope grp (acc\<lparr>f_values := smap_emplace path v (f_values acc)\<rparr>) d'
      | (Inl (BackendFailure e), d') \<Rightarrow>
          if be_kind e \<noteq> NotFound then (Inl (BackendFailure e), d')
          else fetch_group L uid P cl batched scope grp
                 (acc\<lparr>f_failures := smap_emplace path e (f_failures acc)\<rparr>) d'
      | (Inl e, d') \<Rightarrow> (Inl e, d'))"

definition fetch_scope :: "libs \<Rightarrow> nat \<Rightarrow> 'd peer \<Rightarrow> daemon_client \<Rightarrow> string \<Rightarrow> ('d, (string \<times> string) list) remote" where
  "fetch_scope L uid P cl pre =
     bindR (local_request L uid P cl ''getprefix'' pre None) (\<lambda>resp.
     bindR (liftR (collectE (\<lambda>(k, j). bindE (take_string j) (\<lambda>s. Inr (k, s))) (items (member resp ''values''))))
       (\<lambda>found. returnR (fold (\<lambda>(k, s). smap_emplace k s) found [])))"

fun fetch_groups ::
  "libs \<Rightarrow> nat \<Rightarrow> 'd peer \<Rightarrow> daemon_client \<Rightarrow> (string \<times> string list) list \<Rightarrow> fetched \<Rightarrow> ('d, fetched) remote" where
  "fetch_groups L uid P cl [] acc = returnR acc"
| "fetch_groups L uid P cl ((pre, grp) # groups) acc =
     (let batched = (pre \<noteq> [] \<and> length grp > 1) in
      bindR (if batched then fetch_scope L uid P cl pre else returnR []) (\<lambda>scope.
      bindR (fetch_group L uid P cl batched scope grp acc) (\<lambda>acc.
        fetch_groups L uid P cl groups acc)))"

definition get_many :: "libs \<Rightarrow> nat \<Rightarrow> 'd peer \<Rightarrow> daemon_client \<Rightarrow> string list \<Rightarrow> ('d, fetched) remote" where
  "get_many L uid P cl paths =
     fetch_groups L uid P cl (group_by_prefix paths) \<lparr>f_values = [], f_failures = []\<rparr>"

definition backend_set :: "libs \<Rightarrow> nat \<Rightarrow> 'd peer \<Rightarrow> daemon_client \<Rightarrow> string \<Rightarrow> string \<Rightarrow> ('d, unit) remote" where
  "backend_set L uid P cl path v =
     bindR (local_request L uid P cl ''set'' path (Some v)) (\<lambda>_. returnR ())"

definition backend_remove :: "libs \<Rightarrow> nat \<Rightarrow> 'd peer \<Rightarrow> daemon_client \<Rightarrow> string \<Rightarrow> ('d, string option) remote" where
  "backend_remove L uid P cl path =
     bindR (local_request L uid P cl ''delete'' path None) (\<lambda>_. returnR None)"

end
