(* ===== verification/EndToEnd.thy ===== *)
theory EndToEnd
  imports DaemonFacts Client
begin

text \<open>
  The client against the daemon: the peer of \<open>Client\<close> instantiated with the daemon's model, and
  what each request then means for the store. The backend interface is a locale, interpreted
  on the local backend talking to the daemon.
\<close>

section \<open>The daemon as the other end of the socket\<close>

definition daemon_answer :: "libs \<Rightarrow> nat \<Rightarrow> string \<Rightarrow> string \<Rightarrow> store \<times> world \<Rightarrow> recv list \<times> (store \<times> world)" where
  "daemon_answer L uid tok bytes d =
     (case serve_connection L uid tok (connection_of [Received bytes] [] (Inr uid)) (fst d) (snd d) of
        (r, c, st, w) \<Rightarrow> ([Received (c_out c)], (st, w)))"

definition daemon_peer :: "libs \<Rightarrow> nat \<Rightarrow> string \<Rightarrow> (store \<times> world) peer" where
  "daemon_peer L uid tok =
     \<lparr>peer_listens = \<lambda>d. True, peer_timeout_error = None, peer_cred = Inr uid, peer_sends = [],
      peer_answer = daemon_answer L uid tok\<rparr>"

lemma pending_fresh: "pending (connection_of [Received s] snds cred) = s"
  by (simp add: pending_def connection_of_def)

lemma fresh_sends: "c_sends (connection_of ins snds cred) = snds" "c_out (connection_of ins snds cred) = []"
  "c_buffer (connection_of ins snds cred) = []" "c_peer (connection_of ins snds cred) = cred"
  by (simp_all add: connection_of_def)

text \<open>One request line on a connection, answered and then closed.\<close>

lemma serve_one_line:
  assumes "LF \<notin> set line" and "length line \<le> kMaxRequestBytes" and "parse_request L line = Inr (Some req)"
  shows "\<exists>c. serve_connection L uid tok (connection_of [Received (line @ [LF])] [] (Inr uid)) st w =
    (case respond L tok req st w of
       (Inl e, st', w') \<Rightarrow> (Inl e, c, st', w')
     | (Inr t, st', w') \<Rightarrow> (Inr (), c, st', w')) \<and>
    c_out c = (case respond L tok req st w of (Inl e, d) \<Rightarrow> [] | (Inr t, d) \<Rightarrow> t @ [LF])"
proof -
  let ?c = "connection_of [Received (line @ [LF])] [] (Inr uid)"
  obtain c1 where rl: "read_line kMaxRequestBytes ?c = (Some line, c1)"
    using read_line_complete [OF conn_inv_fresh pending_fresh assms(1,2), of "[]"] by blast
  note got = read_line_Some [OF conn_inv_fresh _ rl, unfolded pending_fresh fresh_sends]
  note frame = read_line_frame [OF rl, unfolded fresh_sends]
  have p1: "pending c1 = []" using got by simp
  have closed: "\<exists>c3. read_line kMaxRequestBytes (c1\<lparr>c_out := o1\<rparr>) = (None, c3) \<and> c_out c3 = o1" for o1
  proof -
    have "conn_inv (c1\<lparr>c_out := o1\<rparr>)" "LF \<notin> set (pending (c1\<lparr>c_out := o1\<rparr>))"
      "length (c_buffer (c1\<lparr>c_out := o1\<rparr>)) \<le> kMaxRequestBytes + chunk_size"
      using got p1 by (auto simp: conn_inv_def pending_def)
    from read_line_nothing [OF this] show ?thesis
      using read_line_frame by fastforce
  qed
  obtain r st' w' where rs: "respond L tok req st w = (r, st', w')" by (cases "respond L tok req st w")
  show ?thesis
  proof (cases r)
    case (Inl e)
    then show ?thesis
      using rl rs frame assms(3)
      by (simp add: serve_connection_def fresh_sends serve_lines.simps [of L tok ?c])
  next
    case (Inr t)
    obtain c3 where c3: "read_line kMaxRequestBytes (c1\<lparr>c_out := t @ [LF]\<rparr>) = (None, c3)" "c_out c3 = t @ [LF]"
      using closed by blast
    have "write_line t c1 = (True, c1\<lparr>c_out := t @ [LF]\<rparr>)"
      using frame by (simp add: write_line_all)
    then show ?thesis
      using Inr rl rs frame assms(3) c3
      by (simp add: serve_connection_def fresh_sends serve_lines.simps [of L tok ?c]
          serve_lines.simps [of L tok "c1\<lparr>c_out := t @ [LF]\<rparr>"])
  qed
qed

lemma serve_one:
  assumes "LF \<notin> set line" and "length line \<le> kMaxRequestBytes" and "parse_request L line = Inr (Some req)"
  shows "daemon_answer L uid tok (line @ [LF]) (st, w) =
    (case respond L tok req st w of
       (Inl e, st', w') \<Rightarrow> ([Received []], (st', w'))
     | (Inr t, st', w') \<Rightarrow> ([Received (t @ [LF])], (st', w')))"
  using serve_one_line [OF assms, of uid tok st w] by (auto simp: daemon_answer_def split: prod.splits sum.splits)

section \<open>Requests on the wire\<close>

definition wire_request :: "daemon_client \<Rightarrow> string \<Rightarrow> string \<Rightarrow> string option \<Rightarrow> request" where
  "wire_request cl op key v =
     \<lparr>r_token = dc_token cl, r_op = op, r_key = key, r_value = or_else v [], r_old = [], r_new = []\<rparr>"

lemma make_request_members:
  "JObject (smap_put ''token'' (JString tok) (make_request op key v)) =
     json_object ((''op'', JString op) # (if key \<noteq> [] then [(''key'', JString key)] else []) @
       (case v of None \<Rightarrow> [] | Some s \<Rightarrow> [(''value'', JString s)]) @ [(''token'', JString tok)])"
  by (auto simp: make_request_def json_object_def Let_def split: option.splits)

lemma parse_serialized:
  assumes "libs_ok L" and "serialize L cl (make_request op key v) = Inr line"
  shows "parse_request L line = Inr (Some (wire_request cl op key v))" and "LF \<notin> set line"
    and "length line \<le> kMaxRequestBytes"
proof -
  let ?ms = "(''op'', JString op) # (if key \<noteq> [] then [(''key'', JString key)] else []) @
       (case v of None \<Rightarrow> [] | Some s \<Rightarrow> [(''value'', JString s)]) @ [(''token'', JString (dc_token cl))]"
  have d: "json_dump L (json_object ?ms) = Inr line"
    using assms(2) by (simp add: serialize_def make_request_members split: sum.splits if_splits)
  let ?f = "(\<lambda>n. [])(''key'' := key, ''value'' := or_else v [])"
  have "parse_request L line = Inr (Some \<lparr>r_token = dc_token cl, r_op = op, r_key = ?f ''key'',
      r_value = ?f ''value'', r_old = ?f ''old'', r_new = ?f ''new''\<rparr>)"
    by (rule parse_request_object [OF assms(1) d]) (cases v; cases "key = []"; auto)+
  then show "parse_request L line = Inr (Some (wire_request cl op key v))"
    by (simp add: wire_request_def)
  show "LF \<notin> set line" by (rule libs_one_line [OF assms(1) d])
  show "length line \<le> kMaxRequestBytes"
    using assms(2) by (auto simp: serialize_def split: sum.splits if_splits)
qed

lemma respond_dumps:
  assumes "respond L tok req st w = (Inr t, st', w')"
  shows "\<exists>j. json_dump L j = Inr t"
  using assms
  by (auto simp: respond_def read_clock_run dispatch_def bindM_Inr error_response_def ok_response_def ok_value_def
      ok_keys_def ok_values_def split: if_splits prod.splits sum.splits exn.splits option.splits)

text \<open>What a client that gets an answer has been told.\<close>

lemma send_daemon:
  assumes "libs_ok L" and "send L uid (daemon_peer L uid tok) cl (make_request op key v) (st, w) = (Inr resp, (st', w'))"
  shows "\<exists>t. respond L tok (wire_request cl op key v) st w = (Inr t, st', w') \<and> json_parse L t = Some resp"
proof -
  obtain line where line: "serialize L cl (make_request op key v) = Inr line"
    using assms(2) by (auto simp: send_def daemon_peer_def split: sum.splits)
  note wire = parse_serialized [OF assms(1) line]
  let ?c = "connection_of [] [] (Inr uid)"
  have "write_line line ?c = (True, ?c\<lparr>c_out := line @ [LF]\<rparr>)"
    by (simp add: write_line_all fresh_sends)
  then have run: "(case daemon_answer L uid tok (line @ [LF]) (st, w) of (ins, d') \<Rightarrow>
      (case read_line kMaxResponseBytes (?c\<lparr>c_out := line @ [LF], c_in := ins\<rparr>) of
         (None, conn') \<Rightarrow> (Inl (no_reply_error op (c_timed_out conn')), d')
       | (Some l, conn') \<Rightarrow> (case json_parse L l of
            None \<Rightarrow> (Inl (RuntimeError ''malformed response from daemon''), d')
          | Some resp \<Rightarrow> (Inr resp, d')))) = (Inr resp, (st', w'))"
    using assms(2) line
    by (auto simp: send_def daemon_peer_def op_of_def value_string_def get_string_def make_request_def Let_def
        smap_find_put split: sum.splits option.splits if_splits)
  have fresh: "conn_inv (?c\<lparr>c_out := o1, c_in := [Received s]\<rparr>)" "pending (?c\<lparr>c_out := o1, c_in := [Received s]\<rparr>) = s"
    "length (c_buffer (?c\<lparr>c_out := o1, c_in := [Received s]\<rparr>)) \<le> kMaxResponseBytes + chunk_size" for o1 s
    by (simp_all add: conn_inv_def pending_def connection_of_def)
  obtain r st1 w1 where rs: "respond L tok (wire_request cl op key v) st w = (r, st1, w1)"
    by (cases "respond L tok (wire_request cl op key v) st w")
  note answer = serve_one [OF wire(2,3,1), of uid tok st w, unfolded rs]
  show ?thesis
  proof (cases r)
    case (Inl e)
    have "\<exists>c'. read_line kMaxResponseBytes (?c\<lparr>c_out := line @ [LF], c_in := [Received []]\<rparr>) = (None, c')"
      using read_line_nothing [OF fresh(1) _ fresh(3)] fresh(2) by simp
    then show ?thesis using run answer Inl by auto
  next
    case (Inr t)
    then have t: "LF \<notin> set t"
      using respond_dumps [of L tok _ st w t st1 w1] rs libs_one_line [OF assms(1)] by blast
    let ?c2 = "?c\<lparr>c_out := line @ [LF], c_in := [Received (t @ [LF])]\<rparr>"
    obtain o1 c3 where rl: "read_line kMaxResponseBytes ?c2 = (o1, c3)" by (cases "read_line kMaxResponseBytes ?c2")
    show ?thesis
    proof (cases o1)
      case None
      then show ?thesis using run answer Inr rl by simp
    next
      case (Some l)
      have "t @ [LF] = l @ LF # pending c3" "LF \<notin> set l"
        using read_line_Some [OF fresh(1) fresh(3) rl [unfolded Some]] fresh(2) by simp_all
      then have "l = t"
        using t by (metis append_Cons append_Nil find_char_append append_eq_append_conv option.inject)
      then show ?thesis using run answer Inr rl Some rs by (auto split: option.splits)
    qed
  qed
qed

section \<open>What a request does\<close>

lemma bindM_Inl:
  "bindM m f st w = (Inl e, st', w') \<longleftrightarrow>
     m st w = (Inl e, st', w') \<or> (\<exists>x st1 w1. m st w = (Inr x, st1, w1) \<and> f x st1 w1 = (Inl e, st', w'))"
  by (auto simp: bindM_def split: prod.splits sum.splits)

lemma liftM_Inl [simp]: "liftM r st w = (Inl e, st', w') \<longleftrightarrow> (\<exists>what. r = Inl what \<and> e = Throw what) \<and> st' = st \<and> w' = w"
  by (cases r) (auto simp: liftM_def)

lemma readM_Inl [simp]:
  "readM f st w = (Inl e, st', w') \<longleftrightarrow> (\<exists>what. f st = Inl what \<and> e = Throw what) \<and> st' = st \<and> w' = w"
  by (simp add: readM_def)

text \<open>A request that ends in an exception left the store object as it was.\<close>

lemma rekey_throws:
  assumes "libs_ok L" and "wf_store L st"
  shows "store_rotate L p now st w = (Inl e, st', w') \<Longrightarrow> st' = st"
    and "change_passphrase L p q now st w = (Inl e, st', w') \<Longrightarrow> st' = st"
  using store_step_thrown(1) [OF assms, of "RotateOp p now"] store_step_thrown(1) [OF assms, of "PasswdOp p q now"]
  by simp_all

lemma dispatch_thrown:
  assumes "libs_ok L" and "wf_store L st" and run: "dispatch L req now st w = (Inl e, st', w')"
  shows "st' = st"
proof -
  obtain t where ok: "ok_response L = Inr t" using ok_response_returns [OF assms(1)] by blast
  have missing: "\<exists>t. error_response L kErrNotFound = Inr t"
    by (rule error_response_ascii [OF assms(1)]) (simp add: ascii_def byte_def kErrNotFound_def)
  show ?thesis
    using run ok missing
    by (auto simp: dispatch_def bindM_Inl split: if_splits option.splits
        dest: store_set_throws store_remove_throws rekey_throws [OF assms(1,2)])
qed

lemma dispatch_get_thrown:
  assumes "libs_ok L" and "service_ok L st" and "r_op req = ''get''"
    and "dispatch L req now st w = (Inl (Throw what), st', w')"
  shows "has_prefix what ''[json.exception.''"
  using assms(3,4) kv.fetch_view [OF assms(2)] libs_dump_error [OF assms(1)]
  by (auto simp: dispatch_def bindM_Inl error_response_def ok_value_def split: if_splits option.splits)

lemma respond_cases:
  assumes "libs_ok L" and "service_ok L st" and "r_token req = tok" and "respond L tok req st w = (Inr t, st', w')"
  obtains (answered) "service_ok L st'" "json_dump L (fst (kv_spec req (store_view st))) = Inr t"
      "store_view st' = snd (kv_spec req (store_view st))"
    | (thrown) what now w1 where "st' = st" "json_dump L (failure what) = Inr t"
      "dispatch L req now st w1 = (Inl (Throw what), st', w')"
proof -
  let ?now = "clock L (w_tick w)" and ?w = "w\<lparr>w_tick := Suc (w_tick w)\<rparr>"
  obtain r st1 w1 where d: "dispatch L req ?now st ?w = (r, st1, w1)" by (cases "dispatch L req ?now st ?w")
  have wf: "wf_store L st" using assms(2) by (simp add: service_ok_def)
  have m: "token_matches L tok (r_token req)" using assms(1,3) by (simp add: token_matches_iff)
  show ?thesis
  proof (cases r)
    case (Inr t')
    then have "dispatch L req ?now st ?w = (Inr t, st', w')"
      using assms(4) d m by (simp add: respond_def read_clock_run)
    from dispatch_spec [OF assms(1,2) this] show ?thesis using answered by blast
  next
    case (Inl e)
    then obtain what where what: "e = Throw what"
      using assms(4) d m by (cases e) (auto simp: respond_def read_clock_run)
    have "error_response L what = Inr t" "st' = st1" "w' = w1"
      using assms(4) d m Inl what by (simp_all add: respond_def read_clock_run)
    moreover have "st1 = st" using dispatch_thrown [OF assms(1) wf] d Inl by blast
    ultimately show ?thesis using thrown [of what ?now ?w] d Inl what by (simp add: error_response_def failure_def)
  qed
qed

lemma object_dump_parse:
  assumes "libs_ok L" and "json_dump L (json_object ms) = Inr t" and "json_parse L t = Some resp"
  shows "resp = json_object ms"
proof -
  obtain m where m: "json_object ms = JObject m" by (simp add: json_object_def)
  show ?thesis
    using libs_json_round [OF assms(1) json_object_inv [OF m]] assms(2,3) m by simp
qed

lemma kv_spec_object: "\<exists>ms. fst (kv_spec req m) = json_object ms"
  by (auto simp: kv_spec_def Let_def failure_def success_def split: option.split)

lemma failure_response [simp]:
  "response_ok L (failure what) = Inr False" "response_error L (failure what) = RuntimeError what"
  by (simp_all add: failure_def json_object_def response_ok_def response_error_def value_string_def get_string_def
      smap_find_put)

lemma success_object:
  "success ms = JObject (fold (\<lambda>(k, v). smap_put k v) ms (smap_put ''ok'' (JBool True) []))"
  by (simp add: success_def json_object_def)

lemma member_success: "member (success [(name, j)]) name = j"
  by (simp add: success_object member_def smap_find_put)

text \<open>A request that was answered with ok did to the secrets what its contract says.\<close>

lemma request_returns:
  assumes "libs_ok L" and "service_ok L st"
    and "request L uid (daemon_peer L uid (dc_token cl)) cl op key v (st, w) = (Inr resp, (st', w'))"
  shows "service_ok L st' \<and> resp = fst (kv_spec (wire_request cl op key v) (store_view st)) \<and>
    store_view st' = snd (kv_spec (wire_request cl op key v) (store_view st)) \<and>
    (\<forall>what. resp \<noteq> failure what)"
proof -
  let ?rq = "wire_request cl op key v"
  have send: "send L uid (daemon_peer L uid (dc_token cl)) cl (make_request op key v) (st, w) = (Inr resp, (st', w'))"
    and ok: "response_ok L resp = Inr True"
    using assms(3) by (auto simp: request_def request_raw_def bindR_Inr split: if_splits)
  obtain t where t: "respond L (dc_token cl) ?rq st w = (Inr t, st', w')" "json_parse L t = Some resp"
    using send_daemon [OF assms(1) send] by blast
  have "r_token ?rq = dc_token cl" by (simp add: wire_request_def)
  from assms(1,2) this t(1) show ?thesis
  proof (cases rule: respond_cases)
    case answered
    obtain ms where ms: "fst (kv_spec ?rq (store_view st)) = json_object ms"
      using kv_spec_object by blast
    then have "resp = json_object ms"
      using object_dump_parse [OF assms(1) _ t(2)] answered(2) by simp
    then show ?thesis using answered ms ok by auto
  next
    case (thrown what now w1)
    then have "resp = failure what"
      using object_dump_parse [OF assms(1) _ t(2), of "[(''ok'', JBool False), (''error'', JString what)]"]
      by (simp add: failure_def)
    then show ?thesis using ok by simp
  qed
qed

lemma text_not_found: "has_prefix ''not found'' ''[json.exception.'' = False"
  by (simp add: has_prefix_def)

lemma typed_not_found:
  "typed_error e = BackendFailure b \<Longrightarrow> be_kind b = NotFound \<Longrightarrow>
   e = RuntimeError kErrNotFound \<or> (\<exists>b. e = BackendFailure b)"
  by (auto simp: typed_error_def backend_error_of_def split: client_error.splits if_splits)

text \<open>The only way a get is reported missing is that the key is missing.\<close>

lemma send_errors:
  assumes "send L uid P cl req d = (Inl e, d')"
  shows "e \<noteq> RuntimeError kErrNotFound \<and> (\<forall>b. e \<noteq> BackendFailure b) \<or> peer_cred P = Inl kErrNotFound"
  using assms
  by (auto simp: send_def serialize_def op_of_def no_reply_error_def Let_def kErrNotFound_def
      split: if_splits sum.splits option.splits prod.splits bool.splits)

lemma get_not_found:
  assumes "libs_ok L" and "service_ok L st"
    and "local_request L uid (daemon_peer L uid (dc_token cl)) cl ''get'' path None (st, w) =
      (Inl (BackendFailure b), (st', w'))" and "be_kind b = NotFound"
  shows "service_ok L st' \<and> store_view st' = store_view st \<and> store_view st path = None"
proof -
  let ?P = "daemon_peer L uid (dc_token cl)" and ?rq = "wire_request cl ''get'' path None"
  obtain e where e: "request L uid ?P cl ''get'' path None (st, w) = (Inl e, (st', w'))"
    and typed: "typed_error e = BackendFailure b"
    using assms(3) by (auto simp: local_request_def split: prod.splits sum.splits)
  have cred: "peer_cred ?P \<noteq> Inl kErrNotFound" by (simp add: daemon_peer_def)
  obtain r d1 where sd: "send L uid ?P cl (make_request ''get'' path None) (st, w) = (r, d1)"
    by (cases "send L uid ?P cl (make_request ''get'' path None) (st, w)")
  have e': "e = RuntimeError kErrNotFound \<or> (\<exists>b. e = BackendFailure b)"
    by (rule typed_not_found [OF typed assms(4)])
  obtain resp where r: "r = Inr resp"
    using e e' sd send_errors [of L uid ?P] cred
    by (cases r) (auto simp: request_def request_raw_def bindR_def)
  obtain st1 w1 where d1: "d1 = (st1, w1)" by (cases d1)
  obtain t where t: "respond L (dc_token cl) ?rq st w = (Inr t, st1, w1)" "json_parse L t = Some resp"
    using send_daemon [OF assms(1) sd [unfolded r d1]] by blast
  have nf: "resp = failure what \<Longrightarrow> what = kErrNotFound" for what
    using e e' sd r d1 by (auto simp: request_def request_raw_def bindR_def)
  have not_ok: "response_ok L resp \<noteq> Inr True" and st1: "st' = st1"
    using e sd r d1 by (auto simp: request_def request_raw_def bindR_def split: sum.splits if_splits)
  have "r_token ?rq = dc_token cl" by (simp add: wire_request_def)
  from assms(1,2) this t(1) show ?thesis
  proof (cases rule: respond_cases)
    case answered
    obtain ms where ms: "fst (kv_spec ?rq (store_view st)) = json_object ms"
      using kv_spec_object by blast
    then have resp: "resp = fst (kv_spec ?rq (store_view st))"
      using object_dump_parse [OF assms(1) _ t(2)] answered(2) by simp
    show ?thesis
    proof (cases "path = [] \<or> store_view st path \<noteq> None")
      case True
      then have "resp = failure ''missing key'' \<or> (\<exists>v. resp = success [(''value'', JString v)])"
        using resp by (auto simp: kv_spec_def wire_request_def)
      moreover have "resp \<noteq> success [(''value'', JString v)]" for v
        using not_ok by (auto simp: success_object response_ok_def smap_find_put)
      ultimately show ?thesis using nf [of "''missing key''"] by (simp add: kErrNotFound_def)
    next
      case False
      then show ?thesis using answered st1 by (simp add: kv_spec_def wire_request_def)
    qed
  next
    case (thrown what now w2)
    then have "resp = failure what"
      using object_dump_parse [OF assms(1) _ t(2), of "[(''ok'', JBool False), (''error'', JString what)]"]
      by (simp add: failure_def)
    then have "what = kErrNotFound" by (rule nf)
    moreover have "has_prefix what ''[json.exception.''"
      using dispatch_get_thrown [OF assms(1,2) _ thrown(3)] by (simp add: wire_request_def)
    ultimately show ?thesis by (simp add: kErrNotFound_def text_not_found)
  qed
qed

section \<open>The backend interface\<close>

text \<open>
  What the commands rely on, whatever the backend: every path asked for ends up among the
  values or among the failures, and a write changes the one path it names.
\<close>

locale secret_backend =
  fixes view :: "'d \<Rightarrow> string \<Rightarrow> string option"
    and ok :: "'d \<Rightarrow> bool"
    and fetch_many :: "string list \<Rightarrow> 'd \<Rightarrow> (client_error + fetched) \<times> 'd"
    and put :: "string \<Rightarrow> string \<Rightarrow> 'd \<Rightarrow> (client_error + unit) \<times> 'd"
    and erase :: "string \<Rightarrow> 'd \<Rightarrow> (client_error + string option) \<times> 'd"
  assumes fetch_returns: "ok d \<Longrightarrow> fetch_many ps d = (Inr f, d') \<Longrightarrow>
      ok d' \<and> view d' = view d \<and>
      (\<forall>p. map_of (f_values f) p = (if p \<in> set ps then view d p else None)) \<and>
      (\<forall>p. map_of (f_failures f) p \<noteq> None \<longleftrightarrow> p \<in> set ps \<and> view d p = None) \<and>
      (\<forall>p e. map_of (f_failures f) p = Some e \<longrightarrow> be_kind e = NotFound)"
    and put_returns: "ok d \<Longrightarrow> put p v d = (Inr u, d') \<Longrightarrow> ok d' \<and> view d' = (view d)(p \<mapsto> v)"
    and erase_returns: "ok d \<Longrightarrow> erase p d = (Inr o1, d') \<Longrightarrow>
      ok d' \<and> view d p \<noteq> None \<and> view d' = (view d)(p := None)"
begin

text \<open>No path is lost: a fetch without failures has every value, and only those.\<close>

lemma fetch_all:
  assumes "ok d" and "fetch_many ps d = (Inr f, d')" and "f_failures f = []"
  shows "\<forall>p \<in> set ps. map_of (f_values f) p = view d p \<and> view d p \<noteq> None"
proof
  fix p
  assume p: "p \<in> set ps"
  have "map_of (f_failures f) p = None" using assms(3) by simp
  then show "map_of (f_values f) p = view d p \<and> view d p \<noteq> None"
    using fetch_returns [OF assms(1,2)] p by metis
qed

lemma fetch_after_put:
  assumes "ok d" and "put p v d = (Inr u, d1)" and "fetch_many ps d1 = (Inr f, d2)" and "p \<in> set ps"
  shows "map_of (f_values f) p = Some v"
  using put_returns [OF assms(1,2)] fetch_returns [OF _ assms(3)] assms(4) by simp

lemma fetch_after_erase:
  assumes "ok d" and "erase p d = (Inr o1, d1)" and "fetch_many ps d1 = (Inr f, d2)" and "p \<in> set ps"
  shows "map_of (f_values f) p = None \<and> map_of (f_failures f) p \<noteq> None"
  using erase_returns [OF assms(1,2)] fetch_returns [OF _ assms(3)] assms(4) by simp

end

end
