(* ===== verification/LocalBackend.thy ===== *)
theory LocalBackend
  imports EndToEnd
begin

text \<open>
  The local backend against the daemon: grouping paths by prefix and batching a group into one
  request gives exactly the lookups of the single paths.
\<close>

section \<open>Grouping\<close>

definition groups_inv :: "string list \<Rightarrow> (string \<times> string list) list \<Rightarrow> bool" where
  "groups_inv seen m \<longleftrightarrow> smap_inv m \<and> (\<forall>pre grp. map_of m pre = Some grp \<longrightarrow>
     (\<forall>p \<in> set grp. path_prefix p = pre)) \<and> (\<forall>p. p \<in> set seen \<longleftrightarrow> (\<exists>grp. map_of m (path_prefix p) = Some grp \<and> p \<in> set grp))"

lemma groups_inv_add: "groups_inv seen m \<Longrightarrow> groups_inv (seen @ [path]) (add_path path m)"
proof -
  assume inv: "groups_inv seen m"
  define old where "old = or_else (map_of m (path_prefix path)) []"
  define new where "new = (if path \<in> set old then old else old @ [path])"
  have new: "set new = insert path (set old)" by (auto simp: new_def)
  have add: "add_path path m = smap_put (path_prefix path) new m"
    by (simp add: add_path_def Let_def old_def [symmetric] new_def [symmetric])
  have old: "p \<in> set old \<longleftrightarrow> (\<exists>grp. map_of m (path_prefix path) = Some grp \<and> p \<in> set grp)" for p
    by (cases "map_of m (path_prefix path)") (auto simp: old_def)
  have same: "path_prefix p = path_prefix path" if "p \<in> set old" for p
    using that inv old unfolding groups_inv_def by blast
  have "p \<in> set grp \<Longrightarrow> path_prefix p = pre" if "map_of (add_path path m) pre = Some grp" for pre grp p
    using that inv same new by (auto simp: add smap_find_put groups_inv_def split: if_splits)
  moreover have "p \<in> set (seen @ [path]) \<longleftrightarrow>
      (\<exists>grp. map_of (add_path path m) (path_prefix p) = Some grp \<and> p \<in> set grp)" for p
  proof (cases "path_prefix p = path_prefix path")
    case True
    then have "p \<in> set seen \<longleftrightarrow> p \<in> set old"
      using inv old by (simp add: groups_inv_def)
    then show ?thesis using True new by (auto simp: add smap_find_put)
  next
    case False
    then have "p \<noteq> path" by blast
    then show ?thesis using False inv by (simp add: add smap_find_put groups_inv_def)
  qed
  moreover have "smap_inv (add_path path m)"
    using inv by (simp add: add groups_inv_def smap.inv_put)
  ultimately show "groups_inv (seen @ [path]) (add_path path m)"
    unfolding groups_inv_def by blast
qed

lemma groups_inv_fold: "groups_inv seen m \<Longrightarrow> groups_inv (seen @ ps) (fold add_path ps m)"
proof (induction ps arbitrary: seen m)
  case (Cons p ps)
  from Cons.IH [OF groups_inv_add [OF Cons.prems, of p]] show ?case by simp
qed simp

lemma groups_inv_paths: "groups_inv ps (group_by_prefix ps)"
  using groups_inv_fold [of "[]" "[]" ps] by (simp add: group_by_prefix_def groups_inv_def smap_inv_def)

lemma group_members:
  shows "(pre, grp) \<in> set (group_by_prefix ps) \<Longrightarrow> p \<in> set grp \<Longrightarrow> path_prefix p = pre"
    and "(\<exists>pre grp. (pre, grp) \<in> set (group_by_prefix ps) \<and> p \<in> set grp) \<longleftrightarrow> p \<in> set ps"
proof -
  note inv = groups_inv_paths [of ps, unfolded groups_inv_def]
  have mem: "(pre, grp) \<in> set (group_by_prefix ps) \<longleftrightarrow> map_of (group_by_prefix ps) pre = Some grp" for pre grp
    using inv by (simp add: smap_entry_iff)
  show "(pre, grp) \<in> set (group_by_prefix ps) \<Longrightarrow> p \<in> set grp \<Longrightarrow> path_prefix p = pre"
    using inv mem by blast
  show "(\<exists>pre grp. (pre, grp) \<in> set (group_by_prefix ps) \<and> p \<in> set grp) \<longleftrightarrow> p \<in> set ps"
    using inv mem by metis
qed

lemma has_path_prefix: "has_prefix path (path_prefix path)"
  by (auto simp: path_prefix_def has_prefix_def split: option.split dest!: rfind_char_split)

section \<open>Fetching\<close>

type_synonym served = "store \<times> world"

definition served_view :: "served \<Rightarrow> string \<Rightarrow> string option" where
  "served_view d = store_view (fst d)"

definition served_ok :: "libs \<Rightarrow> served \<Rightarrow> bool" where
  "served_ok L d \<longleftrightarrow> service_ok L (fst d)"

text \<open>The state kept its secrets.\<close>

definition unchanged :: "libs \<Rightarrow> served \<Rightarrow> served \<Rightarrow> bool" where
  "unchanged L d d' \<longleftrightarrow> served_ok L d' \<and> served_view d' = served_view d"

lemma local_request_returns:
  assumes "libs_ok L" and "served_ok L d"
    and "local_request L uid (daemon_peer L uid (dc_token cl)) cl op key v d = (Inr resp, d')"
  shows "served_ok L d' \<and> resp = fst (kv_spec (wire_request cl op key v) (served_view d)) \<and>
    served_view d' = snd (kv_spec (wire_request cl op key v) (served_view d)) \<and> (\<forall>what. resp \<noteq> failure what)"
proof -
  obtain st w st' w' where d: "d = (st, w)" "d' = (st', w')" by (cases d; cases d')
  have "request L uid (daemon_peer L uid (dc_token cl)) cl op key v (st, w) = (Inr resp, (st', w'))"
    using assms(3) by (auto simp: local_request_def d split: prod.splits sum.splits)
  from request_returns [OF assms(1) _ this] show ?thesis
    using assms(2) by (auto simp: served_ok_def served_view_def d)
qed

definition finds :: "libs \<Rightarrow> served \<Rightarrow> string \<Rightarrow> (client_error + string) \<times> served \<Rightarrow> bool" where
  "finds L d path res \<longleftrightarrow>
     (\<forall>v d'. res = (Inr v, d') \<longrightarrow> unchanged L d d' \<and> served_view d path = Some v) \<and>
     (\<forall>b d'. res = (Inl (BackendFailure b), d') \<longrightarrow> be_kind b = NotFound \<longrightarrow>
        unchanged L d d' \<and> served_view d path = None)"

lemma finds_value: "finds L d path (Inr v, d1) \<Longrightarrow> unchanged L d d1 \<and> served_view d path = Some v"
  unfolding finds_def by blast

lemma finds_missing:
  "finds L d path (Inl (BackendFailure b), d1) \<Longrightarrow> be_kind b = NotFound \<Longrightarrow> unchanged L d d1 \<and> served_view d path = None"
  unfolding finds_def by blast

lemma fetch_single:
  assumes "libs_ok L" and "served_ok L d"
  shows "finds L d path (fetch_one L uid (daemon_peer L uid (dc_token cl)) cl False scope path d)"
proof -
  let ?P = "daemon_peer L uid (dc_token cl)"
  obtain r d1 where lr: "local_request L uid ?P cl ''get'' path None d = (r, d1)"
    by (cases "local_request L uid ?P cl ''get'' path None d")
  show ?thesis
  proof (cases r)
    case (Inr resp)
    note got = local_request_returns [OF assms lr [unfolded Inr]]
    have "\<exists>v. served_view d path = Some v \<and> resp = success [(''value'', JString v)]"
      using got by (auto simp: kv_spec_def wire_request_def split: option.splits if_splits)
    then show ?thesis
      using lr Inr got
      by (auto simp: finds_def fetch_one_def bindR_def unchanged_def member_success take_string_def kv_spec_def
          wire_request_def)
  next
    case (Inl e)
    obtain st w st' w' where d: "d = (st, w)" "d1 = (st', w')" by (cases d; cases d1)
    have "unchanged L d d1 \<and> served_view d path = None" if "e = BackendFailure b" "be_kind b = NotFound" for b
      using get_not_found [OF assms(1) _ lr [unfolded Inl that(1) d] that(2)] assms(2)
      by (simp add: unchanged_def served_ok_def served_view_def d)
    then show ?thesis
      using lr Inl by (auto simp: finds_def fetch_one_def bindR_def)
  qed
qed

lemma fetch_scope_returns:
  assumes "libs_ok L" and "served_ok L d" and "pre \<noteq> []"
    and "fetch_scope L uid (daemon_peer L uid (dc_token cl)) cl pre d = (Inr scope, d')"
  shows "unchanged L d d' \<and> (\<forall>k. map_of scope k = (if has_prefix k pre then served_view d k else None))"
proof -
  let ?P = "daemon_peer L uid (dc_token cl)" and ?m = "restrict_prefix pre (served_view d)"
  obtain resp where lr: "local_request L uid ?P cl ''getprefix'' pre None d = (Inr resp, d')"
    and sc: "\<exists>found. collectE (\<lambda>(k, j). bindE (take_string j) (\<lambda>s. Inr (k, s))) (items (member resp ''values'')) = Inr found \<and>
      scope = fold (\<lambda>(k, s). smap_emplace k s) found []"
    using assms(4) by (auto simp: fetch_scope_def bindR_Inr)
  note got = local_request_returns [OF assms(1,2) lr]
  have "member resp ''values'' = JObject (map (\<lambda>(k, v). (k, JString v)) ?m)"
    using got assms(3) by (simp add: kv_spec_def wire_request_def member_success)
  moreover have "collectE (\<lambda>(k, j). bindE (take_string j) (\<lambda>s. Inr (k, s))) (map (\<lambda>(k, v). (k, JString v)) es) = Inr es"
    for es :: "(string \<times> string) list"
    by (induction es) (auto simp: take_string_def)
  ultimately have "scope = fold (\<lambda>(k, s). smap_emplace k s) ?m []"
    using sc by (simp add: items_def)
  moreover have "map_of (fold (\<lambda>(k, s). smap_emplace k s) es m0) k =
      (case map_of m0 k of Some v \<Rightarrow> Some v | None \<Rightarrow> map_of es k)" for es m0 :: "(string \<times> string) list" and k
    by (induction es arbitrary: m0) (auto simp: smap_find_emplace split: option.splits)
  moreover have "map_of ?m k = (if has_prefix k pre then served_view d k else None)" for k
  proof -
    obtain m where m: "get_prefix L pre (fst d) = Inr m"
      "\<forall>k. map_of m k = (if has_prefix k pre then store_view (fst d) k else None)"
      using kv.scope_view [of L "fst d" pre] assms(2) by (auto simp: served_ok_def)
    then show ?thesis
      using get_prefix_spec [of L "fst d" pre] assms(2) by (simp add: served_ok_def served_view_def)
  qed
  ultimately show ?thesis
    using got by (simp add: unchanged_def kv_spec_def wire_request_def)
qed

lemma fetch_batched:
  assumes "\<And>k. map_of scope k = (if has_prefix k pre then served_view d k else None)" and "has_prefix path pre"
    and "served_ok L d"
  shows "finds L d path (fetch_one L uid P cl True scope path d)"
  using assms by (auto simp: finds_def fetch_one_def unchanged_def split: option.splits)

text \<open>What the accumulator holds after the paths seen so far.\<close>

definition fetched_inv :: "(string \<Rightarrow> string option) \<Rightarrow> string set \<Rightarrow> fetched \<Rightarrow> bool" where
  "fetched_inv m seen f \<longleftrightarrow>
     (\<forall>p. map_of (f_values f) p = (if p \<in> seen then m p else None)) \<and>
     (\<forall>p. map_of (f_failures f) p \<noteq> None \<longleftrightarrow> p \<in> seen \<and> m p = None) \<and>
     (\<forall>p e. map_of (f_failures f) p = Some e \<longrightarrow> be_kind e = NotFound)"

lemma fetched_inv_value:
  "fetched_inv m seen f \<Longrightarrow> m p = Some v \<Longrightarrow>
   fetched_inv m (insert p seen) (f\<lparr>f_values := smap_emplace p v (f_values f)\<rparr>)"
  by (auto simp: fetched_inv_def smap_find_emplace split: if_splits)

lemma fetched_inv_failure:
  "fetched_inv m seen f \<Longrightarrow> m p = None \<Longrightarrow> be_kind e = NotFound \<Longrightarrow>
   fetched_inv m (insert p seen) (f\<lparr>f_failures := smap_emplace p e (f_failures f)\<rparr>)"
  by (auto simp: fetched_inv_def smap_find_emplace split: if_splits)

lemma fetch_group_returns:
  assumes "\<And>path d. path \<in> set grp \<Longrightarrow> served_ok L d \<Longrightarrow> served_view d = m \<Longrightarrow>
      finds L d path (fetch_one L uid P cl batched scope path d)"
  shows "served_ok L d \<Longrightarrow> served_view d = m \<Longrightarrow> fetched_inv m seen acc \<Longrightarrow>
    fetch_group L uid P cl batched scope grp acc d = (Inr f, d') \<Longrightarrow>
    served_ok L d' \<and> served_view d' = m \<and> fetched_inv m (seen \<union> set grp) f"
  using assms
proof (induction grp arbitrary: d acc seen)
  case Nil
  then show ?case by simp
next
  case (Cons path grp)
  obtain r d1 where one: "fetch_one L uid P cl batched scope path d = (r, d1)"
    by (cases "fetch_one L uid P cl batched scope path d")
  have finds: "finds L d path (r, d1)"
    using Cons.prems(5) [of path d] Cons.prems(1,2) one by simp
  show ?case
  proof (cases r)
    case (Inr v)
    then have "served_ok L d1" "served_view d1 = m" "m path = Some v"
      using finds_value [of L d path v d1] finds Cons.prems(2) by (simp_all add: unchanged_def)
    with Cons.IH [of d1 "insert path seen" "acc\<lparr>f_values := smap_emplace path v (f_values acc)\<rparr>"] Cons.prems
    show ?thesis
      using one Inr fetched_inv_value [OF Cons.prems(3)] by auto
  next
    case (Inl e)
    then obtain b where b: "e = BackendFailure b" "be_kind b = NotFound"
      using Cons.prems(4) one by (cases e) (auto split: if_splits)
    then have "served_ok L d1" "served_view d1 = m" "m path = None"
      using finds_missing [of L d path b d1] finds Inl Cons.prems(2) by (simp_all add: unchanged_def)
    with Cons.IH [of d1 "insert path seen" "acc\<lparr>f_failures := smap_emplace path b (f_failures acc)\<rparr>"] Cons.prems
    show ?thesis
      using one Inl b fetched_inv_failure [OF Cons.prems(3) _ b(2)] by auto
  qed
qed

lemma fetch_groups_returns:
  assumes "libs_ok L" and "\<And>pre grp p. (pre, grp) \<in> set gs \<Longrightarrow> p \<in> set grp \<Longrightarrow> has_prefix p pre"
  shows "served_ok L d \<Longrightarrow> served_view d = m \<Longrightarrow> fetched_inv m seen acc \<Longrightarrow>
    fetch_groups L uid (daemon_peer L uid (dc_token cl)) cl gs acc d = (Inr f, d') \<Longrightarrow>
    served_ok L d' \<and> served_view d' = m \<and> fetched_inv m (seen \<union> (\<Union>(pre, grp) \<in> set gs. set grp)) f"
  using assms(2)
proof (induction gs arbitrary: d acc seen)
  case Nil
  then show ?case by simp
next
  case (Cons g gs)
  let ?P = "daemon_peer L uid (dc_token cl)"
  obtain pre grp where g: "g = (pre, grp)" by (cases g)
  define batched where "batched = (pre \<noteq> [] \<and> length grp > 1)"
  obtain scope d1 acc1 d2 where
    sc: "(if batched then fetch_scope L uid ?P cl pre else returnR []) d = (Inr scope, d1)"
    and fg: "fetch_group L uid ?P cl batched scope grp acc d1 = (Inr acc1, d2)"
    and rest: "fetch_groups L uid ?P cl gs acc1 d2 = (Inr f, d')"
    using Cons.prems(4) by (auto simp: g Let_def bindR_Inr batched_def)
  have d1: "served_ok L d1 \<and> served_view d1 = m \<and>
      (batched \<longrightarrow> (\<forall>k. map_of scope k = (if has_prefix k pre then m k else None)))"
    using sc fetch_scope_returns [OF assms(1) Cons.prems(1), of pre uid cl scope d1] Cons.prems(1,2)
    by (cases batched) (auto simp: batched_def unchanged_def)
  have one: "finds L d path (fetch_one L uid ?P cl batched scope path d)"
    if "path \<in> set grp" "served_ok L d" "served_view d = m" for path d
  proof (cases batched)
    case True
    have "has_prefix path pre" using Cons.prems(5) that(1) g by auto
    then show ?thesis using True d1 that fetch_batched [of scope pre d path L] by simp
  next
    case False
    then show ?thesis using fetch_single [OF assms(1) that(2)] by simp
  qed
  have "served_ok L d2 \<and> served_view d2 = m \<and> fetched_inv m (seen \<union> set grp) acc1"
    by (rule fetch_group_returns [OF one _ _ Cons.prems(3) fg]) (use d1 in blast)+
  then have d2: "served_ok L d2" "served_view d2 = m" "fetched_inv m (seen \<union> set grp) acc1" by simp_all
  have "has_prefix p pre'" if "(pre', grp') \<in> set gs" "p \<in> set grp'" for pre' grp' p
    using Cons.prems(5) [of pre' grp' p] that by simp
  with Cons.IH [OF d2 rest] have "served_ok L d' \<and> served_view d' = m \<and>
      fetched_inv m (seen \<union> set grp \<union> (\<Union>(pre, grp) \<in> set gs. set grp)) f"
    by blast
  then show ?case by (simp add: g Un_assoc)
qed

section \<open>The interface, provided\<close>

lemma get_many_returns:
  assumes "libs_ok L" and "served_ok L d"
    and "get_many L uid (daemon_peer L uid (dc_token cl)) cl ps d = (Inr f, d')"
  shows "served_ok L d' \<and> served_view d' = served_view d \<and> fetched_inv (served_view d) (set ps) f"
proof -
  have "fetched_inv (served_view d) {} \<lparr>f_values = [], f_failures = []\<rparr>"
    by (simp add: fetched_inv_def)
  moreover have "has_prefix p pre" if "(pre, grp) \<in> set (group_by_prefix ps)" "p \<in> set grp" for pre grp p
    using group_members(1) [OF that] has_path_prefix by metis
  ultimately have "served_ok L d' \<and> served_view d' = served_view d \<and>
      fetched_inv (served_view d) ({} \<union> (\<Union>(pre, grp) \<in> set (group_by_prefix ps). set grp)) f"
    using fetch_groups_returns [OF assms(1) _ assms(2) refl] assms(3) unfolding get_many_def by blast
  moreover have "(\<Union>(pre, grp) \<in> set (group_by_prefix ps). set grp) = set ps"
    using group_members(2) [of ps] by auto
  ultimately show ?thesis by simp
qed

definition local_ok :: "libs \<Rightarrow> served \<Rightarrow> bool" where
  "local_ok L d \<longleftrightarrow> libs_ok L \<and> served_ok L d"

interpretation lb: secret_backend served_view "local_ok L"
  "get_many L uid (daemon_peer L uid (dc_token cl)) cl" "backend_set L uid (daemon_peer L uid (dc_token cl)) cl"
  "backend_remove L uid (daemon_peer L uid (dc_token cl)) cl" for L uid cl
proof (unfold_locales, goal_cases)
  case (1 d ps f d')
  then show ?case
    using get_many_returns [of L d uid cl ps f d'] by (simp add: local_ok_def fetched_inv_def)
next
  case (2 d p v u d')
  then have ok: "libs_ok L" "served_ok L d" by (simp_all add: local_ok_def)
  obtain resp where "local_request L uid (daemon_peer L uid (dc_token cl)) cl ''set'' p (Some v) d = (Inr resp, d')"
    using 2(2) by (auto simp: backend_set_def bindR_Inr)
  from local_request_returns [OF ok this] show ?case
    using ok by (auto simp: local_ok_def kv_spec_def wire_request_def split: if_splits)
next
  case (3 d p o1 d')
  then have ok: "libs_ok L" "served_ok L d" by (simp_all add: local_ok_def)
  obtain resp where "local_request L uid (daemon_peer L uid (dc_token cl)) cl ''delete'' p None d = (Inr resp, d')"
    using 3(2) by (auto simp: backend_remove_def bindR_Inr)
  from local_request_returns [OF ok this] show ?case
    using ok by (auto simp: local_ok_def kv_spec_def wire_request_def split: if_splits)
qed

end
