(* ===== verification/Commands.thy ===== *)
theory Commands
  imports ManifestFiles LocalBackend
begin

text \<open>
  The commands of src/src/client.cpp that resolve a scope and use the backend: their argument
  parsing, the choice of manifest and environment, \<open>exec\<close>. Usage texts on stderr are not
  modelled; a bad command line is the exit code 2.
\<close>

section \<open>Scope flags\<close>

record scope_args =
  sc_project :: "string option"
  sc_env :: "string option"

definition no_scope :: scope_args where
  "no_scope = \<lparr>sc_project = None, sc_env = None\<rparr>"

text \<open>Consumes a flag and its value at the head of the arguments; None when the head is no flag.\<close>

definition take_scope_arg :: "string \<Rightarrow> string list \<Rightarrow> scope_args \<Rightarrow> string + (scope_args \<times> string list) option" where
  "take_scope_arg arg rest scope =
     (let is_p = (arg = ''-p'' \<or> arg = ''--project''); is_e = (arg = ''-e'' \<or> arg = ''--env'') in
      if \<not> is_p \<and> \<not> is_e then Inr None else
      (case rest of
         [] \<Rightarrow> Inl (arg @ '' requires a value'')
       | v # rest' \<Rightarrow>
           Inr (Some (if is_p then scope\<lparr>sc_project := Some v\<rparr> else scope\<lparr>sc_env := Some v\<rparr>, rest'))))"

lemma take_scope_arg_shorter [simp]:
  "take_scope_arg arg rest scope = Inr (Some (scope', rest')) \<Longrightarrow> length rest' < Suc (length rest)"
  by (auto simp: take_scope_arg_def Let_def split: if_splits list.splits)

text \<open>
  The loop of \<open>parse_entry_args\<close>; the flags are consumed unless the options have ended. With
  \<open>raw_key\<close> any NAME is accepted and only \<open>-p\<close> and \<open>-e\<close> are flags.
\<close>

function entry_args ::
  "bool \<Rightarrow> bool \<Rightarrow> string option \<Rightarrow> scope_args \<Rightarrow> string list \<Rightarrow> string + scope_args \<times> string option" where
  "entry_args raw_key options_ended name scope [] = Inr (scope, name)"
| "entry_args raw_key options_ended name scope (arg # rest) =
     (if \<not> options_ended \<and> raw_key \<and> arg = ''--'' then entry_args raw_key True name scope rest else
      case (if \<not> options_ended \<and> (\<not> raw_key \<or> arg = ''-p'' \<or> arg = ''-e'')
            then take_scope_arg arg rest scope else Inr None) of
        Inl what \<Rightarrow> Inl what
      | Inr (Some (scope', rest')) \<Rightarrow> entry_args raw_key options_ended name scope' rest'
      | Inr None \<Rightarrow>
          if name \<noteq> None \<or> arg = [] \<or> (\<not> raw_key \<and> hd arg = CHR ''-'')
          then Inl (''unexpected argument '' @ quoted arg)
          else entry_args raw_key options_ended (Some arg) scope rest)"
  by pat_completeness auto
termination
  by (relation "measure (\<lambda>(raw, ended, name, scope, args). length args)")
    (auto split: if_splits dest: take_scope_arg_shorter)

declare entry_args.simps [simp del]

text \<open>None is the usage on stderr and the exit code 2.\<close>

definition parse_entry_args :: "bool \<Rightarrow> string list \<Rightarrow> (scope_args \<times> string) option" where
  "parse_entry_args raw_key args =
     (case entry_args raw_key False None no_scope args of
        Inr (scope, Some name) \<Rightarrow> Some (scope, name)
      | _ \<Rightarrow> None)"

section \<open>Which manifest, environment and backend\<close>

definition project_missing :: "paths \<Rightarrow> string \<Rightarrow> string" where
  "project_missing paths project =
     ''project '' @ quoted project @ '' is not in '' @ p_registry paths @ ''; add it there or run from inside the project''"

definition resolve_manifest ::
  "system \<Rightarrow> yaml_lib \<Rightarrow> paths \<Rightarrow> string + string \<Rightarrow> scope_args \<Rightarrow> string + manifest" where
  "resolve_manifest S Y paths cwd scope =
     (case sc_project scope of
        Some project \<Rightarrow>
          bindE (registry_project_root S Y (p_registry paths) project) (\<lambda>found.
            case found of
              None \<Rightarrow> Inl (project_missing paths project)
            | Some root \<Rightarrow>
                bindE (load_manifest S Y (root @ ''/'' @ kManifestFileName)) (\<lambda>m.
                  if m_project m \<noteq> project
                  then Inl (''manifest '' @ m_path m @ '' names project '' @ quoted (m_project m) @
                         '' but registry entry is '' @ quoted project)
                  else Inr m))
      | None \<Rightarrow>
          bindE cwd (\<lambda>dir.
            case find_manifest_upward S dir of
              None \<Rightarrow> Inl (''no '' @ kManifestFileName @ '' found from the current directory upward; pass -p NAME'')
            | Some found \<Rightarrow> load_manifest S Y found))"

definition resolve_env :: "environ \<Rightarrow> scope_args \<Rightarrow> manifest option \<Rightarrow> string + string" where
  "resolve_env env scope maybe_manifest =
     (case sc_env scope of
        Some e \<Rightarrow> Inr e
      | None \<Rightarrow>
          (case env_nonempty env kEnvOverrideVar of
             Some v \<Rightarrow> Inr v
           | None \<Rightarrow>
               (case maybe_manifest of
                  Some m \<Rightarrow>
                    (case m_default_env m of
                       Some e \<Rightarrow> Inr e
                     | None \<Rightarrow> Inl (''no environment: pass -e ENV, set '' @ kEnvOverrideVar @ '', or add default_env to the manifest''))
                | None \<Rightarrow> Inl (''no environment: pass -e ENV, set '' @ kEnvOverrideVar @ '', or add default_env to the manifest''))))"

record resolved_scope =
  rs_env :: string
  rs_project :: string
  rs_manifest :: "manifest option"

definition rs_backend :: "resolved_scope \<Rightarrow> backend_config" where
  "rs_backend r = (case rs_manifest r of Some m \<Rightarrow> m_backend m | None \<Rightarrow> \<lparr>bc_type = Local, bc_location = []\<rparr>)"

definition resolve_scope ::
  "system \<Rightarrow> yaml_lib \<Rightarrow> paths \<Rightarrow> string + string \<Rightarrow> scope_args \<Rightarrow> string + resolved_scope" where
  "resolve_scope S Y paths cwd scope =
     bindE (case sc_project scope of
              None \<Rightarrow> bindE (resolve_manifest S Y paths cwd scope) (\<lambda>m. Inr (Some m))
            | Some project \<Rightarrow>
                bindE (registry_project_root S Y (p_registry paths) project) (\<lambda>root.
                  if root = None then Inr None
                  else bindE (resolve_manifest S Y paths cwd scope) (\<lambda>m. Inr (Some m)))) (\<lambda>maybe_manifest.
     let project = (case sc_project scope of Some p \<Rightarrow> p
                    | None \<Rightarrow> (case maybe_manifest of Some m \<Rightarrow> m_project m | None \<Rightarrow> [])) in
     bindE (resolve_env (sys_env S) scope maybe_manifest) (\<lambda>env.
       Inr \<lparr>rs_env = env, rs_project = project, rs_manifest = maybe_manifest\<rparr>))"

definition vars_for :: "manifest \<Rightarrow> string \<Rightarrow> key_values" where
  "vars_for m env = or_else (map_of (m_vars m) env) []"

definition entries_for :: "manifest \<Rightarrow> string \<Rightarrow> string + secret_entry list" where
  "entries_for m env =
     (case map_of (m_envs m) env of
        None \<Rightarrow> Inl (''environment '' @ quoted env @ '' not found in '' @ m_path m)
      | Some entries \<Rightarrow> Inr entries)"

text \<open>The local backend; the cloud ones are not compiled in.\<close>

definition open_backend :: "backend_config \<Rightarrow> string + daemon_client \<Rightarrow> client_error + daemon_client" where
  "open_backend config client =
     (case bc_type config of
        Local \<Rightarrow> (case client of Inl what \<Rightarrow> Inl (BackendFailure (backend_error_of NoCredentials what)) | Inr cl \<Rightarrow> Inr cl)
      | Aws \<Rightarrow> Inl (RuntimeError ''backend 'aws' not compiled in (rebuild with -DSECRETOV_BACKEND_AWS=ON)'')
      | Gcp \<Rightarrow> Inl (RuntimeError ''backend 'gcp' not compiled in (rebuild with -DSECRETOV_BACKEND_GCP=ON)''))"

text \<open>The backend configuration and the path of a NAME.\<close>

definition resolve_target ::
  "system \<Rightarrow> yaml_lib \<Rightarrow> paths \<Rightarrow> string + string \<Rightarrow> scope_args \<Rightarrow> string \<Rightarrow> string + backend_config \<times> string" where
  "resolve_target S Y paths cwd scope name =
     (if sc_project scope = None \<and> sc_env scope = None then Inr (\<lparr>bc_type = Local, bc_location = []\<rparr>, name) else
      bindE (resolve_scope S Y paths cwd scope) (\<lambda>resolved.
      bindE (scoped_key (rs_env resolved) (rs_project resolved) name) (\<lambda>path.
        Inr (rs_backend resolved, path))))"

definition error_text :: "client_error \<Rightarrow> string" where
  "error_text e =
     (case e of DaemonUnreachable what at t s \<Rightarrow> what | RuntimeError what \<Rightarrow> what | JsonError what \<Rightarrow> what
      | BackendFailure b \<Rightarrow> be_what b)"

section \<open>Getting, setting, deleting\<close>

definition target_client ::
  "system \<Rightarrow> yaml_lib \<Rightarrow> paths \<Rightarrow> string + string \<Rightarrow> string + daemon_client \<Rightarrow> scope_args \<Rightarrow> string \<Rightarrow> client_error + daemon_client \<times> string" where
  "target_client S Y paths cwd client scope name =
     (case resolve_target S Y paths cwd scope name of
        Inl what \<Rightarrow> Inl (RuntimeError what)
      | Inr (config, path) \<Rightarrow> bindE (open_backend config client) (\<lambda>cl. Inr (cl, path)))"

text \<open>The value printed; a failure of the one path is the exception.\<close>

definition get_value :: "libs \<Rightarrow> nat \<Rightarrow> 'd peer \<Rightarrow> daemon_client \<Rightarrow> string \<Rightarrow> ('d, string) remote" where
  "get_value L uid P cl path =
     bindR (get_many L uid P cl [path]) (\<lambda>f.
       case f_failures f of
         (p, e) # _ \<Rightarrow> throwR (BackendFailure e)
       | [] \<Rightarrow> (case map_of (f_values f) path of Some v \<Rightarrow> returnR v | None \<Rightarrow> throwR (RuntimeError ''map::at'')))"

text \<open>One line read from the pipe: the final newline, then a carriage return, is stripped.\<close>

definition strip_newline :: "string \<Rightarrow> string" where
  "strip_newline v =
     (let v = (if v \<noteq> [] \<and> last v = LF then butlast v else v) in
      if v \<noteq> [] \<and> last v = CR then butlast v else v)"

definition value_to_set :: "(string + string) option \<Rightarrow> string \<Rightarrow> string + string" where
  "value_to_set typed piped =
     (case typed of
        Some line \<Rightarrow>
          bindE line (\<lambda>v. if v = []
            then Inl ''empty value on the terminal; nothing stored (pipe an empty value if you mean it)''
            else Inr v)
      | None \<Rightarrow> Inr (strip_newline piped))"

section \<open>exec\<close>

record exec_args =
  ex_scope :: scope_args
  ex_dry_run :: bool
  ex_raw :: "(string \<times> string) list"    \<comment> \<open>key, variable\<close>
  ex_program :: "string list"

definition secret_spec :: "string \<Rightarrow> string \<times> string" where
  "secret_spec spec =
     (case find_char (CHR ''='') spec of
        None \<Rightarrow> (spec, spec)
      | Some eq \<Rightarrow> (take eq spec, drop (eq + 1) spec))"

function exec_args_of :: "string list \<Rightarrow> exec_args \<Rightarrow> string + exec_args" where
  "exec_args_of [] acc = Inr acc"
| "exec_args_of (arg # rest) acc =
     (if arg = ''--'' then Inr (acc\<lparr>ex_program := rest\<rparr>) else
      case take_scope_arg arg rest (ex_scope acc) of
        Inl what \<Rightarrow> Inl what
      | Inr (Some (scope, rest')) \<Rightarrow> exec_args_of rest' (acc\<lparr>ex_scope := scope\<rparr>)
      | Inr None \<Rightarrow>
          if arg = ''--dry-run'' then exec_args_of rest (acc\<lparr>ex_dry_run := True\<rparr>)
          else if arg = ''--secret'' then
            (case rest of
               [] \<Rightarrow> Inl ''--secret requires KEY[=ENVVAR]''
             | spec # rest' \<Rightarrow> exec_args_of rest' (acc\<lparr>ex_raw := ex_raw acc @ [secret_spec spec]\<rparr>))
          else Inl (''unexpected argument '' @ quoted arg @ '' before '' @ quoted ''--''))"
  by pat_completeness auto
termination
  by (relation "measure (\<lambda>(args, acc). length args)") (auto dest: take_scope_arg_shorter)

declare exec_args_of.simps [simp del]

text \<open>What to inject: the backend, the (variable, path) pairs and the plaintext variables.\<close>

definition exec_wanted ::
  "system \<Rightarrow> yaml_lib \<Rightarrow> paths \<Rightarrow> string + string \<Rightarrow> exec_args \<Rightarrow> string + backend_config \<times> (string \<times> string) list \<times> key_values" where
  "exec_wanted S Y paths cwd args =
     bindE (if sc_project (ex_scope args) \<noteq> None \<or> sc_env (ex_scope args) \<noteq> None \<or> ex_raw args = [] then
              bindE (resolve_manifest S Y paths cwd (ex_scope args)) (\<lambda>m.
              bindE (refuse_if (ex_raw args \<noteq> [] \<and> bc_type (m_backend m) \<noteq> Local)
                  (''--secret names raw local-store keys; this manifest uses '' @ backend_type_name (bc_type (m_backend m)))) (\<lambda>_.
              bindE (resolve_env (sys_env S) (ex_scope args) (Some m)) (\<lambda>env.
              bindE (entries_for m env) (\<lambda>entries.
                Inr (m_backend m, map (\<lambda>e. (se_env_var e, se_path e)) entries, vars_for m env)))))
            else Inr (\<lparr>bc_type = Local, bc_location = []\<rparr>, [], []))
       (\<lambda>(config, wanted, plain). Inr (config, wanted @ map (\<lambda>(key, envvar). (envvar, key)) (ex_raw args), plain))"

text \<open>\<open>setenv\<close> takes C strings and refuses an empty name or one with an equals sign.\<close>

definition c_str :: "string \<Rightarrow> string" where
  "c_str s = takeWhile (\<lambda>c. c \<noteq> CHR 0x00) s"

definition export_env_var :: "string \<Rightarrow> string \<Rightarrow> environ \<Rightarrow> string + environ" where
  "export_env_var name v env =
     (if c_str name = [] \<or> CHR ''='' \<in> set (c_str name) then Inl (''setenv '' @ quoted name @ '' failed'')
      else Inr (env(c_str name \<mapsto> c_str v)))"

fun inject_all :: "(string \<times> string) list \<Rightarrow> environ \<times> string list \<Rightarrow> string + environ \<times> string list" where
  "inject_all [] acc = Inr acc"
| "inject_all ((envvar, v) # todo) acc =
     bindE (export_env_var envvar v (fst acc)) (\<lambda>env. inject_all todo (env, push_new envvar (snd acc)))"

text \<open>The variables that tell a nested run what was injected.\<close>

definition mark_injected :: "environ \<times> string list \<Rightarrow> string + environ" where
  "mark_injected acc =
     (case acc of (env, injected) \<Rightarrow>
       if injected = [] then Inr env else
       export_env_var kInjectedVar
         ((case env_nonempty env kInjectedVar of Some inherited \<Rightarrow> inherited @ '','' | None \<Rightarrow> []) @ join injected '','') env)"

text \<open>The paths not found; any other failure is thrown.\<close>

fun missing_paths :: "(string \<times> backend_error) list \<Rightarrow> (string \<times> string) list \<Rightarrow> client_error + string list" where
  "missing_paths failures [] = Inr []"
| "missing_paths failures ((envvar, path) # wanted) =
     (case map_of failures path of
        None \<Rightarrow> missing_paths failures wanted
      | Some e \<Rightarrow>
          if be_kind e \<noteq> NotFound then Inl (BackendFailure e)
          else bindE (missing_paths failures wanted) (\<lambda>found. Inr (path # found)))"

definition value_at :: "(string \<times> string) list \<Rightarrow> string \<times> string \<Rightarrow> client_error + string \<times> string" where
  "value_at values wp =
     (case map_of values (snd wp) of None \<Rightarrow> Inl (RuntimeError ''map::at'') | Some v \<Rightarrow> Inr (fst wp, v))"

definition inject_env ::
  "environ \<Rightarrow> key_values \<Rightarrow> (string \<times> string) list \<Rightarrow> fetched \<Rightarrow> client_error + environ" where
  "inject_env env plain wanted f =
     bindE (missing_paths (f_failures f) wanted) (\<lambda>missing.
     bindE (refuse_if (missing \<noteq> []) (RuntimeError (''missing secrets: '' @ join missing '', ''))) (\<lambda>_.
     bindE (collectE (value_at (f_values f)) wanted) (\<lambda>secrets.
     case bindE (inject_all (plain @ secrets) (env, [])) mark_injected of
       Inl what \<Rightarrow> Inl (RuntimeError what)
     | Inr env' \<Rightarrow> Inr env')))"

datatype exec_outcome =
    Usage                    \<comment> \<open>exit code 2\<close>
  | ExecFailed string        \<comment> \<open>exit code 1\<close>
  | DryRun "string list"     \<comment> \<open>the lines printed\<close>
  | Launch "string list" environ

definition dry_run_lines :: "key_values \<Rightarrow> (string \<times> string) list \<Rightarrow> string list" where
  "dry_run_lines plain wanted = map (\<lambda>(n, v). n @ '' = '' @ v) plain @ map (\<lambda>(n, p). n @ '' <- '' @ p) wanted"

definition cmd_exec ::
  "libs \<Rightarrow> system \<Rightarrow> yaml_lib \<Rightarrow> paths \<Rightarrow> string + string \<Rightarrow> string + daemon_client \<Rightarrow> 'd peer \<Rightarrow> string list \<Rightarrow> 'd \<Rightarrow> exec_outcome \<times> 'd" where
  "cmd_exec L S Y paths cwd client P argv d =
     (case exec_args_of argv \<lparr>ex_scope = no_scope, ex_dry_run = False, ex_raw = [], ex_program = []\<rparr> of
        Inl what \<Rightarrow> (Usage, d)
      | Inr args \<Rightarrow>
          if ex_program args = [] \<and> \<not> ex_dry_run args then (Usage, d) else
          (case exec_wanted S Y paths cwd args of
             Inl what \<Rightarrow> (ExecFailed what, d)
           | Inr (config, wanted, plain) \<Rightarrow>
               if ex_dry_run args then (DryRun (dry_run_lines plain wanted), d) else
               (case open_backend config client of
                  Inl e \<Rightarrow> (ExecFailed (error_text e), d)
                | Inr cl \<Rightarrow>
                    (case get_many L (sys_uid S) P cl (map snd wanted) d of
                       (Inl e, d') \<Rightarrow> (ExecFailed (error_text e), d')
                     | (Inr f, d') \<Rightarrow>
                         (case inject_env (sys_env S) plain wanted f of
                            Inl e \<Rightarrow> (ExecFailed (error_text e), d')
                          | Inr env \<Rightarrow> (Launch (ex_program args) env, d'))))))"

end
