(* ===== verification/CommandsFacts.thy ===== *)
theory CommandsFacts
  imports Commands
begin

text \<open>
  What the commands guarantee: a value never comes from the command line, a fetched value is
  the stored one, and a manifest cannot set a refused variable in the environment of a child.
\<close>

section \<open>Command lines\<close>

text \<open>The arguments that are neither a flag nor the value of one.\<close>

fun positionals :: "string list \<Rightarrow> string list" where
  "positionals [] = []"
| "positionals (arg # rest) =
     (if arg \<in> {''-p'', ''--project'', ''-e'', ''--env''} then positionals (tl rest) else arg # positionals rest)"

lemma take_scope_None: "take_scope_arg arg rest scope = Inr None \<longleftrightarrow> arg \<notin> {''-p'', ''--project'', ''-e'', ''--env''}"
  by (auto simp: take_scope_arg_def Let_def split: list.splits)

lemma take_scope_Some:
  "take_scope_arg arg rest scope = Inr (Some (scope', rest')) \<Longrightarrow>
   arg \<in> {''-p'', ''--project'', ''-e'', ''--env''} \<and> rest \<noteq> [] \<and> rest' = tl rest"
  by (auto simp: take_scope_arg_def Let_def split: list.splits if_splits)

lemma entry_args_plain:
  "entry_args False False name scope [] = Inr (scope, name)"
  "entry_args False False name scope (arg # rest) =
     (case take_scope_arg arg rest scope of
        Inl what \<Rightarrow> Inl what
      | Inr (Some (scope', rest')) \<Rightarrow> entry_args False False name scope' rest'
      | Inr None \<Rightarrow>
          if name \<noteq> None \<or> arg = [] \<or> hd arg = CHR ''-''
          then Inl (''unexpected argument '' @ quoted arg)
          else entry_args False False (Some arg) scope rest)"
  by (cases name; simp add: entry_args.simps split: sum.split option.split)+

text \<open>
  Without \<open>raw_key\<close>: exactly one positional argument is accepted, so a value can never be
  given on the command line.
\<close>

lemma entry_args_positionals:
  "entry_args False False name scope args = Inr (scope', name') \<Longrightarrow>
   (name = None \<longrightarrow> positionals args = (case name' of None \<Rightarrow> [] | Some n \<Rightarrow> [n]) \<and>
      (\<forall>n. name' = Some n \<longrightarrow> n \<noteq> [] \<and> hd n \<noteq> CHR ''-'')) \<and>
   (name \<noteq> None \<longrightarrow> positionals args = [] \<and> name' = name)"
proof (induction "length args" arbitrary: name scope args rule: less_induct)
  case less
  show ?case
  proof (cases args)
    case Nil
    then show ?thesis using less.prems by (auto simp: entry_args_plain)
  next
    case (Cons arg rest)
    note step = less.prems [unfolded Cons entry_args_plain]
    show ?thesis
    proof (cases "take_scope_arg arg rest scope")
      case (Inl e)
      then show ?thesis using step by simp
    next
      case r: (Inr r)
      show ?thesis
      proof (cases r)
        case None
        then have ok: "name = None" "arg \<noteq> []" "hd arg \<noteq> CHR ''-''"
          and rest: "entry_args False False (Some arg) scope rest = Inr (scope', name')"
          using step r by (auto split: if_splits)
        have "positionals args = arg # positionals rest"
          using r None take_scope_None [of arg rest scope] by (simp add: Cons)
        then show ?thesis using less.hyps [OF _ rest] ok Cons by simp
      next
        case (Some sr)
        obtain scope1 rest1 where sr: "sr = (scope1, rest1)" by (cases sr)
        have rest: "entry_args False False name scope1 rest1 = Inr (scope', name')"
          using step r Some sr by simp
        have s: "arg \<in> {''-p'', ''--project'', ''-e'', ''--env''} \<and> rest \<noteq> [] \<and> rest1 = tl rest"
          using take_scope_Some [of arg rest scope scope1 rest1] r Some sr by simp
        then have "positionals args = positionals rest1" "length rest1 < length args"
          using Cons by auto
        then show ?thesis using less.hyps [OF _ rest] by simp
      qed
    qed
  qed
qed

lemma parse_entry_args_positional:
  "parse_entry_args False args = Some (scope, name) \<Longrightarrow>
   positionals args = [name] \<and> name \<noteq> [] \<and> hd name \<noteq> CHR ''-''"
  using entry_args_positionals [of None no_scope args]
  by (auto simp: parse_entry_args_def split: sum.splits option.splits)

section \<open>Reading one value\<close>

lemma get_value_daemon:
  assumes "libs_ok L" and "served_ok L d"
    and "get_value L uid (daemon_peer L uid (dc_token cl)) cl path d = (Inr v, d')"
  shows "served_view d path = Some v \<and> served_ok L d' \<and> served_view d' = served_view d"
proof -
  obtain f where f: "get_many L uid (daemon_peer L uid (dc_token cl)) cl [path] d = (Inr f, d')"
    and v: "map_of (f_values f) path = Some v"
    using assms(3)
    by (auto simp: get_value_def bindR_Inr neq_Nil_conv split: list.split_asm option.split_asm)
  have "local_ok L d" using assms(1,2) by (simp add: local_ok_def)
  from lb.fetch_returns [OF this f] v show ?thesis
    by (auto simp: local_ok_def split: if_splits)
qed

section \<open>The environment of a child\<close>

lemma c_str_id: "CHR 0x00 \<notin> set s \<Longrightarrow> c_str s = s"
  unfolding c_str_def by (rule takeWhile_eq_all_conv [THEN iffD2]) blast

lemma identifier_c_str: "is_identifier name \<Longrightarrow> c_str name = name"
proof (rule c_str_id)
  assume "is_identifier name"
  then have "\<forall>c \<in> set name. isalnum c \<or> c = CHR ''_''"
    by (auto simp: is_identifier_def list_all_iff split: if_splits)
  moreover have "\<not> isalnum (CHR 0x00)"
    by (simp add: isalnum_def isalpha_def isupper_def islower_def isdigit_def in_range_def byte_def)
  ultimately show "CHR 0x00 \<notin> set name" by auto
qed

lemma inject_all_Inr:
  "inject_all kvs (env, injected) = Inr (env', injected') \<Longrightarrow>
   env' = env ++ map_of (rev (map (\<lambda>(n, v). (c_str n, c_str v)) kvs)) \<and>
   set injected' = set injected \<union> fst ` set kvs"
proof (induction kvs arbitrary: env injected)
  case (Cons kv kvs)
  obtain n v where kv: "kv = (n, v)" by (cases kv)
  obtain env1 where "export_env_var n v env = Inr env1"
    and rest: "inject_all kvs (env1, push_new n injected) = Inr (env', injected')"
    using Cons.prems kv by auto
  then have env1: "env1 = env(c_str n \<mapsto> c_str v)" by (auto simp: export_env_var_def split: if_splits)
  from Cons.IH [OF rest]
  have "env' = env1 ++ map_of (rev (map (\<lambda>(n, v). (c_str n, c_str v)) kvs))"
    and inj: "set injected' = set (push_new n injected) \<union> fst ` set kvs" by simp_all
  then have "env' = env ++ ([c_str n \<mapsto> c_str v] ++ map_of (rev (map (\<lambda>(n, v). (c_str n, c_str v)) kvs)))"
    by (simp add: env1 map_add_assoc del: fun_upd_apply)
  then show ?case using inj by (simp add: kv map_of_append)
qed simp

lemma mark_injected_other:
  "mark_injected (env, injected) = Inr env' \<Longrightarrow> name \<noteq> kInjectedVar \<Longrightarrow> env' name = env name"
  by (auto simp: mark_injected_def export_env_var_def c_str_id kInjectedVar_def split: if_splits)

lemma inject_env_Inr:
  assumes "inject_env env plain wanted f = Inr env'"
  shows "\<exists>secrets. list_all2 (\<lambda>(n, p) (n', v). n' = n \<and> map_of (f_values f) p = Some v) wanted secrets \<and>
    (\<forall>name. name \<noteq> kInjectedVar \<longrightarrow>
       env' name = (env ++ map_of (rev (map (\<lambda>(n, v). (c_str n, c_str v)) (plain @ secrets)))) name)"
proof -
  obtain secrets where secrets: "collectE (value_at (f_values f)) wanted = Inr secrets"
    and inj0: "(case bindE (inject_all (plain @ secrets) (env, [])) mark_injected of
       Inl what \<Rightarrow> Inl (RuntimeError what) | Inr env' \<Rightarrow> Inr env') = Inr env'"
    using assms unfolding inject_env_def bindE_eq_Inr by blast
  have inj: "bindE (inject_all (plain @ secrets) (env, [])) mark_injected = Inr env'"
    using inj0 by (cases "bindE (inject_all (plain @ secrets) (env, [])) mark_injected") simp_all
  obtain env1 injected where i: "inject_all (plain @ secrets) (env, []) = Inr (env1, injected)"
    and m: "mark_injected (env1, injected) = Inr env'"
    using inj by auto
  have "list_all2 (\<lambda>(n, p) (n', v). n' = n \<and> map_of (f_values f) p = Some v) wanted secrets"
    using secrets unfolding collectE_Inr_list_all2
    by (rule list_all2_mono) (auto simp: value_at_def split: option.splits)
  then show ?thesis
    using inject_all_Inr [OF i] mark_injected_other [OF m] by auto
qed

lemma load_manifest_wf: "load_manifest S Y path = Inr m \<Longrightarrow> wf_manifest m"
  by (auto simp: load_manifest_def intro: parse_manifest_wf)

lemma resolve_manifest_wf:
  assumes "resolve_manifest S Y paths cwd scope = Inr m"
  shows "wf_manifest m"
proof (cases "sc_project scope")
  case None
  then show ?thesis using assms
    by (auto simp: resolve_manifest_def load_manifest_wf split: option.split_asm)
next
  case (Some project)
  note assms [unfolded resolve_manifest_def Some option.case]
  then obtain root m' where "load_manifest S Y (root @ ''/'' @ kManifestFileName) = Inr m'" and "m' = m"
    unfolding bindE_eq_Inr by (fastforce split: option.split_asm if_split_asm)
  then show ?thesis using load_manifest_wf by blast
qed

text \<open>Everything a manifest asks to set has an allowed name.\<close>

lemma exec_wanted_manifest:
  assumes "exec_wanted S Y paths cwd args = Inr (config, wanted, plain)" and "ex_raw args = []"
  shows "(\<forall>n \<in> fst ` set wanted. safe_var n) \<and> (\<forall>n \<in> fst ` set plain. safe_var n) \<and>
    fst ` set wanted \<inter> fst ` set plain = {}"
proof -
  have "bindE (resolve_manifest S Y paths cwd (ex_scope args)) (\<lambda>m.
      bindE (refuse_if (ex_raw args \<noteq> [] \<and> bc_type (m_backend m) \<noteq> Local)
          (''--secret names raw local-store keys; this manifest uses '' @ backend_type_name (bc_type (m_backend m)))) (\<lambda>_.
      bindE (resolve_env (sys_env S) (ex_scope args) (Some m)) (\<lambda>env.
      bindE (entries_for m env) (\<lambda>entries.
        Inr (m_backend m, map (\<lambda>e. (se_env_var e, se_path e)) entries, vars_for m env))))) = Inr (config, wanted, plain)"
    using assms by (auto simp: exec_wanted_def)
  then obtain m env entries where rm: "resolve_manifest S Y paths cwd (ex_scope args) = Inr m"
    and ent: "entries_for m env = Inr entries"
    and w: "wanted = map (\<lambda>e. (se_env_var e, se_path e)) entries" "plain = vars_for m env"
    unfolding bindE_eq_Inr by blast
  have wf: "wf_manifest m" by (rule resolve_manifest_wf [OF rm])
  have e: "map_of (m_envs m) env = Some entries"
    using ent by (auto simp: entries_for_def split: option.splits)
  have "map fst (m_envs m) = map fst (m_vars m)" using wf by (simp add: wf_manifest_def)
  then have "fst ` set (m_envs m) = fst ` set (m_vars m)" by (metis set_map)
  then have "map_of (m_vars m) env \<noteq> None" using e by (metis map_of_eq_None_iff option.distinct(1))
  then obtain vars where v: "map_of (m_vars m) env = Some vars" by blast
  then have "wf_env (m_project m) (m_backend m) env entries vars"
    using wf e unfolding wf_manifest_def by blast
  then have names: "\<forall>e \<in> set entries. safe_var (se_env_var e)" "\<forall>kv \<in> set vars. safe_var (fst kv)"
    and apart: "\<forall>e \<in> set entries. se_env_var e \<notin> fst ` set vars"
    by (simp_all add: wf_env_def wf_entry_def)
  have plain: "plain = vars" using w(2) v by (simp add: vars_for_def)
  have wanted: "fst ` set wanted = se_env_var ` set entries" using w(1) by (simp add: image_image)
  show ?thesis unfolding wanted plain using names apart by blast
qed

lemma cmd_exec_Launch:
  assumes "cmd_exec L S Y paths cwd client P argv d = (Launch prog env', d')"
  obtains args config wanted plain cl f where
    "exec_args_of argv \<lparr>ex_scope = no_scope, ex_dry_run = False, ex_raw = [], ex_program = []\<rparr> = Inr args"
    "prog = ex_program args" "exec_wanted S Y paths cwd args = Inr (config, wanted, plain)"
    "client = Inr cl" "get_many L (sys_uid S) P cl (map snd wanted) d = (Inr f, d')"
    "inject_env (sys_env S) plain wanted f = Inr env'"
  using assms that
  by (auto simp: cmd_exec_def open_backend_def split: sum.splits prod.splits if_splits backend_type.splits)

text \<open>A launch without \<open>--secret\<close>: only allowed names change, apart from the mark.\<close>

lemma exec_env_kept:
  assumes "cmd_exec L S Y paths cwd client P argv d = (Launch prog env', d')"
    and "exec_args_of argv \<lparr>ex_scope = no_scope, ex_dry_run = False, ex_raw = [], ex_program = []\<rparr> = Inr args"
    and "ex_raw args = []" and "\<not> safe_var name" and "name \<noteq> kInjectedVar"
  shows "env' name = sys_env S name"
proof -
  obtain config wanted plain f where w: "exec_wanted S Y paths cwd args = Inr (config, wanted, plain)"
    and i: "inject_env (sys_env S) plain wanted f = Inr env'"
    by (rule cmd_exec_Launch [OF assms(1)]) (use assms(2) in simp)
  obtain secrets where s: "list_all2 (\<lambda>(n, p) (n', v). n' = n \<and> map_of (f_values f) p = Some v) wanted secrets"
    and e: "env' name = (sys_env S ++ map_of (rev (map (\<lambda>(n, v). (c_str n, c_str v)) (plain @ secrets)))) name"
    using inject_env_Inr [OF i] assms(5) by blast
  have "fst ` set secrets = fst ` set wanted"
    using s by (induction rule: list_all2_induct) (auto split: prod.splits)
  then have "\<forall>n \<in> fst ` set (plain @ secrets). safe_var n"
    using exec_wanted_manifest [OF w assms(3)] by (simp only: set_append image_Un ball_Un) (intro conjI; elim conjE; assumption)
  then have same: "c_str n = n" "n \<noteq> name" if "(n, v) \<in> set (plain @ secrets)" for n v
    using that assms(4) identifier_c_str by (force simp: safe_var_def)+
  have "name \<notin> fst ` set (rev (map (\<lambda>(n, v). (c_str n, c_str v)) (plain @ secrets)))"
  proof
    assume "name \<in> fst ` set (rev (map (\<lambda>(n, v). (c_str n, c_str v)) (plain @ secrets)))"
    then obtain n v where "(n, v) \<in> set (plain @ secrets)" and "name = c_str n"
      unfolding set_rev set_map by fastforce
    then show False using same by metis
  qed
  then have "map_of (rev (map (\<lambda>(n, v). (c_str n, c_str v)) (plain @ secrets))) name = None"
    by (simp only: map_of_eq_None_iff simp_thms)
  then show ?thesis using e by (simp add: map_add_def del: rev_map map_append)
qed

text \<open>A launch against the daemon: every secret asked for is the stored one; nothing is stored.\<close>

lemma exec_env_values:
  assumes "libs_ok L" and "served_ok L d"
    and "cmd_exec L S Y paths cwd (Inr cl) (daemon_peer L (sys_uid S) (dc_token cl)) argv d = (Launch prog env', d')"
  shows "\<exists>args config wanted plain secrets.
    exec_args_of argv \<lparr>ex_scope = no_scope, ex_dry_run = False, ex_raw = [], ex_program = []\<rparr> = Inr args \<and>
    exec_wanted S Y paths cwd args = Inr (config, wanted, plain) \<and>
    list_all2 (\<lambda>(n, p) (n', v). n' = n \<and> served_view d p = Some v) wanted secrets \<and>
    (\<forall>name. name \<noteq> kInjectedVar \<longrightarrow>
       env' name = (sys_env S ++ map_of (rev (map (\<lambda>(n, v). (c_str n, c_str v)) (plain @ secrets)))) name) \<and>
    served_ok L d' \<and> served_view d' = served_view d"
proof -
  obtain args config wanted plain cl' f where
    a: "exec_args_of argv \<lparr>ex_scope = no_scope, ex_dry_run = False, ex_raw = [], ex_program = []\<rparr> = Inr args"
    and pr: "prog = ex_program args" and w: "exec_wanted S Y paths cwd args = Inr (config, wanted, plain)"
    and cl: "Inr cl = (Inr cl' :: string + daemon_client)"
    and g: "get_many L (sys_uid S) (daemon_peer L (sys_uid S) (dc_token cl)) cl' (map snd wanted) d = (Inr f, d')"
    and i: "inject_env (sys_env S) plain wanted f = Inr env'"
    by (rule cmd_exec_Launch [OF assms(3)])
  have clx: "cl = cl'" using cl by simp
  have "local_ok L d" using assms(1,2) by (simp add: local_ok_def)
  from lb.fetch_returns [OF this g [folded clx]]
  have r: "local_ok L d'" "served_view d' = served_view d"
    "\<forall>p. map_of (f_values f) p = (if p \<in> set (map snd wanted) then served_view d p else None)" by blast+
  obtain secrets where s: "list_all2 (\<lambda>(n, p) (n', v). n' = n \<and> map_of (f_values f) p = Some v) wanted secrets"
    and e: "\<forall>name. name \<noteq> kInjectedVar \<longrightarrow>
       env' name = (sys_env S ++ map_of (rev (map (\<lambda>(n, v). (c_str n, c_str v)) (plain @ secrets)))) name"
    using inject_env_Inr [OF i] by blast
  have "list_all2 (\<lambda>(n, p) (n', v). n' = n \<and> served_view d p = Some v) wanted secrets"
    using s by (rule list_all2_mono) (use r(3) in \<open>auto split: if_splits\<close>)
  then show ?thesis using a w e r by (auto simp: local_ok_def)
qed

end
