(* ===== verification/Lines.thy ===== *)
theory Lines
  imports Prelude
begin

text \<open>
  Text as lines, and the indentation blocks of the text-level YAML editing in
  src/src/manifest.cpp: finding a key, the end of its block, where to insert, and inserting
  a missing block.
\<close>

fun split_lines_from :: "string \<Rightarrow> string \<Rightarrow> string list" where
  "split_lines_from line [] = (if line = [] then [] else [line])"
| "split_lines_from line (c # s) =
     (if c = LF then line # split_lines_from [] s else split_lines_from (line @ [c]) s)"

definition split_lines :: "string \<Rightarrow> string list" where
  "split_lines s = split_lines_from [] s"

text \<open>The loop that ends every line with a newline.\<close>

fun unlines :: "string list \<Rightarrow> string" where
  "unlines [] = []"
| "unlines (line # lines) = line @ LF # unlines lines"

definition indent_of :: "string \<Rightarrow> nat" where
  "indent_of line = length (takeWhile (\<lambda>c. c = SPC) line)"

fun blank_or_comment :: "string \<Rightarrow> bool" where
  "blank_or_comment [] = True"
| "blank_or_comment (c # line) =
     (if c = CHR ''#'' then True
      else if c \<noteq> SPC \<and> c \<noteq> TAB \<and> c \<noteq> CR then False
      else blank_or_comment line)"

definition block_end :: "string list \<Rightarrow> nat \<Rightarrow> nat \<Rightarrow> nat" where
  "block_end lines key_line indent =
     or_else (find (\<lambda>i. \<not> blank_or_comment (lines ! i) \<and> indent_of (lines ! i) \<le> indent) [key_line + 1 ..< length lines])
       (length lines)"

text \<open>None is the code's -1.\<close>

definition child_indent :: "string list \<Rightarrow> nat \<Rightarrow> nat \<Rightarrow> nat option" where
  "child_indent lines start stop =
     map_option (\<lambda>i. indent_of (lines ! i)) (find (\<lambda>i. \<not> blank_or_comment (lines ! i)) [start ..< stop])"

fun find_child_in :: "string list \<Rightarrow> nat \<Rightarrow> string \<Rightarrow> nat list \<Rightarrow> string + nat option" where
  "find_child_in lines indent key [] = Inr None"
| "find_child_in lines indent key (i # is) =
     (let line = lines ! i in
      if blank_or_comment line \<or> indent_of line \<noteq> indent then find_child_in lines indent key is else
      let body = drop indent line in
      if \<not> has_prefix body key \<or> length body \<le> length key \<or> body ! length key \<noteq> CHR '':''
      then find_child_in lines indent key is
      else if \<not> blank_or_comment (drop (length key + 1) body)
      then Inl (''manifest key '' @ quoted key @ '' has an inline value; cannot insert entries textually'')
      else Inr (Some i))"

definition find_child :: "string list \<Rightarrow> nat \<Rightarrow> nat \<Rightarrow> nat \<Rightarrow> string \<Rightarrow> string + nat option" where
  "find_child lines start stop indent key = find_child_in lines indent key [start ..< stop]"

definition insert_point :: "string list \<Rightarrow> nat \<Rightarrow> nat \<Rightarrow> nat \<Rightarrow> nat" where
  "insert_point lines start stop min_indent =
     fold (\<lambda>i at.
       let line = lines ! i; comment = (CHR ''#'' \<in> set line \<and> blank_or_comment line) in
       if \<not> blank_or_comment line \<or> (comment \<and> indent_of line \<ge> min_indent) then i + 1 else at)
       [start ..< stop] start"

definition spaces :: "nat \<Rightarrow> string" where
  "spaces n = replicate n SPC"

definition insert_at :: "'a list \<Rightarrow> nat \<Rightarrow> 'a list \<Rightarrow> 'a list" where
  "insert_at xs i ys = take i xs @ ys @ drop i xs"

record block =
  key_line :: nat
  block_stop :: nat      \<comment> \<open>exclusive\<close>
  entry_indent :: nat

definition ensure_block ::
  "string list \<Rightarrow> nat \<Rightarrow> nat \<Rightarrow> nat \<Rightarrow> nat \<Rightarrow> string \<Rightarrow> string + string list \<times> block" where
  "ensure_block lines start stop indent step key =
     bindE (find_child lines start stop indent key) (\<lambda>found.
       let at = insert_point lines start stop indent;
           key_at = (case found of Some i \<Rightarrow> i | None \<Rightarrow> at);
           lines = (case found of Some i \<Rightarrow> lines | None \<Rightarrow> insert_at lines at [spaces indent @ key @ '':'']);
           stop = block_end lines key_at indent
       in Inr (lines, \<lparr>key_line = key_at, block_stop = stop,
                      entry_indent = or_else (child_indent lines (key_at + 1) stop) (indent + step)\<rparr>))"

section \<open>Lines and text\<close>

lemma split_from_line: "LF \<notin> set l \<Longrightarrow> split_lines_from p (l @ LF # s) = (p @ l) # split_lines s"
  by (induction l arbitrary: p) (auto simp: split_lines_def)

lemma split_lines_line: "LF \<notin> set l \<Longrightarrow> split_lines (l @ LF # s) = l # split_lines s"
  by (simp add: split_lines_def split_from_line)

lemma split_unlines: "\<forall>l \<in> set ls. LF \<notin> set l \<Longrightarrow> split_lines (unlines ls) = ls"
  by (induction ls) (simp_all add: split_lines_line, simp add: split_lines_def)

lemma split_lines_free_from: "LF \<notin> set p \<Longrightarrow> l \<in> set (split_lines_from p s) \<Longrightarrow> LF \<notin> set l"
  by (induction p s rule: split_lines_from.induct) (auto split: if_splits)

lemma split_lines_free: "l \<in> set (split_lines s) \<Longrightarrow> LF \<notin> set l"
  unfolding split_lines_def by (rule split_lines_free_from) auto

text \<open>Joining the lines of a text gives it back, with a final newline.\<close>

lemma unlines_split_from:
  "unlines (split_lines_from p s) = (if s = [] then (if p = [] then [] else p @ [LF])
     else p @ s @ (if last s = LF then [] else [LF]))"
  by (induction p s rule: split_lines_from.induct) (auto split: if_splits)

lemma unlines_split: "unlines (split_lines s) = (if s = [] \<or> last s = LF then s else s @ [LF])"
  by (auto simp: split_lines_def unlines_split_from)

lemma split_from_append: "\<exists>q. split_lines_from p (s @ LF # t) = q @ split_lines t"
proof (induction s arbitrary: p)
  case Nil
  show ?case by (intro exI [of _ "[p]"]) (simp add: split_lines_def)
next
  case (Cons c s)
  show ?case
  proof (cases "c = LF")
    case True
    obtain q where "split_lines_from [] (s @ LF # t) = q @ split_lines t" using Cons by blast
    then show ?thesis using True by (intro exI [of _ "p # q"]) simp
  next
    case False
    then show ?thesis using Cons [of "p @ [c]"] by simp
  qed
qed

text \<open>Lines added in between, even ones that hold newlines, leave the others in place.\<close>

lemma subseq_unlines:
  "subseq xs ls \<Longrightarrow> \<forall>x \<in> set xs. LF \<notin> set x \<Longrightarrow> subseq xs (split_lines (unlines ls))"
proof (induction rule: list_emb.induct)
  case (list_emb_Nil ys)
  then show ?case by simp
next
  case (list_emb_Cons xs ys y)
  obtain q where "split_lines (y @ LF # unlines ys) = q @ split_lines (unlines ys)"
    using split_from_append [of "[]" y "unlines ys"] by (auto simp: split_lines_def)
  then show ?case using list_emb_Cons by (simp add: subseq_drop_many)
next
  case (list_emb_Cons2 x y xs ys)
  then show ?case by (simp add: split_lines_line)
qed

lemma subseq_insert_at: "subseq xs (insert_at xs i ys)"
proof -
  have "subseq (take i xs @ drop i xs) (take i xs @ ys @ drop i xs)"
    by (intro list_emb_append_mono subseq_order.order_refl list_emb_append2)
  then show ?thesis by (simp add: insert_at_def)
qed

lemma ensure_block_keeps: "ensure_block lines start stop indent step key = Inr (lines', b) \<Longrightarrow> subseq lines lines'"
  by (auto simp: ensure_block_def Let_def subseq_insert_at split: option.splits)

section \<open>Keys\<close>

lemma find_child_in_Some:
  "find_child_in lines indent key is = Inr (Some i) \<Longrightarrow>
   i \<in> set is \<and> \<not> blank_or_comment (lines ! i) \<and> indent_of (lines ! i) = indent \<and>
   (\<exists>rest. drop indent (lines ! i) = key @ CHR '':'' # rest \<and> blank_or_comment rest)"
proof (induction lines indent key "is" rule: find_child_in.induct)
  case (2 lines indent key i0 "is")
  let ?body = "drop indent (lines ! i0)"
  show ?case
  proof (cases "blank_or_comment (lines ! i0) \<or> indent_of (lines ! i0) \<noteq> indent \<or> \<not> has_prefix ?body key \<or>
      length ?body \<le> length key \<or> ?body ! length key \<noteq> CHR '':''")
    case True
    then have "find_child_in lines indent key is = Inr (Some i)"
      using 2(3) by (auto simp: Let_def split: if_splits)
    then show ?thesis using 2 True by (auto simp: Let_def)
  next
    case False
    then have "i = i0" "blank_or_comment (drop (length key + 1) ?body)"
      using 2(3) by (auto simp: Let_def split: if_splits)
    moreover have "?body = key @ CHR '':'' # drop (length key + 1) ?body"
      using False by (metis Suc_eq_plus1 append_take_drop_id Cons_nth_drop_Suc has_prefix_def not_le)
    ultimately show ?thesis using False by auto
  qed
qed simp

end
