(* ===== verification/ManifestEdit.thy ===== *)
theory ManifestEdit
  imports Lines ManifestFacts
begin

text \<open>
  \<open>manifest_with_entries\<close> of src/src/manifest.cpp: entries are inserted into the text of a
  manifest, and the result is parsed again before it is returned.
\<close>

definition first_indent :: "string list \<Rightarrow> nat" where
  "first_indent lines =
     or_else (map_option indent_of (find (\<lambda>line. \<not> blank_or_comment line \<and> indent_of line > 0) lines)) 2"

text \<open>The indentation of what is under an entry: that of the first line deeper than the names.\<close>

definition value_indent :: "string list \<Rightarrow> nat \<Rightarrow> nat \<Rightarrow> nat \<Rightarrow> nat \<Rightarrow> nat" where
  "value_indent lines start stop name_indent step =
     or_else (map_option (\<lambda>i. indent_of (lines ! i))
         (find (\<lambda>i. \<not> blank_or_comment (lines ! i) \<and> indent_of (lines ! i) > name_indent) [start ..< stop]))
       (name_indent + step)"

definition entry_lines :: "nat \<Rightarrow> nat \<Rightarrow> string \<times> string \<Rightarrow> string list" where
  "entry_lines name_indent values_indent nv =
     [spaces name_indent @ fst nv @ '':'', spaces values_indent @ ''env_var_name: '' @ snd nv]"

text \<open>The lines of the entries that are not there yet.\<close>

fun added_lines :: "string list \<Rightarrow> block \<Rightarrow> nat \<Rightarrow> key_values \<Rightarrow> string + string list" where
  "added_lines lines b values_indent [] = Inr []"
| "added_lines lines b values_indent (nv # name_to_var) =
     bindE (find_child lines (key_line b + 1) (block_stop b) (entry_indent b) (fst nv)) (\<lambda>found.
     bindE (added_lines lines b values_indent name_to_var) (\<lambda>rest.
       Inr ((if found \<noteq> None then [] else entry_lines (entry_indent b) values_indent nv) @ rest)))"

definition edited_lines :: "string list \<Rightarrow> string \<Rightarrow> string \<Rightarrow> key_values \<Rightarrow> string + string list" where
  "edited_lines lines project env name_to_var =
     (let step = first_indent lines;
          lines = (if lines = [] then [''version: '' @ [DQUOTE, CHR ''1'', DQUOTE], ''name: '' @ project, ''env:''] else lines)
      in
      bindE (ensure_block lines 0 (length lines) 0 step ''env'') (\<lambda>(lines, env_root).
      bindE (ensure_block lines (key_line env_root + 1) (block_stop env_root) (entry_indent env_root) step env)
        (\<lambda>(lines, env_block).
      bindE (ensure_block lines (key_line env_block + 1) (block_stop env_block) (entry_indent env_block) step ''secrets'')
        (\<lambda>(lines, secrets).
      let values_indent = value_indent lines (key_line secrets + 1) (block_stop secrets) (entry_indent secrets) step in
      bindE (added_lines lines secrets values_indent name_to_var) (\<lambda>added.
      let at = insert_point lines (key_line secrets + 1) (block_stop secrets) (entry_indent secrets) in
        Inr (insert_at lines at added))))))"

text \<open>The proof of the edit: every requested entry is in the parsed result as requested.\<close>

definition check_entry :: "string \<Rightarrow> string \<Rightarrow> secret_entry list \<Rightarrow> string \<times> string \<Rightarrow> string + unit" where
  "check_entry env project entries nv =
     (case find (\<lambda>e. se_name e = fst nv) entries of
        None \<Rightarrow> Inl (''manifest edit failed: entry '' @ quoted (fst nv) @ '' not present after insertion; add it by hand'')
      | Some e \<Rightarrow>
          bindE (scoped_key env project (fst nv)) (\<lambda>key.
            refuse_if (se_env_var e \<noteq> snd nv \<or> se_path e \<noteq> key)
              (''manifest entry '' @ quoted (fst nv) @ '' in env '' @ quoted env @
               '' already exists with a different key or env_var_name; fix it by hand'')))"

definition check_edit :: "yaml_lib \<Rightarrow> string \<Rightarrow> string \<Rightarrow> string \<Rightarrow> key_values \<Rightarrow> string + unit" where
  "check_edit Y out project env name_to_var =
     bindE (parse_manifest Y out ''<edited manifest>'') (\<lambda>check.
     bindE (refuse_if (m_project check \<noteq> project)
         (''manifest names project '' @ quoted (m_project check) @ '', expected '' @ quoted project)) (\<lambda>_.
     case map_of (m_envs check) env of
       None \<Rightarrow> Inl (''manifest edit failed: env '' @ quoted env @ '' not present'')
     | Some entries \<Rightarrow> checkE (check_entry env project entries) name_to_var))"

lemma check_entry_Inr:
  "check_entry env project entries nv = Inr () \<Longrightarrow>
   \<exists>e \<in> set entries. se_name e = fst nv \<and> se_env_var e = snd nv \<and> scoped_key env project (fst nv) = Inr (se_path e)"
  by (auto simp: check_entry_def find_Some_iff split: option.splits)

definition manifest_with_entries :: "yaml_lib \<Rightarrow> string \<Rightarrow> string \<Rightarrow> string \<Rightarrow> key_values \<Rightarrow> string + string" where
  "manifest_with_entries Y contents project env name_to_var =
     bindE (require_segment env ''environment'') (\<lambda>_.
     bindE (checkE (\<lambda>(name, var).
         bindE (refuse_if (\<not> is_identifier var) (''invalid environment variable name '' @ quoted var)) (\<lambda>_.
           require_segment name ''secret name'')) name_to_var) (\<lambda>_.
     bindE (edited_lines (split_lines contents) project env name_to_var) (\<lambda>lines.
     let out = unlines lines in
     bindE (check_edit Y out project env name_to_var) (\<lambda>_. Inr out))))"

section \<open>What an edit guarantees\<close>

lemma edited_lines_keep:
  assumes "edited_lines lines project env nvs = Inr out"
  shows "subseq lines out"
proof -
  let ?lines = "if lines = [] then [''version: '' @ [DQUOTE, CHR ''1'', DQUOTE], ''name: '' @ project, ''env:''] else lines"
  obtain l1 b1 l2 b2 l3 b3 added where
    e: "ensure_block ?lines 0 (length ?lines) 0 (first_indent lines) ''env'' = Inr (l1, b1)"
      "ensure_block l1 (key_line b1 + 1) (block_stop b1) (entry_indent b1) (first_indent lines) env = Inr (l2, b2)"
      "ensure_block l2 (key_line b2 + 1) (block_stop b2) (entry_indent b2) (first_indent lines) ''secrets'' = Inr (l3, b3)"
    and out: "out = insert_at l3 (insert_point l3 (key_line b3 + 1) (block_stop b3) (entry_indent b3)) added"
    using assms by (auto simp: edited_lines_def Let_def split: if_splits)
  have "subseq lines ?lines" by simp
  moreover have "subseq ?lines l1" "subseq l1 l2" "subseq l2 l3"
    using e ensure_block_keeps by blast+
  moreover have "subseq l3 out" by (simp add: out subseq_insert_at)
  ultimately show ?thesis by (meson subseq_order.trans)
qed

lemma manifest_with_entries_Inr:
  assumes "manifest_with_entries Y contents project env nvs = Inr out"
  shows "subseq (split_lines contents) (split_lines out)"
    and "\<exists>m entries. parse_manifest Y out ''<edited manifest>'' = Inr m \<and> m_project m = project \<and>
      map_of (m_envs m) env = Some entries \<and>
      (\<forall>(name, var) \<in> set nvs. \<exists>e \<in> set entries. se_name e = name \<and> se_env_var e = var \<and>
         scoped_key env project name = Inr (se_path e))"
    and "\<exists>lines. edited_lines (split_lines contents) project env nvs = Inr lines \<and> out = unlines lines"
proof -
  obtain lines where lines: "edited_lines (split_lines contents) project env nvs = Inr lines"
    and out: "out = unlines lines" and check: "check_edit Y out project env nvs = Inr ()"
    using assms by (auto simp: manifest_with_entries_def Let_def)
  show "\<exists>lines. edited_lines (split_lines contents) project env nvs = Inr lines \<and> out = unlines lines"
    using lines out by blast
  show "subseq (split_lines contents) (split_lines out)"
    unfolding out
    by (rule subseq_unlines [OF edited_lines_keep [OF lines]]) (auto dest: split_lines_free)
  obtain m entries where m: "parse_manifest Y out ''<edited manifest>'' = Inr m" "m_project m = project"
      "map_of (m_envs m) env = Some entries"
    and each: "\<forall>nv \<in> set nvs. check_entry env project entries nv = Inr ()"
    using check by (auto simp: check_edit_def split: option.splits if_splits)
  have "\<exists>e \<in> set entries. se_name e = fst nv \<and> se_env_var e = snd nv \<and> scoped_key env project (fst nv) = Inr (se_path e)"
    if "nv \<in> set nvs" for nv
    using each that check_entry_Inr by blast
  then show "\<exists>m entries. parse_manifest Y out ''<edited manifest>'' = Inr m \<and> m_project m = project \<and>
      map_of (m_envs m) env = Some entries \<and>
      (\<forall>(name, var) \<in> set nvs. \<exists>e \<in> set entries. se_name e = name \<and> se_env_var e = var \<and>
         scoped_key env project name = Inr (se_path e))"
    using m by (intro exI [of _ m] exI [of _ entries]) (auto split: prod.splits)
qed

text \<open>Nothing to add: the lines come back as they were.\<close>

lemma insert_nothing [simp]: "insert_at xs i [] = xs"
  by (simp add: insert_at_def)

lemma added_lines_present:
  "\<forall>nv \<in> set nvs. \<exists>i. find_child lines (key_line b + 1) (block_stop b) (entry_indent b) (fst nv) = Inr (Some i) \<Longrightarrow>
   added_lines lines b v nvs = Inr []"
  by (induction nvs) auto

section \<open>What an edit adds\<close>

text \<open>
  What the lines of an edit are allowed to be, said without the search that finds the places:
  the key lines on the way to the secrets of the environment, each only where it is missing, and
  in the block of the secrets the entries that have no key line there.
\<close>

definition is_key_line :: "string \<Rightarrow> nat \<Rightarrow> string \<Rightarrow> bool" where
  "is_key_line line indent key \<longleftrightarrow>
     \<not> blank_or_comment line \<and> indent_of line = indent \<and> (\<exists>rest. drop indent line = key @ CHR '':'' # rest)"

definition has_child :: "string list \<Rightarrow> nat \<Rightarrow> nat \<Rightarrow> nat \<Rightarrow> string \<Rightarrow> bool" where
  "has_child lines start stop indent key \<longleftrightarrow> (\<exists>i. start \<le> i \<and> i < stop \<and> is_key_line (lines ! i) indent key)"

definition key_added :: "string list \<Rightarrow> nat \<Rightarrow> nat \<Rightarrow> nat \<Rightarrow> string \<Rightarrow> string list \<Rightarrow> nat \<Rightarrow> bool" where
  "key_added lines start stop indent key lines' at \<longleftrightarrow>
     start \<le> at \<and>
     (if has_child lines start stop indent key
      then lines' = lines \<and> at < stop \<and> is_key_line (lines ! at) indent key
      else lines' = insert_at lines at [spaces indent @ key @ '':''] \<and> at \<le> max start stop)"

text \<open>The lines under a key: to the first one that is not deeper.\<close>

definition spans :: "string list \<Rightarrow> nat \<Rightarrow> block \<Rightarrow> bool" where
  "spans lines indent b \<longleftrightarrow>
     key_line b < block_stop b \<and> block_stop b \<le> length lines \<and>
     (\<forall>i. key_line b < i \<and> i < block_stop b \<longrightarrow> blank_or_comment (lines ! i) \<or> indent < indent_of (lines ! i)) \<and>
     (block_stop b = length lines \<or>
      \<not> blank_or_comment (lines ! block_stop b) \<and> indent_of (lines ! block_stop b) \<le> indent)"

definition only_entries_added :: "string list \<Rightarrow> string \<Rightarrow> key_values \<Rightarrow> string list \<Rightarrow> bool" where
  "only_entries_added lines env nvs out \<longleftrightarrow>
     (\<exists>l1 l2 l3 b1 b2 b3 v at.
        key_added lines 0 (length lines) 0 ''env'' l1 (key_line b1) \<and> spans l1 0 b1 \<and>
        key_added l1 (key_line b1 + 1) (block_stop b1) (entry_indent b1) env l2 (key_line b2) \<and>
        spans l2 (entry_indent b1) b2 \<and>
        key_added l2 (key_line b2 + 1) (block_stop b2) (entry_indent b2) ''secrets'' l3 (key_line b3) \<and>
        spans l3 (entry_indent b2) b3 \<and>
        key_line b3 < at \<and> at \<le> block_stop b3 \<and>
        out = insert_at l3 at (concat (map (entry_lines (entry_indent b3) v)
          (filter (\<lambda>nv. \<not> has_child l3 (key_line b3 + 1) (block_stop b3) (entry_indent b3) (fst nv)) nvs))))"

lemma find_child_in_None:
  "find_child_in lines indent key is = Inr None \<Longrightarrow> i \<in> set is \<Longrightarrow> \<not> is_key_line (lines ! i) indent key"
proof (induction lines indent key "is" rule: find_child_in.induct)
  case (2 lines indent key i0 "is")
  have "\<not> is_key_line (lines ! i0) indent key"
  proof
    assume k: "is_key_line (lines ! i0) indent key"
    then obtain rest where r: "drop indent (lines ! i0) = key @ CHR '':'' # rest" by (auto simp: is_key_line_def)
    have "length (drop indent (lines ! i0)) = length key + 1 + length rest" unfolding r by simp
    with r show False using 2(3) k by (auto simp: Let_def is_key_line_def has_prefix_def nth_append split: if_splits)
  qed
  moreover have "i \<in> set is \<Longrightarrow> \<not> is_key_line (lines ! i) indent key"
    using 2 by (auto simp: Let_def split: if_splits)
  ultimately show ?case using 2(4) by auto
qed simp

lemma find_child_None: "find_child lines start stop indent key = Inr None \<Longrightarrow> \<not> has_child lines start stop indent key"
  unfolding has_child_def find_child_def by (auto dest: find_child_in_None)

lemma find_child_Some:
  "find_child lines start stop indent key = Inr (Some i) \<Longrightarrow>
   start \<le> i \<and> i < stop \<and> is_key_line (lines ! i) indent key \<and> has_child lines start stop indent key"
  unfolding has_child_def find_child_def is_key_line_def by (auto dest!: find_child_in_Some)

lemma insert_point_bounds: "start \<le> insert_point lines start stop m \<and> insert_point lines start stop m \<le> max start stop"
  unfolding insert_point_def
  by (rule fold_invariant [where Q = "\<lambda>i. start \<le> i \<and> i < stop"]) (auto simp: Let_def)

lemma find_upt:
  "case find f [a ..< b] of
     None \<Rightarrow> \<forall>i. a \<le> i \<and> i < b \<longrightarrow> \<not> f i
   | Some i \<Rightarrow> a \<le> i \<and> i < b \<and> f i \<and> (\<forall>j. a \<le> j \<and> j < i \<longrightarrow> \<not> f j)"
proof (induction "b - a" arbitrary: a)
  case (Suc n)
  have upt: "[a ..< b] = a # [Suc a ..< b]" using Suc.hyps(2) by (simp add: upt_conv_Cons)
  have ih: "case find f [Suc a ..< b] of
      None \<Rightarrow> \<forall>i. Suc a \<le> i \<and> i < b \<longrightarrow> \<not> f i
    | Some i \<Rightarrow> Suc a \<le> i \<and> i < b \<and> f i \<and> (\<forall>j. Suc a \<le> j \<and> j < i \<longrightarrow> \<not> f j)"
    using Suc by simp
  show ?case
  proof (cases "f a")
    case True
    moreover have "a < b" using Suc.hyps(2) by simp
    ultimately show ?thesis by (auto simp: upt)
  next
    case False
    then have "\<not> f i" if "a \<le> i" "Suc a \<le> i \<longrightarrow> \<not> f i" for i
      using that by (cases "i = a") auto
    then show ?thesis using ih False unfolding upt by (auto split: option.splits)
  qed
qed auto

lemma block_end_spans:
  assumes "k < length lines"
  shows "spans lines indent \<lparr>key_line = k, block_stop = block_end lines k indent, entry_indent = e\<rparr>"
proof -
  define f where "f i \<longleftrightarrow> \<not> blank_or_comment (lines ! i) \<and> indent_of (lines ! i) \<le> indent" for i
  have stop: "block_end lines k indent = or_else (find f [k + 1 ..< length lines]) (length lines)"
    unfolding block_end_def f_def ..
  have deeper: "blank_or_comment (lines ! i) \<or> indent < indent_of (lines ! i)" if "\<not> f i" for i
    using that by (auto simp: f_def)
  show ?thesis
    using find_upt [where f = f and a = "k + 1" and b = "length lines"] assms deeper
    by (cases "find f [k + 1 ..< length lines]") (auto simp: spans_def stop f_def Suc_le_eq simp del: upt_Suc)
qed

lemma ensure_block_adds:
  assumes "ensure_block lines start stop indent step key = Inr (lines', b)" and "start \<le> length lines" and "stop \<le> length lines"
  shows "key_added lines start stop indent key lines' (key_line b) \<and> spans lines' indent b"
proof (cases "find_child lines start stop indent key")
  case (Inl e)
  then show ?thesis using assms(1) by (simp add: ensure_block_def)
next
  case (Inr found)
  show ?thesis
  proof (cases found)
    case (Some i)
    note f = find_child_Some [OF Inr [unfolded Some]]
    then have "i < length lines" using assms(3) by simp
    from block_end_spans [OF this] show ?thesis
      using assms(1) Inr Some f by (auto simp: ensure_block_def key_added_def Let_def)
  next
    case None
    let ?at = "insert_point lines start stop indent"
    have at: "start \<le> ?at" "?at \<le> max start stop" using insert_point_bounds by blast+
    then have "?at < length (insert_at lines ?at [spaces indent @ key @ '':''])"
      using assms(2,3) by (simp add: insert_at_def)
    from block_end_spans [OF this] show ?thesis
      using assms(1) Inr None at find_child_None [OF Inr [unfolded None]] by (auto simp: ensure_block_def key_added_def Let_def)
  qed
qed

lemma added_lines_missing:
  "added_lines lines b v nvs = Inr added \<Longrightarrow>
   added = concat (map (entry_lines (entry_indent b) v)
     (filter (\<lambda>nv. \<not> has_child lines (key_line b + 1) (block_stop b) (entry_indent b) (fst nv)) nvs))"
proof (induction nvs arbitrary: added)
  case (Cons nv nvs)
  then obtain found rest where f: "find_child lines (key_line b + 1) (block_stop b) (entry_indent b) (fst nv) = Inr found"
    "added_lines lines b v nvs = Inr rest"
    "added = (if found \<noteq> None then [] else entry_lines (entry_indent b) v nv) @ rest"
    by auto
  have "found \<noteq> None \<longleftrightarrow> has_child lines (key_line b + 1) (block_stop b) (entry_indent b) (fst nv)"
    using f(1) find_child_None find_child_Some by (cases found) blast+
  then show ?case using Cons.IH [OF f(2)] f(3) by simp
qed simp

text \<open>A manifest that is not there yet starts as three lines.\<close>

definition starting_lines :: "string \<Rightarrow> string list \<Rightarrow> string list" where
  "starting_lines project lines =
     (if lines = [] then [''version: '' @ [DQUOTE, CHR ''1'', DQUOTE], ''name: '' @ project, ''env:''] else lines)"

lemma edited_lines_adds:
  assumes "edited_lines lines project env nvs = Inr out"
  shows "only_entries_added (starting_lines project lines) env nvs out"
proof -
  let ?lines = "starting_lines project lines"
  obtain l1 b1 l2 b2 l3 b3 v added where
    e: "ensure_block ?lines 0 (length ?lines) 0 (first_indent lines) ''env'' = Inr (l1, b1)"
      "ensure_block l1 (key_line b1 + 1) (block_stop b1) (entry_indent b1) (first_indent lines) env = Inr (l2, b2)"
      "ensure_block l2 (key_line b2 + 1) (block_stop b2) (entry_indent b2) (first_indent lines) ''secrets'' = Inr (l3, b3)"
    and a: "added_lines l3 b3 v nvs = Inr added"
    and out: "out = insert_at l3 (insert_point l3 (key_line b3 + 1) (block_stop b3) (entry_indent b3)) added"
    using assms by (auto simp: edited_lines_def starting_lines_def Let_def split: if_splits)
  note s1 = ensure_block_adds [OF e(1)]
  have w1: "key_line b1 + 1 \<le> length l1" "block_stop b1 \<le> length l1" using s1 by (auto simp: spans_def)
  note s2 = ensure_block_adds [OF e(2) w1]
  have w2: "key_line b2 + 1 \<le> length l2" "block_stop b2 \<le> length l2" using s2 by (auto simp: spans_def)
  note s3 = ensure_block_adds [OF e(3) w2]
  have at: "key_line b3 < insert_point l3 (key_line b3 + 1) (block_stop b3) (entry_indent b3)"
    "insert_point l3 (key_line b3 + 1) (block_stop b3) (entry_indent b3) \<le> block_stop b3"
    using insert_point_bounds [of "key_line b3 + 1" l3 "block_stop b3" "entry_indent b3"] s3 by (auto simp: spans_def)
  show ?thesis
    unfolding only_entries_added_def
    using s1 s2 s3 at out added_lines_missing [OF a] by blast
qed

end
