(* ===== verification/Dotenv.thy ===== *)
theory Dotenv
  imports Lines Names
begin

text \<open>
  \<open>parse_dotenv\<close> of src/src/manifest.cpp, one definition per stage of the line, and the round
  trip for values written in double quotes.
\<close>

definition is_blank :: "char \<Rightarrow> bool" where
  "is_blank c \<longleftrightarrow> c = SPC \<or> c = TAB"

text \<open>\<open>while (back is a blank) pop_back()\<close>.\<close>

definition strip_blanks_end :: "string \<Rightarrow> string" where
  "strip_blanks_end s = rev (dropWhile is_blank (rev s))"

datatype quoted_result =
    Closed string string      \<comment> \<open>the value, and the text after the closing quote\<close>
  | Unterminated
  | BadEscape char

fun read_quoted :: "char \<Rightarrow> string \<Rightarrow> string \<Rightarrow> quoted_result" where
  "read_quoted quote v [] = Unterminated"
| "read_quoted quote v (c # s) =
     (if quote = DQUOTE \<and> c = BACKSLASH then
        (case s of
           [] \<Rightarrow> Unterminated
         | e # s' \<Rightarrow>
             if e = CHR ''n'' then read_quoted quote (v @ [LF]) s'
             else if e = CHR ''t'' then read_quoted quote (v @ [TAB]) s'
             else if e = CHR ''r'' then read_quoted quote (v @ [CR]) s'
             else if e = BACKSLASH then read_quoted quote (v @ [BACKSLASH]) s'
             else if e = DQUOTE then read_quoted quote (v @ [DQUOTE]) s'
             else BadEscape e)
      else if c = quote then Closed v s
      else read_quoted quote (v @ [c]) s)"

text \<open>\<open>value.find(" #")\<close>.\<close>

fun find_comment :: "string \<Rightarrow> nat option" where
  "find_comment [] = None"
| "find_comment (c # s) =
     (if c = SPC \<and> has_prefix s ''#'' then Some 0 else map_option Suc (find_comment s))"

definition line_error :: "nat \<Rightarrow> string \<Rightarrow> string" where
  "line_error lineno what = ''dotenv line '' @ decimal lineno @ '': '' @ what"

definition comment_warning :: "nat \<Rightarrow> string \<Rightarrow> string" where
  "comment_warning lineno key =
     ''warning: dotenv line '' @ decimal lineno @ '': stripped a trailing ' #' comment from '' @ quoted key @
     ''; quote the value if '#' belongs to it'' @ [LF]"

text \<open>The value after the equals sign, and the warnings.\<close>

definition dotenv_value :: "nat \<Rightarrow> string \<Rightarrow> string \<Rightarrow> string + string \<times> string list" where
  "dotenv_value lineno key raw =
     (case dropWhile is_blank raw of
        [] \<Rightarrow> Inr ([], [])
      | c # s \<Rightarrow>
          if c = DQUOTE \<or> c = SQUOTE then
            (case read_quoted c [] s of
               Unterminated \<Rightarrow> Inl (line_error lineno ''unterminated quote'')
             | BadEscape e \<Rightarrow> Inl (line_error lineno (''unsupported escape '' @ quoted [BACKSLASH, e] @
                 '' in double-quoted value of '' @ quoted key))
             | Closed v after \<Rightarrow>
                 if \<not> blank_or_comment after then Inl (line_error lineno ''unexpected text after closing quote'')
                 else Inr (v, []))
          else
            (case find_comment (c # s) of
               None \<Rightarrow> Inr (strip_blanks_end (c # s), [])
             | Some hash \<Rightarrow> Inr (strip_blanks_end (take hash (c # s)), [comment_warning lineno key])))"

definition strip_export :: "string \<Rightarrow> string" where
  "strip_export line = (if has_prefix line ''export '' then drop 7 line else line)"

text \<open>One line: skipped, or a key that was not seen before and its value.\<close>

definition dotenv_line ::
  "nat \<Rightarrow> (string \<times> nat) list \<Rightarrow> string \<Rightarrow> string + (string \<times> string \<times> string list) option" where
  "dotenv_line lineno first_line_of_key line =
     (let line = (if line \<noteq> [] \<and> last line = CR then butlast line else line);
          line = dropWhile is_blank line in
      if line = [] \<or> hd line = CHR ''#'' then Inr None else
      let line = strip_export line in
      case find_char (CHR ''='') line of
        None \<Rightarrow> Inl (line_error lineno ''expected KEY=VALUE'')
      | Some eq \<Rightarrow>
          let key = strip_blanks_end (take eq line) in
          bindE (refuse_if (\<not> is_identifier key) (line_error lineno (''invalid key '' @ quoted key))) (\<lambda>_.
          case map_of first_line_of_key key of
            Some seen \<Rightarrow> Inl (line_error lineno (''duplicate key '' @ quoted key @ '' (first set on line '' @ decimal seen @ '')''))
          | None \<Rightarrow> bindE (dotenv_value lineno key (drop (eq + 1) line)) (\<lambda>(v, warnings). Inr (Some (key, v, warnings)))))"

fun dotenv_lines ::
  "nat \<Rightarrow> (string \<times> nat) list \<Rightarrow> string list \<Rightarrow> string + (string \<times> string) list \<times> string list" where
  "dotenv_lines lineno seen [] = Inr ([], [])"
| "dotenv_lines lineno seen (line # lines) =
     bindE (dotenv_line (lineno + 1) seen line) (\<lambda>r.
       case r of
         None \<Rightarrow> dotenv_lines (lineno + 1) seen lines
       | Some (key, v, w) \<Rightarrow>
           bindE (dotenv_lines (lineno + 1) (smap_emplace key (lineno + 1) seen) lines) (\<lambda>(out, ws).
             Inr ((key, v) # out, w @ ws)))"

definition parse_dotenv :: "string \<Rightarrow> string + (string \<times> string) list \<times> string list" where
  "parse_dotenv contents = dotenv_lines 0 [] (split_lines contents)"

section \<open>What is accepted\<close>

lemma dotenv_line_key:
  "dotenv_line n seen line = Inr (Some (key, v, w)) \<Longrightarrow> is_identifier key \<and> map_of seen key = None"
  by (auto simp: dotenv_line_def Let_def split: option.splits if_splits)

lemma dotenv_lines_keys:
  "dotenv_lines n seen lines = Inr (out, ws) \<Longrightarrow>
   distinct (map fst out) \<and> (\<forall>k \<in> fst ` set out. is_identifier k \<and> map_of seen k = None)"
proof (induction n seen lines arbitrary: out ws rule: dotenv_lines.induct)
  case (2 n seen line lines)
  from 2(3) obtain r where r: "dotenv_line (n + 1) seen line = Inr r" by auto
  show ?case
  proof (cases r)
    case None
    then show ?thesis using 2 r by auto
  next
    case (Some kvw)
    obtain key v w where kvw: "kvw = (key, v, w)" by (cases kvw)
    obtain out' ws' where rest: "dotenv_lines (n + 1) (smap_emplace key (n + 1) seen) lines = Inr (out', ws')"
      and out: "out = (key, v) # out'"
      using 2(3) r Some kvw by auto
    have "is_identifier key \<and> map_of seen key = None"
      using dotenv_line_key r Some kvw by blast
    moreover have "distinct (map fst out') \<and>
        (\<forall>k \<in> fst ` set out'. is_identifier k \<and> map_of (smap_emplace key (n + 1) seen) k = None)"
      using 2(2) [OF rest] by simp
    ultimately show ?thesis
      using out by (force simp: smap_find_emplace split: if_splits)
  qed
qed auto

lemma parse_dotenv_keys:
  "parse_dotenv contents = Inr (out, ws) \<Longrightarrow> distinct (map fst out) \<and> (\<forall>k \<in> fst ` set out. is_identifier k)"
  using dotenv_lines_keys unfolding parse_dotenv_def by blast

section \<open>The round trip\<close>

text \<open>A value written in double quotes with its escapes.\<close>

fun escape :: "string \<Rightarrow> string" where
  "escape [] = []"
| "escape (c # s) =
     (if c = LF then [BACKSLASH, CHR ''n''] else if c = TAB then [BACKSLASH, CHR ''t'']
      else if c = CR then [BACKSLASH, CHR ''r'']
      else if c = BACKSLASH \<or> c = DQUOTE then [BACKSLASH, c] else [c]) @ escape s"

definition dotenv_entry :: "string \<times> string \<Rightarrow> string" where
  "dotenv_entry kv = fst kv @ CHR ''='' # DQUOTE # escape (snd kv) @ [DQUOTE]"

lemma read_escaped: "read_quoted DQUOTE v (escape s @ DQUOTE # r) = Closed (v @ s) r"
  by (induction s arbitrary: v) (auto simp: )

lemma escape_one_line: "LF \<notin> set (escape s)"
  by (induction s) auto

lemma identifier_chars:
  "is_identifier k \<Longrightarrow> c \<in> set k \<Longrightarrow> c \<noteq> LF \<and> c \<noteq> CHR ''='' \<and> c \<noteq> SPC \<and> c \<noteq> TAB \<and> c \<noteq> CHR ''#'' \<and> c \<noteq> CR"
proof -
  assume "is_identifier k" "c \<in> set k"
  then have "isalnum c \<or> c = CHR ''_''"
    by (auto simp: is_identifier_def list_all_iff split: if_splits)
  then show ?thesis
    by (auto simp: isalnum_def isalpha_def isupper_def islower_def isdigit_def in_range_def byte_def)
qed

lemma identifier_start: "is_identifier k \<Longrightarrow> \<exists>c r. k = c # r"
  by (cases k) (auto simp: is_identifier_def)

lemma strip_blanks_id: "\<forall>c \<in> set s. \<not> is_blank c \<Longrightarrow> strip_blanks_end s = s"
  by (cases s rule: rev_cases) (simp_all add: strip_blanks_end_def)

lemma identifier_line:
  assumes "is_identifier k"
  shows "dropWhile is_blank (k @ r) = k @ r" "strip_export (k @ CHR ''='' # r) = k @ CHR ''='' # r"
    "strip_blanks_end k = k" "k @ r \<noteq> []" "hd (k @ r) \<noteq> CHR ''#''"
proof -
  note cs = identifier_chars [OF assms]
  obtain c k' where k: "k = c # k'" using identifier_start [OF assms] by blast
  show "dropWhile is_blank (k @ r) = k @ r" "k @ r \<noteq> []" "hd (k @ r) \<noteq> CHR ''#''"
    using cs [of c] by (simp_all add: k is_blank_def)
  show "strip_blanks_end k = k"
    using cs by (intro strip_blanks_id) (auto simp: is_blank_def)
  have "\<not> has_prefix (k @ CHR ''='' # r) ''export ''"
  proof
    assume "has_prefix (k @ CHR ''='' # r) ''export ''"
    then obtain s where s: "k @ CHR ''='' # r = ''export'' @ SPC # s"
      by (auto elim!: has_prefixE)
    then have "(k @ CHR ''='' # r) ! 6 = SPC" by simp
    moreover have "length k \<noteq> 6 \<and> \<not> 6 < length k"
      using calculation cs by (auto simp: nth_append split: if_splits)
    moreover have "(k @ CHR ''='' # r) ! length k = CHR ''=''" by simp
    moreover have "length k < 6 \<Longrightarrow> (''export'' @ SPC # s) ! length k = ''export'' ! length k"
      by (subst nth_append) simp
    moreover have "length k < 6 \<Longrightarrow> ''export'' ! length k \<in> set ''export''"
      by (intro nth_mem) simp
    ultimately show False using s by (auto simp: not_less_iff_gr_or_eq)
  qed
  then show "strip_export (k @ CHR ''='' # r) = k @ CHR ''='' # r" by (simp add: strip_export_def)
qed

lemma dotenv_entry_line:
  assumes "is_identifier k" and "map_of seen k = None"
  shows "dotenv_line n seen (dotenv_entry (k, v)) = Inr (Some (k, v, []))"
proof -
  let ?val = "DQUOTE # escape v @ [DQUOTE]"
  let ?line = "k @ CHR ''='' # ?val"
  note id = identifier_line [OF assms(1)]
  have "CHR ''='' \<notin> set k" using identifier_chars [OF assms(1)] by blast
  then have eq: "find_char (CHR ''='') ?line = Some (length k)" by (rule find_char_append)
  have value_: "dotenv_value n k ?val = Inr (v, [])"
    using read_escaped [of "[]" v "[]"] by (simp add: dotenv_value_def is_blank_def)
  have "last ?line \<noteq> CR" by simp
  then show ?thesis
    using id(1) [of "CHR ''='' # ?val"] id(2) [of ?val] id(3) id(4) [of "CHR ''='' # ?val"] id(5) [of "CHR ''='' # ?val"]
      eq value_ assms
    by (simp add: dotenv_line_def dotenv_entry_def Let_def refuse_if_def is_blank_def del: last_append)
qed

lemma dotenv_lines_entries:
  "distinct (map fst kvs) \<Longrightarrow> \<forall>k \<in> fst ` set kvs. is_identifier k \<and> map_of seen k = None \<Longrightarrow>
   dotenv_lines n seen (map dotenv_entry kvs) = Inr (kvs, [])"
proof (induction kvs arbitrary: n seen)
  case (Cons kv kvs)
  obtain k v where kv: "kv = (k, v)" by (cases kv)
  have line: "dotenv_line (n + 1) seen (dotenv_entry kv) = Inr (Some (k, v, []))"
    using dotenv_entry_line Cons.prems(2) kv by simp
  have "\<forall>j \<in> fst ` set kvs. is_identifier j \<and> map_of (smap_emplace k (n + 1) seen) j = None"
    using Cons.prems kv by (auto simp: smap_find_emplace)
  then have "dotenv_lines (n + 1) (smap_emplace k (n + 1) seen) (map dotenv_entry kvs) = Inr (kvs, [])"
    using Cons by simp
  then show ?case using line kv by simp
qed simp

lemma dotenv_round:
  assumes "distinct (map fst kvs)" and "\<forall>k \<in> fst ` set kvs. is_identifier k"
  shows "parse_dotenv (unlines (map dotenv_entry kvs)) = Inr (kvs, [])"
proof -
  have "\<forall>l \<in> set (map dotenv_entry kvs). LF \<notin> set l"
    using assms(2) identifier_chars escape_one_line by (force simp: dotenv_entry_def)
  then show ?thesis
    using dotenv_lines_entries [OF assms(1), of "[]" 0] assms(2) by (simp add: parse_dotenv_def split_unlines)
qed

end
