(* ===== verification/Concrete.thy ===== *)
theory Concrete
  imports Libs
begin

text \<open>
  A concrete instance of the libraries, small enough to compute with. It shows that what the
  program relies on (\<open>libs_ok\<close>) can hold, and the examples beside the theorems run on it. The
  cipher prefixes the key to the message, and JSON text is a prefix code of the value.
\<close>

fun enc_text :: "string \<Rightarrow> string" where
  "enc_text [] = ''.''"
| "enc_text (c # cs) = (if c = LF then CHR ''?'' # enc_text cs else CHR ''!'' # c # enc_text cs)"

fun dec_text :: "string \<Rightarrow> (string \<times> string) option" where
  "dec_text (CHR ''.'' # r) = Some ([], r)"
| "dec_text (CHR ''?'' # r) = map_option (\<lambda>(s, r). (LF # s, r)) (dec_text r)"
| "dec_text (CHR ''!'' # c # r) = map_option (\<lambda>(s, r). (c # s, r)) (dec_text r)"
| "dec_text _ = None"

lemma dec_enc_text [simp]: "dec_text (enc_text s @ r) = Some (s, r)"
  by (induction s) auto

fun enc_json :: "json \<Rightarrow> string" and enc_items :: "json list \<Rightarrow> string" and
  enc_members :: "(string \<times> json) list \<Rightarrow> string" where
  "enc_json JNull = ''n''"
| "enc_json (JBool b) = (if b then ''t'' else ''f'')"
| "enc_json (JNumber s) = CHR ''#'' # enc_text s"
| "enc_json (JString s) = CHR ''$'' # enc_text s"
| "enc_json (JArray js) = CHR ''['' # enc_items js"
| "enc_json (JObject m) = CHR ''{'' # enc_members m"
| "enc_items [] = '']''"
| "enc_items (j # js) = CHR '','' # enc_json j @ enc_items js"
| "enc_members [] = ''}''"
| "enc_members (kv # m) = CHR '','' # enc_text (fst kv) @ enc_json (snd kv) @ enc_members m"

fun dec_json :: "nat \<Rightarrow> string \<Rightarrow> (json \<times> string) option" and
  dec_items :: "nat \<Rightarrow> string \<Rightarrow> (json list \<times> string) option" and
  dec_members :: "nat \<Rightarrow> string \<Rightarrow> ((string \<times> json) list \<times> string) option" where
  "dec_json (Suc n) (c # r) =
     (if c = CHR ''n'' then Some (JNull, r)
      else if c = CHR ''t'' then Some (JBool True, r)
      else if c = CHR ''f'' then Some (JBool False, r)
      else if c = CHR ''#'' then map_option (\<lambda>(s, r). (JNumber s, r)) (dec_text r)
      else if c = CHR ''$'' then map_option (\<lambda>(s, r). (JString s, r)) (dec_text r)
      else if c = CHR ''['' then map_option (\<lambda>(js, r). (JArray js, r)) (dec_items n r)
      else if c = CHR ''{'' then
        (case dec_members n r of
           Some (m, r) \<Rightarrow> if smap_inv m then Some (JObject m, r) else None
         | None \<Rightarrow> None)
      else None)"
| "dec_json _ _ = None"
| "dec_items (Suc n) (c # r) =
     (if c = CHR '']'' then Some ([], r)
      else if c = CHR '','' then
        (case dec_json n r of
           Some (j, r) \<Rightarrow> map_option (\<lambda>(js, r). (j # js, r)) (dec_items n r)
         | None \<Rightarrow> None)
      else None)"
| "dec_items _ _ = None"
| "dec_members (Suc n) (c # r) =
     (if c = CHR ''}'' then Some ([], r)
      else if c = CHR '','' then
        (case dec_text r of
           Some (k, r) \<Rightarrow>
             (case dec_json n r of
                Some (j, r) \<Rightarrow> map_option (\<lambda>(m, r). ((k, j) # m, r)) (dec_members n r)
              | None \<Rightarrow> None)
         | None \<Rightarrow> None)
      else None)"
| "dec_members _ _ = None"

lemma dec_enc:
  "wf_json j \<Longrightarrow> length (enc_json j) \<le> n \<Longrightarrow> dec_json n (enc_json j @ r) = Some (j, r)"
  "list_all wf_json js \<Longrightarrow> length (enc_items js) \<le> n \<Longrightarrow> dec_items n (enc_items js @ r) = Some (js, r)"
  "list_all (\<lambda>(k, j). wf_json j) m \<Longrightarrow> length (enc_members m) \<le> n \<Longrightarrow>
   dec_members n (enc_members m @ r) = Some (m, r)"
proof (induction j and js and m arbitrary: n r and n r and n r rule: enc_json_enc_items_enc_members.induct)
  case 1
  then show ?case by (cases n) auto
next
  case (2 b)
  then show ?case by (cases n; cases b) auto
next
  case (3 s)
  then show ?case by (cases n) auto
next
  case (4 s)
  then show ?case by (cases n) auto
next
  case (5 js)
  then show ?case by (cases n) auto
next
  case (6 m)
  then show ?case by (cases n) auto
next
  case 7
  then show ?case by (cases n) auto
next
  case (8 j js)
  then show ?case by (cases n) auto
next
  case 9
  then show ?case by (cases n) auto
next
  case (10 kv m)
  then show ?case by (cases n; cases kv) auto
qed

definition toy_parse :: "string \<Rightarrow> json option" where
  "toy_parse t = (case dec_json (length t) t of Some (j, []) \<Rightarrow> Some j | _ \<Rightarrow> None)"

definition toy_dump :: "json \<Rightarrow> string + string" where
  "toy_dump j = (if wf_json j then Inr (enc_json j) else Inl ''[json.exception.type_error.316] invalid UTF-8 byte'')"

definition toy :: libs where
  "toy = \<lparr>saltbytes = 2, keybytes = 2, noncebytes = 1, macbytes = 2,
     opslimit_min = 1, opslimit_moderate = 3, opslimit_sensitive = 4,
     memlimit_min = 10, memlimit_moderate = 30, memlimit_sensitive = 40,
     sodium_init_ok = True, mlock_error = \<lambda>i. None,
     randombytes = \<lambda>i n. replicate n (char_of i),
     pwhash = \<lambda>p s ops mem. Some (take 2 (p @ ''xx'')),
     secretbox = \<lambda>m n k. take 2 (k @ ''xx'') @ m,
     secretbox_open = \<lambda>c n k. if length k = 2 \<and> take 2 c = k then Some (drop 2 c) else None,
     sodium_memcmp = \<lambda>a b. if a = b then 0 else 1, clock = \<lambda>i. of_nat i,
     json_parse = toy_parse, json_range_error = \<lambda>t. None, json_dump = toy_dump,
     json_type_error = \<lambda>j. ''type must be string''\<rparr>"

lemma toy_object_sorted: "toy_parse t = Some (JObject m) \<Longrightarrow> smap_inv m"
proof -
  assume a: "toy_parse t = Some (JObject m)"
  then have "dec_json (length t) t = Some (JObject m, [])"
    by (auto simp: toy_parse_def split: option.splits list.splits)
  then show "smap_inv m"
    by (cases t) (auto split: if_splits option.splits)
qed

lemma toy_round: "toy_dump (JObject m) = Inr t \<Longrightarrow> toy_parse t = Some (JObject m)"
  using dec_enc(1) [of "JObject m" "length t" "[]"]
  by (auto simp: toy_parse_def toy_dump_def split: if_splits)

lemma enc_one_line:
  "LF \<notin> set (enc_text s)"
  "LF \<notin> set (enc_json j)" "LF \<notin> set (enc_items js)" "LF \<notin> set (enc_members m)"
proof -
  have t: "LF \<notin> set (enc_text s)" for s by (induction s) auto
  show "LF \<notin> set (enc_text s)" by (rule t)
  show "LF \<notin> set (enc_json j)" "LF \<notin> set (enc_items js)" "LF \<notin> set (enc_members m)"
    by (induction j and js and m rule: enc_json_enc_items_enc_members.induct) (auto simp: t)
qed

lemma toy_ok: "libs_ok toy"
  unfolding libs_ok_def
  by (intro conjI) (auto simp: toy_def toy_round toy_dump_def has_prefix_def enc_one_line dest: toy_object_sorted split: if_splits)

end
