(* ===== verification/Completes.thy ===== *)
theory Completes
  imports LocalBackend
begin

text \<open>
  The other direction of the end-to-end theorems: a request that fits the wire and that the
  daemon can answer does return, so that the contracts of the client are not met vacuously.
\<close>

lemma send_completes:
  assumes "libs_ok L" and "serialize L cl (make_request op key v) = Inr line"
    and "respond L tok (wire_request cl op key v) st w = (Inr t, st', w')"
    and "length t \<le> kMaxResponseBytes" and "json_parse L t = Some resp"
  shows "send L uid (daemon_peer L uid tok) cl (make_request op key v) (st, w) = (Inr resp, (st', w'))"
proof -
  note wire = parse_serialized [OF assms(1,2)]
  let ?c = "connection_of [] [] (Inr uid)"
  let ?c2 = "?c\<lparr>c_out := line @ [LF], c_in := [Received (t @ [LF])]\<rparr>"
  have answer: "daemon_answer L uid tok (line @ [LF]) (st, w) = ([Received (t @ [LF])], (st', w'))"
    using serve_one [OF wire(2,3,1), of uid tok st w] assms(3) by simp
  have t: "LF \<notin> set t"
    using respond_dumps [OF assms(3)] libs_one_line [OF assms(1)] by blast
  have "conn_inv ?c2" "pending ?c2 = t @ LF # []"
    by (simp_all add: conn_inv_def pending_def connection_of_def)
  then obtain c3 where "read_line kMaxResponseBytes ?c2 = (Some t, c3)"
    using read_line_complete t assms(4) by blast
  moreover have "write_line line ?c = (True, ?c\<lparr>c_out := line @ [LF]\<rparr>)"
    by (simp add: write_line_all fresh_sends)
  moreover have "op_of L (make_request op key v) = Inr op"
    by (auto simp: op_of_def value_string_def get_string_def make_request_def Let_def smap_find_put split: option.splits)
  ultimately show ?thesis
    using assms(2,5) answer by (simp add: send_def daemon_peer_def)
qed

text \<open>What a successful reply looks like to the client.\<close>

lemma success_ok: "\<forall>kv \<in> set ms. fst kv \<noteq> ''ok'' \<Longrightarrow> response_ok L (success ms) = Inr True"
proof -
  assume "\<forall>kv \<in> set ms. fst kv \<noteq> ''ok''"
  then have "map_of (rev ms) ''ok'' = None"
    by (auto simp: map_of_eq_None_iff)
  then show ?thesis
    by (simp add: success_object response_ok_def find_object smap_find_put)
qed

text \<open>The requests the map answers with ok.\<close>

definition answerable :: "request \<Rightarrow> (string \<Rightarrow> string option) \<Rightarrow> bool" where
  "answerable req m \<longleftrightarrow> (\<exists>ms. fst (kv_spec req m) = success ms \<and> (\<forall>kv \<in> set ms. fst kv \<noteq> ''ok''))"

lemma request_completes:
  assumes "libs_ok L" and "service_ok L st"
    and "check_request L cl op key v = Inr ()"
    and "dispatch L (wire_request cl op key v) (clock L (w_tick w)) st (w\<lparr>w_tick := Suc (w_tick w)\<rparr>) = (Inr t, st', w')"
    and "length t \<le> kMaxResponseBytes" and "answerable (wire_request cl op key v) (store_view st)"
  shows "request L uid (daemon_peer L uid (dc_token cl)) cl op key v (st, w) =
    (Inr (fst (kv_spec (wire_request cl op key v) (store_view st))), (st', w'))"
proof -
  let ?rq = "wire_request cl op key v"
  obtain line where line: "serialize L cl (make_request op key v) = Inr line"
    using assms(3) by (auto simp: check_request_def)
  have "r_token ?rq = dc_token cl" by (simp add: wire_request_def)
  then have r: "respond L (dc_token cl) ?rq st w = (Inr t, st', w')"
    using assms(4) token_matches_iff [OF assms(1)] by (simp add: respond_def read_clock_run)
  obtain ms where ms: "fst (kv_spec ?rq (store_view st)) = success ms" "\<forall>kv \<in> set ms. fst kv \<noteq> ''ok''"
    using assms(6) by (auto simp: answerable_def)
  have d: "json_dump L (success ms) = Inr t"
    using dispatch_spec [OF assms(1,2,4)] ms by simp
  then have "json_parse L t = Some (success ms)"
    using libs_json_round [OF assms(1) json_object_inv] by (metis success_object success_def)
  then have "send L uid (daemon_peer L uid (dc_token cl)) cl (make_request op key v) (st, w) = (Inr (success ms), (st', w'))"
    by (rule send_completes [OF assms(1) line r assms(5)])
  then show ?thesis
    using success_ok [OF ms(2)] ms(1) by (simp add: request_def request_raw_def bindR_def)
qed

end
