(* ===== verification/Examples.thy ===== *)
theory Examples
  imports CommandsFacts ManifestEdit Dotenv Concrete Completes
begin

text \<open>
  One concrete run of the program on the toy libraries: a store made by \<open>init\<close>, with an
  environment, a daemon and a client around it. The examples beside the properties start here.
\<close>

definition toy_path :: string where "toy_path = ''/d/store''"
definition toy_token :: string where "toy_token = ''tok''"

text \<open>Enough outcomes for several writes: each call succeeds, each \<open>write\<close> takes every byte.\<close>

definition one_write :: "outcome list" where
  "one_write = [Succeeds, Succeeds, Succeeds, Wrote 1000, Succeeds, Succeeds, Succeeds, Succeeds, Succeeds]"

definition toy_start :: world where
  "toy_start = \<lparr>w_files = Map.empty, w_outs = one_write @ one_write, w_tick = 1\<rparr>"

definition toy_created :: "(exn + store) \<times> world" where
  "toy_created = store_create toy toy_path ''pw'' 5 toy_start"

definition toy_store :: store where "toy_store = projr (fst toy_created)"
definition toy_world :: world where "toy_world = snd toy_created"

lemma toy_created: "store_create toy toy_path ''pw'' 5 toy_start = (Inr toy_store, toy_world)"
proof -
  have "\<not> isl (fst toy_created)" by code_simp
  then show ?thesis
    by (cases toy_created; cases "fst toy_created") (auto simp: toy_store_def toy_world_def toy_created_def)
qed

lemmas toy_facts = store_create_Inr [OF toy_ok toy_created]

lemma toy_wf: "wf_store toy toy_store" and toy_unwraps: "unwraps toy ''pw'' toy_store"
  and toy_synced: "synced toy toy_store toy_world" and toy_store_path: "st_path toy_store = toy_path"
  and toy_store_data: "st_data toy_store = []"
  using toy_facts by simp_all

lemma toy_clean: "runs_clean toy"
  by (simp add: runs_clean_def toy_def)

lemma toy_service: "service_ok toy toy_store"
  using toy_wf by (simp add: service_ok_def text_store_def toy_store_data)

lemma toy_view: "store_view toy_store = Map.empty"
  by (rule ext) (simp add: store_view_def toy_store_data)

section \<open>A client of the toy daemon\<close>

definition toy_client :: daemon_client where
  "toy_client = \<lparr>dc_socket = ''/d/secretov.sock'', dc_token = toy_token\<rparr>"

definition toy_set_dispatch :: "(exn + string) \<times> store \<times> world" where
  "toy_set_dispatch = dispatch toy (wire_request toy_client ''set'' ''a/b/c'' (Some ''v''))
     (clock toy (w_tick toy_world)) toy_store (toy_world\<lparr>w_tick := Suc (w_tick toy_world)\<rparr>)"

lemma toy_fits: "check_request toy toy_client ''set'' ''a/b/c'' (Some ''v'') = Inr ()"
proof -
  have dump: "case json_dump toy (JObject (smap_put ''token'' (JString (dc_token toy_client))
      (make_request ''set'' ''a/b/c'' (Some ''v'')))) of Inl e \<Rightarrow> False | Inr l \<Rightarrow> length l \<le> 200"
    by code_simp
  then obtain l where "json_dump toy (JObject (smap_put ''token'' (JString (dc_token toy_client))
      (make_request ''set'' ''a/b/c'' (Some ''v'')))) = Inr l" and "length l \<le> 200"
    by (auto split: sum.splits)
  then show ?thesis by (simp add: check_request_def serialize_def kMaxRequestBytes_def)
qed

lemma toy_set_answers: "\<exists>t. fst toy_set_dispatch = Inr t \<and> length t \<le> 200"
proof -
  have "case fst toy_set_dispatch of Inl e \<Rightarrow> False | Inr t \<Rightarrow> length t \<le> 200" by code_simp
  then show ?thesis by (auto split: sum.splits)
qed

lemma toy_sets:
  "\<exists>d'. request toy 7 (daemon_peer toy 7 (dc_token toy_client)) toy_client ''set'' ''a/b/c'' (Some ''v'')
     (toy_store, toy_world) = (Inr (success []), d')"
proof -
  let ?rq = "wire_request toy_client ''set'' ''a/b/c'' (Some ''v'')"
  obtain t where t: "fst toy_set_dispatch = Inr t" "length t \<le> 200" using toy_set_answers by blast
  then have "toy_set_dispatch = (Inr t, fst (snd toy_set_dispatch), snd (snd toy_set_dispatch))"
    by (simp add: prod_eq_iff)
  then have d: "dispatch toy ?rq (clock toy (w_tick toy_world)) toy_store (toy_world\<lparr>w_tick := Suc (w_tick toy_world)\<rparr>) =
      (Inr t, fst (snd toy_set_dispatch), snd (snd toy_set_dispatch))"
    unfolding toy_set_dispatch_def .
  have spec: "fst (kv_spec ?rq (store_view toy_store)) = success []"
    by (simp add: kv_spec_def wire_request_def)
  then have "answerable ?rq (store_view toy_store)"
    by (auto simp: answerable_def)
  from request_completes [OF toy_ok toy_service toy_fits d _ this] t(2) spec show ?thesis
    by (auto simp: kMaxResponseBytes_def)
qed

definition toy_paths :: paths where
  "toy_paths = \<lparr>p_store = toy_path, p_token = ''/c/token'', p_registry = ''/c/projects.yaml'', p_socket = ''/d/secretov.sock''\<rparr>"

end
