(* ===== verification/StoreProps.thy ===== *)
theory StoreProps
  imports Examples
begin

text \<open>
  The properties of the store and of the atomic file write, each with a run of the toy
  libraries where its hypotheses hold.
\<close>

section \<open>The atomic write\<close>

text \<open>
  C8. Whatever the system calls answer, \<open>write_file_atomic\<close> leaves either the old file or the
  complete new one: the new, synced one when it returns, the old one when it throws, one of
  the two when the process is killed in between. No third path changes.
\<close>

theorem atomic_write:
  assumes "write_file_atomic path contents mode fs outs = ((pc, fs'), rest)"
  shows "(case pc of
      Returned w \<Rightarrow> fs' path = Some (complete_file contents mode)
    | Threw what \<Rightarrow> fs' path = fs path
    | _ \<Rightarrow> fs' path = fs path \<or> fs' path = Some (complete_file contents mode)) \<and>
    (\<forall>p. p \<noteq> path \<longrightarrow> p \<noteq> tmp_name path \<longrightarrow> fs' p = fs p)"
proof
  show "case pc of Returned w \<Rightarrow> fs' path = Some (complete_file contents mode) | Threw what \<Rightarrow> fs' path = fs path
      | _ \<Rightarrow> fs' path = fs path \<or> fs' path = Some (complete_file contents mode)"
  proof (cases pc)
    case (Returned w)
    then show ?thesis using write_returned assms by simp
  next
    case (Threw what)
    then show ?thesis using write_threw assms by simp
  qed (use write_old_or_new [OF assms] in simp_all)
  show "\<forall>p. p \<noteq> path \<longrightarrow> p \<noteq> tmp_name path \<longrightarrow> fs' p = fs p"
    using write_frame [OF assms] by blast
qed

definition killed_write :: "(wfa_pc \<times> files) \<times> outcome list" where
  "killed_write = write_file_atomic ''/d/f'' ''new'' 420 Map.empty [Succeeds, Succeeds, Succeeds, Wrote 2]"

theorem atomic_write_witness:
  "fst (fst killed_write) = Write 2 \<and>
   (snd (fst killed_write) ''/d/f'' = None \<or>
    snd (fst killed_write) ''/d/f'' = Some (complete_file ''new'' 420)) \<and>
   snd (fst killed_write) ''/d/g'' = None"
proof -
  have w: "write_file_atomic ''/d/f'' ''new'' 420 Map.empty [Succeeds, Succeeds, Succeeds, Wrote 2] =
      ((fst (fst killed_write), snd (fst killed_write)), snd killed_write)"
    by (simp add: killed_write_def)
  have "fst (fst killed_write) = Write 2" by code_simp
  then show ?thesis using atomic_write [OF w] by (simp add: tmp_name_def)
qed

text \<open>
  C39. Short writes are completed: when the kernel takes the bytes in any positive pieces and
  every other call succeeds, the write returns, and it used exactly those calls.
\<close>

theorem atomic_write_returns:
  assumes "sum_list ns = length contents" and "\<forall>n \<in> set ns. 0 < n"
  shows "\<exists>fs'. write_file_atomic path contents mode fs
           (Succeeds # Succeeds # Succeeds # map Wrote ns @ [Succeeds, Succeeds, Succeeds, Succeeds, Succeeds])
         = ((Returned False, fs'), []) \<and> fs' path = Some (complete_file contents mode)"
  using write_completes [OF assms, of path mode fs] write_returned by blast

theorem atomic_write_returns_witness:
  "\<exists>fs'. write_file_atomic ''/d/f'' ''abc'' 384 Map.empty
           (Succeeds # Succeeds # Succeeds # map Wrote [1, 2] @ [Succeeds, Succeeds, Succeeds, Succeeds, Succeeds])
         = ((Returned False, fs'), []) \<and> fs' ''/d/f'' = Some (complete_file ''abc'' 384)"
  using atomic_write_returns [of "[1, 2]" "''abc''" "''/d/f''" 384 Map.empty] by simp

section \<open>Opening\<close>

text \<open>
  C15. A store that opens, of either format version, is well formed (header fields of the
  right sizes, KDF parameters within the limits, a data key of the right size, sorted keys),
  the passphrase unwraps its data key, and the file on disk holds it in the current format:
  a version 1 file has been migrated.
\<close>

theorem open_sound:
  assumes "libs_ok L" and "store_open L path p w = (Inr st, w')"
  shows "wf_store L st \<and> st_path st = path \<and> unwraps L p st \<and> synced L st w'"
  using store_open_Inr [OF assms] .

theorem open_sound_witness:
  "\<exists>w'. store_open toy toy_path ''pw'' toy_world = (Inr toy_store, w') \<and> wf_store toy toy_store \<and>
     unwraps toy ''pw'' toy_store \<and> synced toy toy_store w'"
proof -
  obtain w' where "store_open toy (st_path toy_store) ''pw'' toy_world = (Inr toy_store, w')"
    using store_open_synced [OF toy_ok toy_clean toy_wf toy_synced toy_unwraps] by blast
  then have o: "store_open toy toy_path ''pw'' toy_world = (Inr toy_store, w')"
    by (simp only: toy_store_path)
  show ?thesis using open_sound [OF toy_ok o] o by blast
qed

section \<open>Changing\<close>

text \<open>
  Durability along any run: from a store in sync with its file, after any sequence of sets,
  removals, rotations and passphrase changes, some of which may have thrown, the file is a
  complete well-formed store; it is the one in memory unless a write was killed.
\<close>

theorem run_synced:
  assumes "libs_ok L" and "wf_store L st" and "synced L st w" and "store_run L ops st w = (alive, st', w')"
  shows "\<exists>d. st_path d = st_path st \<and> wf_store L d \<and> synced L d w' \<and> (alive \<longrightarrow> d = st')"
  using store_run_synced [OF assms] by blast

definition toy_ops :: "store_op list" where
  "toy_ops = [RotateOp ''no'' 6, RemoveOp ''a'', PasswdOp ''pw'' ''new'' 7]"

definition toy_run :: "bool \<times> store \<times> world" where
  "toy_run = store_run toy toy_ops toy_store toy_world"

theorem run_synced_witness:
  "\<exists>d. st_path d = toy_path \<and> wf_store toy d \<and> synced toy d (snd (snd toy_run)) \<and> (fst toy_run \<longrightarrow> d = fst (snd toy_run))"
proof -
  have "store_run toy toy_ops toy_store toy_world = (fst toy_run, fst (snd toy_run), snd (snd toy_run))"
    by (simp add: toy_run_def)
  from run_synced [OF toy_ok toy_wf toy_synced this] show ?thesis by (simp only: toy_store_path)
qed

text \<open>
  C14. A crash loses at most the operation under way: killed in the middle of an operation, the
  store on disk is the one before it or the one after it, and the same passphrase (the new
  one, for \<open>passwd\<close>) unwraps the latter.
\<close>

theorem crash_old_or_new:
  assumes "libs_ok L" and "wf_store L st" and "synced L st w" and "unwraps L p st"
    and "store_step L op st w = (Inl Killed, st', w')"
  shows "synced L st w' \<or>
    (\<exists>d. synced L d w' \<and> wf_store L d \<and> st_data d = op_effect op (st_data st) \<and> unwraps L (op_opens op p) d)"
  using store_step_killed [OF assms(1-3,5)] assms(4) unfolding candidate_def by blast

definition killed_world :: world where
  "killed_world = toy_world\<lparr>w_outs := [Succeeds, Succeeds, Succeeds, Wrote 3]\<rparr>"

definition killed_set :: "(exn + unit) \<times> store \<times> world" where
  "killed_set = store_step toy (SetOp ''a'' ''1'') toy_store killed_world"

theorem crash_old_or_new_witness:
  "\<exists>st' w'. killed_set = (Inl Killed, st', w') \<and>
    (synced toy toy_store w' \<or> (\<exists>d. synced toy d w' \<and> wf_store toy d \<and>
       st_data d = op_effect (SetOp ''a'' ''1'') (st_data toy_store) \<and> unwraps toy (op_opens (SetOp ''a'' ''1'') ''pw'') d))"
proof -
  have "case fst killed_set of Inl Killed \<Rightarrow> True | _ \<Rightarrow> False" by code_simp
  then have "killed_set = (Inl Killed, fst (snd killed_set), snd (snd killed_set))"
    by (auto simp: prod_eq_iff split: sum.splits exn.splits)
  then have k: "store_step toy (SetOp ''a'' ''1'') toy_store killed_world =
      (Inl Killed, fst (snd killed_set), snd (snd killed_set))"
    unfolding killed_set_def .
  have "synced toy toy_store killed_world"
    using toy_synced synced_files [of killed_world toy_store toy_world] by (simp add: killed_world_def)
  from crash_old_or_new [OF toy_ok toy_wf this toy_unwraps k] show ?thesis using k unfolding killed_set_def by blast
qed

text \<open>
  C9. Every operation is all or nothing. When it returns, the secrets are exactly those the
  operation asks for, the file is in sync, and the passphrase that opens the store is the
  expected one; when it throws, neither the store in memory nor the file has changed.
\<close>

theorem all_or_nothing:
  assumes "libs_ok L" and "wf_store L st" and "synced L st w" and "store_step L op st w = (r, st', w')"
  shows "case r of
      Inr _ \<Rightarrow> st_data st' = op_effect op (st_data st) \<and> synced L st' w' \<and>
        (\<forall>p. unwraps L p st \<longrightarrow> unwraps L (op_opens op p) st')
    | Inl (Throw what) \<Rightarrow> st' = st \<and> w_files w' (st_path st) = w_files w (st_path st)
    | Inl Killed \<Rightarrow> st' = st"
  using assms(4) store_step_synced [OF assms] store_step_effect [OF assms(1,2)] store_step_thrown [OF assms(1,2)]
  by (cases r) (auto split: exn.splits)

definition toy_set :: "(exn + unit) \<times> store \<times> world" where
  "toy_set = store_step toy (SetOp ''a'' ''1'') toy_store toy_world"

lemma toy_set_returns: "\<exists>st' w'. store_step toy (SetOp ''a'' ''1'') toy_store toy_world = (Inr (), st', w')"
proof -
  have "\<not> isl (fst toy_set)" by code_simp
  then show ?thesis by (cases toy_set; cases "fst toy_set") (auto simp: toy_set_def)
qed

theorem all_or_nothing_witness:
  "\<exists>st' w'. store_step toy (SetOp ''a'' ''1'') toy_store toy_world = (Inr (), st', w') \<and>
     st_data st' = [(''a'', JString ''1'')] \<and> synced toy st' w' \<and> unwraps toy ''pw'' st'"
proof -
  obtain st' w' where s: "store_step toy (SetOp ''a'' ''1'') toy_store toy_world = (Inr (), st', w')"
    using toy_set_returns by blast
  have "op_effect (SetOp ''a'' ''1'') (st_data toy_store) = [(''a'', JString ''1'')]"
    by (simp add: toy_store_data smap_put_def)
  then show ?thesis using all_or_nothing [OF toy_ok toy_wf toy_synced s] s toy_unwraps by auto
qed

text \<open>
  C38. A passphrase change never weakens the key derivation: the new limits are the larger of
  the old ones and the current defaults, within the accepted range; the secrets are unchanged,
  and the new passphrase unwraps the fresh data key.
\<close>

theorem passwd_never_weakens:
  assumes "libs_ok L" and "wf_store L st" and "change_passphrase L old_pass new_pass now st w = (Inr u, st', w')"
  shows "opslimit (st_env st') = max (opslimit (st_env st)) (opslimit_moderate L) \<and>
    memlimit (st_env st') = max (memlimit (st_env st)) (memlimit_moderate L) \<and>
    check_kdf_params L (opslimit (st_env st')) (memlimit (st_env st')) = Inr () \<and>
    st_data st' = st_data st \<and> unwraps L new_pass st' \<and> synced L st' w'"
  using change_passphrase_step [OF assms] by (auto simp: candidate_def committed_def wf_store_def wf_envelope_def)

definition toy_passwd :: "(exn + unit) \<times> store \<times> world" where
  "toy_passwd = change_passphrase toy ''pw'' ''new'' 7 toy_store toy_world"

theorem passwd_never_weakens_witness:
  "\<exists>st' w'. change_passphrase toy ''pw'' ''new'' 7 toy_store toy_world = (Inr (), st', w') \<and>
     unwraps toy ''new'' st' \<and> st_data st' = [] \<and> opslimit (st_env toy_store) \<le> opslimit (st_env st')"
proof -
  have "\<not> isl (fst toy_passwd)" by code_simp
  then obtain st' w' where s: "change_passphrase toy ''pw'' ''new'' 7 toy_store toy_world = (Inr (), st', w')"
    by (cases toy_passwd; cases "fst toy_passwd") (auto simp: toy_passwd_def)
  show ?thesis using passwd_never_weakens [OF toy_ok toy_wf s] s toy_store_data by auto
qed

text \<open>The passphrases that a run may leave the store with.\<close>

fun passphrases :: "string \<Rightarrow> store_op list \<Rightarrow> string set" where
  "passphrases p [] = {p}"
| "passphrases p (op # ops) = passphrases p ops \<union> passphrases (op_opens op p) ops"

lemma run_unwraps:
  assumes "libs_ok L"
  shows "wf_store L st \<Longrightarrow> synced L st w \<Longrightarrow> unwraps L p st \<Longrightarrow> store_run L ops st w = (True, st', w') \<Longrightarrow>
    wf_store L st' \<and> synced L st' w' \<and> st_path st' = st_path st \<and> (\<exists>q \<in> passphrases p ops. unwraps L q st')"
proof (induction ops arbitrary: st w p)
  case Nil
  then show ?case by auto
next
  case (Cons op ops)
  obtain r st1 w1 where step: "store_step L op st w = (r, st1, w1)" by (cases "store_step L op st w")
  have alive: "r \<noteq> Inl Killed" "store_run L ops st1 w1 = (True, st', w')"
    using Cons.prems(4) step by (auto split: sum.splits exn.splits)
  have ok: "wf_store L st1" "synced L st1 w1" "st_path st1 = st_path st"
    using store_step_synced [OF assms Cons.prems(1,2) step] alive by auto
  show ?case
  proof (cases r)
    case (Inl e)
    then have "st1 = st" using store_step_thrown(1) [OF assms Cons.prems(1)] step by simp
    then show ?thesis using Cons.IH [OF ok(1,2) _ alive(2), of p] Cons.prems(3) ok(3) by auto
  next
    case (Inr u)
    then have "unwraps L (op_opens op p) st1"
      using store_step_effect(2) [OF assms Cons.prems(1)] step Cons.prems(3) by simp
    then show ?thesis using Cons.IH [OF ok(1,2) _ alive(2)] ok(3) by auto
  qed
qed

text \<open>
  C24. The whole life of a store: made by \<open>init\<close>, changed by any operations (those that throw
  included) and opened again, it comes back unchanged, under the first passphrase or one that
  a rotation or a passphrase change was given.
\<close>

theorem life_cycle:
  assumes "libs_ok L" and "runs_clean L" and "store_create L path p now w = (Inr st, w1)"
    and "store_run L ops st w1 = (True, st', w2)"
  shows "\<exists>q \<in> passphrases p ops. \<exists>w3. store_open L path q w2 = (Inr st', w3)"
proof -
  note new = store_create_Inr [OF assms(1,3)]
  obtain q where "wf_store L st'" "synced L st' w2" "st_path st' = path" "q \<in> passphrases p ops" "unwraps L q st'"
    using run_unwraps [OF assms(1) _ _ _ assms(4), of p] new by auto
  then show ?thesis using store_open_synced [OF assms(1,2), of st' w2 q] by auto
qed

theorem life_cycle_witness:
  "\<exists>q \<in> passphrases ''pw'' toy_ops. \<exists>w3. store_open toy toy_path q (snd (snd toy_run)) = (Inr (fst (snd toy_run)), w3)"
proof -
  have "fst toy_run" by code_simp
  then have "store_run toy toy_ops toy_store toy_world = (True, fst (snd toy_run), snd (snd toy_run))"
    by (simp add: toy_run_def prod_eq_iff)
  from life_cycle [OF toy_ok toy_clean toy_created this] show ?thesis .
qed

end
