(* ===== verification/RequestEffects.thy ===== *)
theory RequestEffects
  imports Completes
begin

text \<open>
  What a request may have done whatever came back: a reply, an error, or nothing. Either the
  secrets are as they were, or the whole effect of the request took place.
\<close>

lemma send_state:
  assumes "libs_ok L" and "send L uid (daemon_peer L uid tok) cl (make_request op key v) (st, w) = (r, (st', w'))"
  shows "(st', w') = (st, w) \<or> (\<exists>res. respond L tok (wire_request cl op key v) st w = (res, st', w'))"
proof (cases "serialize L cl (make_request op key v)")
  case (Inl e)
  then show ?thesis using assms(2) by (auto simp: send_def daemon_peer_def split: sum.splits)
next
  case (Inr line)
  note wire = parse_serialized [OF assms(1) Inr]
  obtain res st1 w1 where rs: "respond L tok (wire_request cl op key v) st w = (res, st1, w1)"
    by (cases "respond L tok (wire_request cl op key v) st w")
  have answer: "\<exists>ins. daemon_answer L uid tok (line @ [LF]) (st, w) = (ins, (st1, w1))"
    using serve_one [OF wire(2,3,1), of uid tok st w] rs by (auto split: sum.splits)
  let ?c = "connection_of [] [] (Inr uid)"
  have "write_line line ?c = (True, ?c\<lparr>c_out := line @ [LF]\<rparr>)"
    by (simp add: write_line_all fresh_sends)
  then have "(st', w') = (st, w) \<or> (st', w') = (st1, w1)"
    using assms(2) Inr answer
    by (auto simp: send_def daemon_peer_def split: sum.splits option.splits prod.splits)
  then show ?thesis using rs by auto
qed

lemma respond_effect:
  assumes "libs_ok L" and "service_ok L st" and "r_token req = tok" and "respond L tok req st w = (res, st', w')"
  shows "service_ok L st' \<and> (store_view st' = store_view st \<or> store_view st' = snd (kv_spec req (store_view st)))"
proof (cases res)
  case (Inr t)
  from assms(1-3) assms(4) [unfolded Inr] show ?thesis
    by (cases rule: respond_cases) (use assms(2) in auto)
next
  case (Inl e)
  let ?now = "clock L (w_tick w)" and ?w = "w\<lparr>w_tick := Suc (w_tick w)\<rparr>"
  obtain r st1 w1 where d: "dispatch L req ?now st ?w = (r, st1, w1)" by (cases "dispatch L req ?now st ?w")
  have wf: "wf_store L st" using assms(2) by (simp add: service_ok_def)
  have "token_matches L tok (r_token req)" using assms(1,3) by (simp add: token_matches_iff)
  then have r: "(case r of Inl (Throw what) \<Rightarrow> liftM (error_response L what) st1 w1 | _ \<Rightarrow> (r, st1, w1)) = (Inl e, st', w')"
    using assms(4) d Inl by (auto simp: respond_def read_clock_run split: sum.splits exn.splits)
  then obtain e1 where "r = Inl e1" by (cases r) auto
  moreover have "st' = st1" using r by (auto split: sum.splits exn.splits)
  ultimately have "st' = st" using dispatch_thrown [OF assms(1) wf] d by blast
  then show ?thesis using assms(2) by simp
qed

lemma local_request_effect:
  assumes "libs_ok L" and "served_ok L d"
    and "local_request L uid (daemon_peer L uid (dc_token cl)) cl op key v d = (r, d')"
  shows "served_ok L d' \<and> (served_view d' = served_view d \<or>
    served_view d' = snd (kv_spec (wire_request cl op key v) (served_view d)))"
proof -
  let ?P = "daemon_peer L uid (dc_token cl)"
  obtain st w st' w' where d: "d = (st, w)" "d' = (st', w')" by (cases d; cases d')
  obtain s d1 where s: "send L uid ?P cl (make_request op key v) d = (s, d1)"
    by (cases "send L uid ?P cl (make_request op key v) d")
  then have "d1 = d'"
    using assms(3)
    by (auto simp: local_request_def request_def request_raw_def bindR_def split: sum.splits prod.splits if_splits)
  then have "(st', w') = (st, w) \<or> (\<exists>res. respond L (dc_token cl) (wire_request cl op key v) st w = (res, st', w'))"
    using send_state [OF assms(1)] s d by blast
  moreover have token: "r_token (wire_request cl op key v) = dc_token cl" by (simp add: wire_request_def)
  moreover have ok: "service_ok L st" using assms(2) by (simp add: served_ok_def d)
  ultimately have "service_ok L st' \<and> (store_view st' = store_view st \<or>
      store_view st' = snd (kv_spec (wire_request cl op key v) (store_view st)))"
    using respond_effect [OF assms(1) ok token] by blast
  then show ?thesis by (simp add: served_ok_def served_view_def d)
qed

text \<open>Reading leaves the secrets alone.\<close>

definition reads_only :: "libs \<Rightarrow> (served, 'a) remote \<Rightarrow> bool" where
  "reads_only L m \<longleftrightarrow> (\<forall>d r d'. served_ok L d \<longrightarrow> m d = (r, d') \<longrightarrow> unchanged L d d')"

lemma reads_only_bind:
  "reads_only L m \<Longrightarrow> (\<And>x. reads_only L (f x)) \<Longrightarrow> reads_only L (bindR m f)"
proof -
  assume m: "reads_only L m" and f: "\<And>x. reads_only L (f x)"
  have "unchanged L d d'" if ok: "served_ok L d" and run: "bindR m f d = (r, d')" for d r d'
  proof -
    obtain o1 d1 where o: "m d = (o1, d1)" by (cases "m d")
    then have u: "unchanged L d d1" using m ok unfolding reads_only_def by blast
    show ?thesis
    proof (cases o1)
      case (Inl e)
      then show ?thesis using run o u by (simp add: bindR_def)
    next
      case (Inr x)
      then have "f x d1 = (r, d')" using run o by (simp add: bindR_def)
      then have "unchanged L d1 d'" using f u unfolding reads_only_def unchanged_def by blast
      then show ?thesis using u by (simp add: unchanged_def)
    qed
  qed
  then show ?thesis unfolding reads_only_def by blast
qed

lemma reads_only_pure [simp]: "reads_only L (returnR x)" "reads_only L (throwR e)" "reads_only L (liftR r)"
  by (auto simp: reads_only_def unchanged_def)

lemma reads_only_request:
  assumes "libs_ok L" and "op \<in> {''get'', ''list'', ''getprefix''}"
  shows "reads_only L (local_request L uid (daemon_peer L uid (dc_token cl)) cl op key v)"
proof -
  have "snd (kv_spec (wire_request cl op key v) m) = m" for m
    using assms(2) by (auto simp: kv_spec_def wire_request_def)
  then show ?thesis
    unfolding reads_only_def unchanged_def using local_request_effect [OF assms(1)] by metis
qed

lemma reads_only_group:
  assumes "libs_ok L"
  shows "reads_only L (fetch_group L uid (daemon_peer L uid (dc_token cl)) cl batched scope grp acc)"
proof (induction grp arbitrary: acc)
  case Nil
  then show ?case by (simp add: reads_only_def unchanged_def)
next
  case (Cons p grp)
  let ?P = "daemon_peer L uid (dc_token cl)"
  have one: "reads_only L (fetch_one L uid ?P cl batched scope p)"
    by (auto simp: fetch_one_def intro!: reads_only_bind reads_only_request [OF assms] split: option.splits)
  have "unchanged L d d'"
    if ok: "served_ok L d" and run: "fetch_group L uid ?P cl batched scope (p # grp) acc d = (r, d')" for d r d'
  proof -
    obtain o1 d1 where o: "fetch_one L uid ?P cl batched scope p d = (o1, d1)"
      by (cases "fetch_one L uid ?P cl batched scope p d")
    then have u: "unchanged L d d1" using one ok unfolding reads_only_def by blast
    then have ok1: "served_ok L d1" by (simp add: unchanged_def)
    have "d' = d1 \<or> (\<exists>acc'. fetch_group L uid ?P cl batched scope grp acc' d1 = (r, d'))"
      using run o by (auto split: sum.splits client_error.splits if_splits)
    then show ?thesis
      using u ok1 Cons.IH unfolding reads_only_def unchanged_def by metis
  qed
  then show ?case unfolding reads_only_def by blast
qed

lemma reads_only_groups:
  assumes "libs_ok L"
  shows "reads_only L (fetch_groups L uid (daemon_peer L uid (dc_token cl)) cl groups acc)"
proof (induction groups arbitrary: acc)
  case (Cons g groups)
  obtain pre grp where g: "g = (pre, grp)" by (cases g)
  show ?case
    using Cons.IH
    by (auto simp: g Let_def fetch_scope_def intro!: reads_only_bind reads_only_request [OF assms] reads_only_group [OF assms])
qed simp

lemma reads_only_get_many:
  "libs_ok L \<Longrightarrow> reads_only L (get_many L uid (daemon_peer L uid (dc_token cl)) cl ps)"
  by (simp add: get_many_def reads_only_groups)

text \<open>Writing either happens or does not.\<close>

lemma backend_set_effect:
  assumes "libs_ok L" and "served_ok L d"
    and "backend_set L uid (daemon_peer L uid (dc_token cl)) cl key v d = (r, d')"
  shows "served_ok L d' \<and> (served_view d' = served_view d \<or> key \<noteq> [] \<and> served_view d' = (served_view d)(key \<mapsto> v)) \<and>
    (\<forall>u. r = Inr u \<longrightarrow> key \<noteq> [] \<and> served_view d' = (served_view d)(key \<mapsto> v))"
proof -
  let ?P = "daemon_peer L uid (dc_token cl)"
  let ?spec = "kv_spec (wire_request cl ''set'' key (Some v)) (served_view d)"
  obtain r1 where l: "local_request L uid ?P cl ''set'' key (Some v) d = (r1, d')" and r: "\<forall>u. r = Inr u \<longrightarrow> (\<exists>resp. r1 = Inr resp)"
    using assms(3) by (auto simp: backend_set_def bindR_def split: prod.splits sum.splits)
  have spec: "?spec = (if key = [] then (failure ''missing key'', served_view d) else (success [], (served_view d)(key \<mapsto> v)))"
    by (simp add: kv_spec_def wire_request_def)
  have "key \<noteq> [] \<and> served_view d' = (served_view d)(key \<mapsto> v)" if "r1 = Inr resp" for resp
    using local_request_returns [OF assms(1,2) l [unfolded that]] spec by (auto split: if_splits)
  then show ?thesis
    using local_request_effect [OF assms(1,2) l] spec r by (auto split: if_splits)
qed

lemma backend_remove_effect:
  assumes "libs_ok L" and "served_ok L d"
    and "backend_remove L uid (daemon_peer L uid (dc_token cl)) cl key d = (r, d')"
  shows "served_ok L d' \<and> (served_view d' = served_view d \<or> key \<noteq> [] \<and> served_view d' = (served_view d)(key := None))"
proof -
  let ?P = "daemon_peer L uid (dc_token cl)"
  obtain r1 where l: "local_request L uid ?P cl ''delete'' key None d = (r1, d')"
    using assms(3) by (auto simp: backend_remove_def bindR_def split: prod.splits sum.splits)
  have "snd (kv_spec (wire_request cl ''delete'' key None) m) = (if key = [] then m else m(key := None))" for m
    by (auto simp: kv_spec_def wire_request_def)
  then show ?thesis
    using local_request_effect [OF assms(1,2) l] by (auto split: if_splits)
qed

end
