(* ===== verification/Simulation.thy ===== *)
theory Simulation
  imports Main
begin

text \<open>
  Runs of a labelled step relation, and the contract under which the runs of a program are runs
  of its specification: every step is matched by an abstract step with the same label, except
  from states that are excused.
\<close>

inductive run :: "('s \<Rightarrow> 'e \<Rightarrow> 's \<Rightarrow> bool) \<Rightarrow> 's \<Rightarrow> 'e list \<Rightarrow> 's \<Rightarrow> bool" for step where
  run_Nil [intro]: "run step s [] s"
| run_Cons [intro]: "step s e s1 \<Longrightarrow> run step s1 es s' \<Longrightarrow> run step s (e # es) s'"

inductive_simps run_Nil_iff [simp]: "run step s [] s'"
inductive_simps run_Cons_iff [simp]: "run step s (e # es) s'"

lemma run_append: "run step s es s1 \<Longrightarrow> run step s1 fs s' \<Longrightarrow> run step s (es @ fs) s'"
  by (induction rule: run.induct) auto

lemma run_single: "run step s [e] s' \<longleftrightarrow> step s e s'"
  by simp

lemma run_invariant:
  assumes "run step s es s'" and "good s" and "\<And>s e s'. step s e s' \<Longrightarrow> e \<in> set es \<Longrightarrow> good s \<Longrightarrow> good s'"
  shows "good s'"
  using assms by (induction rule: run.induct) auto

locale forward_simulation =
  fixes step :: "'s \<Rightarrow> 'e \<Rightarrow> 's \<Rightarrow> bool"
    and astep :: "'a \<Rightarrow> 'e \<Rightarrow> 'a \<Rightarrow> bool"
    and rel :: "'s \<Rightarrow> 'a \<Rightarrow> bool"
    and excused :: "'s \<Rightarrow> bool"
  assumes matched: "rel s a \<Longrightarrow> step s e s' \<Longrightarrow> \<not> excused s \<Longrightarrow> \<exists>a'. astep a e a' \<and> rel s' a'"
begin

text \<open>A run is a run of the specification, or is one up to an excused state.\<close>

lemma runs_matched:
  assumes "run step s es s'" and "rel s a"
  shows "(\<exists>a'. run astep a es a' \<and> rel s' a') \<or>
    (\<exists>es1 es2 s1 a1. es = es1 @ es2 \<and> run step s es1 s1 \<and> run astep a es1 a1 \<and> rel s1 a1 \<and> excused s1)"
  using assms
proof (induction arbitrary: a rule: run.induct)
  case (run_Nil s)
  then show ?case by blast
next
  case (run_Cons s e s1 es s')
  show ?case
  proof (cases "excused s")
    case True
    have "e # es = [] @ e # es" "run step s [] s" "run astep a [] a" by auto
    then show ?thesis using True run_Cons.prems by blast
  next
    case False
    then obtain a1 where a1: "astep a e a1" "rel s1 a1"
      using matched run_Cons.prems run_Cons.hyps(1) by blast
    from run_Cons.IH [OF a1(2)] show ?thesis
    proof (elim disjE exE conjE)
      fix a'
      assume "run astep a1 es a'" "rel s' a'"
      then show ?thesis using a1(1) by auto
    next
      fix es1 es2 s2 a2
      assume "es = es1 @ es2" "run step s1 es1 s2" "run astep a1 es1 a2" "rel s2 a2" "excused s2"
      moreover from this have "e # es = (e # es1) @ es2" "run step s (e # es1) s2" "run astep a (e # es1) a2"
        using a1(1) run_Cons.hyps(1) by auto
      ultimately show ?thesis by blast
    qed
  qed
qed

text \<open>What every run of the specification keeps, the program keeps as long as no state is excused.\<close>

lemma runs_keep:
  assumes "run step s es s'" and "rel s a" and "\<And>es1 es2 s1. es = es1 @ es2 \<Longrightarrow> run step s es1 s1 \<Longrightarrow> \<not> excused s1"
    and "good a" and "\<And>a e a'. astep a e a' \<Longrightarrow> e \<in> set es \<Longrightarrow> good a \<Longrightarrow> good a'"
  shows "\<exists>a'. rel s' a' \<and> good a'"
proof -
  from runs_matched [OF assms(1,2)] assms(3) obtain a' where "run astep a es a'" "rel s' a'" by blast
  then show ?thesis using run_invariant [of astep a es a' good] assms(4,5) by blast
qed

end

end
