(* ===== verification/Vault.thy ===== *)
theory Vault
  imports RequestEffects Simulation
begin

text \<open>
  What a store file is to its owner, told without bytes: the secrets, the passphrases it accepts
  and those that unlock it. This theory states what a request does to the vault and shows that
  the daemon does exactly that, whatever becomes of its system calls.
\<close>

text \<open>
  A passphrase is accepted when its key opens the envelope, and opens the store when what the
  envelope yields is the data key. (For an authenticated cipher the two are one.)
\<close>

record contents =
  secrets :: "string \<Rightarrow> string option"
  accepted :: "string \<Rightarrow> bool"
  unlocking :: "string \<Rightarrow> bool"

definition vault_of :: "libs \<Rightarrow> store \<Rightarrow> contents" where
  "vault_of L st = \<lparr>secrets = store_view st, accepted = accepts L st, unlocking = (\<lambda>p. unwraps L p st)\<rparr>"

lemma vault_of_simps [simp]:
  "secrets (vault_of L st) = store_view st" "accepted (vault_of L st) = accepts L st"
  "unlocking (vault_of L st) p = unwraps L p st"
  by (simp_all add: vault_of_def)

text \<open>
  One request carried out in full. Re-keying takes a passphrase the vault accepts, and the one
  it names opens the vault afterwards; no other request touches the passphrases.
\<close>

definition carried_out :: "contents \<Rightarrow> request \<Rightarrow> contents \<Rightarrow> bool" where
  "carried_out v req v' \<longleftrightarrow>
     secrets v' = snd (kv_spec req (secrets v)) \<and>
     (if r_op req = ''rotate'' then accepted v (r_old req) \<and> unlocking v' (r_old req)
      else if r_op req = ''passwd'' then accepted v (r_old req) \<and> unlocking v' (r_new req)
      else accepted v' = accepted v \<and> unlocking v' = unlocking v)"

text \<open>The file at the store's path is a complete store of text that some passphrase unlocks.\<close>

definition vault_file :: "libs \<Rightarrow> store \<Rightarrow> world \<Rightarrow> bool" where
  "vault_file L d w \<longleftrightarrow> service_ok L d \<and> synced L d w \<and> (\<exists>p. unwraps L p d)"

lemma vault_file_same:
  "vault_file L d w \<Longrightarrow> w_files w' (st_path d) = w_files w (st_path d) \<Longrightarrow> vault_file L d w'"
  unfolding vault_file_def using synced_files by blast

section \<open>A request and the operation it asks for\<close>

definition request_op :: "request \<Rightarrow> 64 word \<Rightarrow> store_op option" where
  "request_op req now =
     (if r_op req = ''set'' \<and> r_key req \<noteq> [] then Some (SetOp (r_key req) (r_value req))
      else if r_op req = ''delete'' \<and> r_key req \<noteq> [] then Some (RemoveOp (r_key req))
      else if r_op req = ''rotate'' \<and> r_old req \<noteq> [] then Some (RotateOp (r_old req) now)
      else if r_op req = ''passwd'' \<and> r_old req \<noteq> [] \<and> r_new req \<noteq> []
        then Some (PasswdOp (r_old req) (r_new req) now)
      else None)"

lemma liftM_keeps: "liftM r st w = (x, st', w') \<Longrightarrow> st' = st \<and> w' = w \<and> x \<noteq> Inl Killed"
  by (auto simp: liftM_def split: sum.splits)

lemma reads_keep:
  assumes "bindM (readM g) f st w = (r, st', w')" and "\<And>x r st1 w1. f x st w = (r, st1, w1) \<Longrightarrow> st1 = st \<and> w1 = w \<and> r \<noteq> Inl Killed"
  shows "st' = st \<and> w' = w \<and> r \<noteq> Inl Killed"
  using assms by (cases "g st") (auto simp: bindM_def readM_def liftM_def)

lemma writes_step:
  assumes "bindM m f st w = (r, st', w')" and "\<And>x st1 w1 r2 st2 w2. f x st1 w1 = (r2, st2, w2) \<Longrightarrow> st2 = st1 \<and> w2 = w1 \<and> r2 \<noteq> Inl Killed"
  shows "\<exists>r0. m st w = (r0, st', w') \<and> (r = Inl Killed \<longleftrightarrow> r0 = Inl Killed)"
proof -
  obtain r0 st1 w1 where m: "m st w = (r0, st1, w1)" by (cases "m st w")
  show ?thesis
  proof (cases r0)
    case (Inl e)
    then show ?thesis using assms(1) m by (auto simp: bindM_def)
  next
    case (Inr x)
    then have "f x st1 w1 = (r, st', w')" using assms(1) m by (simp add: bindM_def)
    from assms(2) [OF this] show ?thesis using m Inr by auto
  qed
qed

text \<open>Dispatch reads, or performs the one operation and answers.\<close>

lemma dispatch_step:
  assumes "dispatch L req now st w = (r, st', w')"
  shows "st' = st \<and> w' = w \<and> r \<noteq> Inl Killed \<or>
    (\<exists>op r0. request_op req now = Some op \<and> store_step L op st w = (r0, st', w') \<and> (r = Inl Killed \<longleftrightarrow> r0 = Inl Killed))"
proof -
  note run = assms [unfolded dispatch_def]
  note lift = liftM_keeps
  have "request_op req now = None \<or> r_op req = ''set'' \<and> r_key req \<noteq> [] \<or> r_op req = ''delete'' \<and> r_key req \<noteq> [] \<or>
      r_op req = ''rotate'' \<and> r_old req \<noteq> [] \<or> r_op req = ''passwd'' \<and> r_old req \<noteq> [] \<and> r_new req \<noteq> []"
    by (simp add: request_op_def)
  then consider (set) "r_op req = ''set''" "r_key req \<noteq> []" | (delete) "r_op req = ''delete''" "r_key req \<noteq> []"
    | (rotate) "r_op req = ''rotate''" "r_old req \<noteq> []" | (passwd) "r_op req = ''passwd''" "r_old req \<noteq> []" "r_new req \<noteq> []"
    | (other) "request_op req now = None"
    by metis
  then show ?thesis
  proof cases
    case set
    then have "bindM (store_set L (r_key req) (r_value req)) (\<lambda>_. liftM (ok_response L)) st w = (r, st', w')"
      using run by simp
    from writes_step [OF this lift] show ?thesis using set by (auto simp: request_op_def)
  next
    case delete
    then have "bindM (store_remove L (r_key req)) (\<lambda>removed.
        if \<not> removed then liftM (error_response L kErrNotFound) else liftM (ok_response L)) st w = (r, st', w')"
      using run by simp
    then have "\<exists>r0. store_remove L (r_key req) st w = (r0, st', w') \<and> (r = Inl Killed \<longleftrightarrow> r0 = Inl Killed)"
      by (rule writes_step) (auto dest!: lift split: if_splits)
    then obtain r0 where "store_remove L (r_key req) st w = (r0, st', w')" "r = Inl Killed \<longleftrightarrow> r0 = Inl Killed"
      by blast
    then have "\<exists>r1. store_step L (RemoveOp (r_key req)) st w = (r1, st', w') \<and> (r = Inl Killed \<longleftrightarrow> r1 = Inl Killed)"
      by (cases r0) auto
    then show ?thesis using delete by (auto simp: request_op_def)
  next
    case rotate
    then have "bindM (store_rotate L (r_old req) now) (\<lambda>_. liftM (ok_response L)) st w = (r, st', w')"
      using run by simp
    from writes_step [OF this lift] show ?thesis using rotate by (auto simp: request_op_def)
  next
    case passwd
    then have "bindM (change_passphrase L (r_old req) (r_new req) now) (\<lambda>_. liftM (ok_response L)) st w = (r, st', w')"
      using run by simp
    from writes_step [OF this lift] show ?thesis using passwd by (auto simp: request_op_def)
  next
    case other
    have reads: "st' = st \<and> w' = w \<and> r \<noteq> Inl Killed"
      if "bindM (readM g) f st w = (r, st', w')" "\<And>x. \<exists>t. f x = liftM t" for g and f :: "'a \<Rightarrow> string store_act"
      using that reads_keep lift by metis
    have get: "\<exists>t. (case v of None \<Rightarrow> liftM (error_response L kErrNotFound) | Some s \<Rightarrow> liftM (ok_value L s)) = liftM t"
      for v by (cases v) auto
    have "st' = st \<and> w' = w \<and> r \<noteq> Inl Killed"
      using run other by (auto simp: request_op_def split: if_splits dest!: lift reads [OF _ get] reads)
    then show ?thesis by blast
  qed
qed


text \<open>The store an operation persists is the vault after the request.\<close>

lemma candidate_carried_out:
  assumes "service_ok L st" and "request_op req now = Some op" and "candidate L op st next"
  shows "service_ok L next \<and> carried_out (vault_of L st) req (vault_of L next)"
proof -
  have wf: "wf_store L next" "smap_inv (st_data st)" "text_store st" and data: "st_data next = op_effect op (st_data st)"
    and auth: "authorised L op st next"
    using assms(1,3) by (auto simp: candidate_def service_ok_def wf_store_def)
  consider (set) "r_op req = ''set''" "r_key req \<noteq> []" "op = SetOp (r_key req) (r_value req)"
    | (delete) "r_op req = ''delete''" "r_key req \<noteq> []" "op = RemoveOp (r_key req)"
    | (rotate) "r_op req = ''rotate''" "op = RotateOp (r_old req) now"
    | (passwd) "r_op req = ''passwd''" "op = PasswdOp (r_old req) (r_new req) now"
    using assms(2) by (auto simp: request_op_def split: if_splits)
  then show ?thesis
  proof cases
    case set
    then have d: "st_data next = smap_put (r_key req) (JString (r_value req)) (st_data st)" using data by simp
    then have "text_store next" using text_store_put [OF wf(3)] text_store_data [of "next" "st\<lparr>st_data := smap_put (r_key req) (JString (r_value req)) (st_data st)\<rparr>"] by simp
    then show ?thesis
      using set wf auth store_view_put [OF d] by (simp add: service_ok_def carried_out_def fun_eq_iff kv_spec_def)
  next
    case delete
    then have d: "st_data next = smap_erase (r_key req) (st_data st)" using data by simp
    then have "text_store next" using text_store_erase [OF wf(3)] text_store_data [of "next" "st\<lparr>st_data := smap_erase (r_key req) (st_data st)\<rparr>"] by simp
    then show ?thesis
      using delete wf auth store_view_erase [OF wf(2) d]
      by (simp add: service_ok_def carried_out_def fun_eq_iff kv_spec_def Let_def)
  next
    case rotate
    then have d: "st_data next = st_data st" using data by simp
    then have "store_view next = store_view st" by (simp add: fun_eq_iff store_view_def)
    then show ?thesis
      using rotate wf auth text_store_data [OF d]
      by (simp add: service_ok_def carried_out_def fun_eq_iff kv_spec_def)
  next
    case passwd
    then have d: "st_data next = st_data st" using data by simp
    then have "store_view next = store_view st" by (simp add: fun_eq_iff store_view_def)
    then show ?thesis
      using passwd wf auth text_store_data [OF d]
      by (simp add: service_ok_def carried_out_def fun_eq_iff kv_spec_def)
  qed
qed

text \<open>After any operation, returned, failed or killed: the old vault, or the new one.\<close>

definition becomes :: "libs \<Rightarrow> store \<Rightarrow> request list \<Rightarrow> bool \<Rightarrow> store \<Rightarrow> world \<Rightarrow> bool" where
  "becomes L st reqs killed st' w' \<longleftrightarrow>
     (\<exists>d. st_path d = st_path st \<and> vault_file L d w' \<and> run carried_out (vault_of L st) reqs (vault_of L d) \<and>
        (\<not> killed \<longrightarrow> d = st'))"

lemma becomes_same:
  "vault_file L st w \<Longrightarrow> w_files w' (st_path st) = w_files w (st_path st) \<Longrightarrow> becomes L st [] killed st w'"
  unfolding becomes_def using vault_file_same by blast

lemma becomes_trans:
  assumes "becomes L st reqs False st1 w1" and "becomes L st1 reqs' killed st' w'"
  shows "becomes L st (reqs @ reqs') killed st' w'"
  using assms unfolding becomes_def by (metis run_append)

lemma store_step_becomes:
  assumes "libs_ok L" and v: "vault_file L st w" and op: "request_op req now = Some op"
    and step: "store_step L op st w = (r, st', w')"
  shows "becomes L st [] (r = Inl Killed) st' w' \<or> becomes L st [req] (r = Inl Killed) st' w'"
proof -
  have ok: "service_ok L st" "wf_store L st" using v by (simp_all add: vault_file_def service_ok_def)
  from assms(1) ok(2) step show ?thesis
  proof (cases rule: store_step_cases)
    case nothing
    then show ?thesis using becomes_same [OF v] by simp
  next
    case (written "next")
    note after = candidate_carried_out [OF ok(1) op written(1)]
    have opens: "\<exists>p. unwraps L p next" and path: "st_path next = st_path st"
      using v written(1) by (auto simp: vault_file_def candidate_def)
    have new: "becomes L st [req] (r = Inl Killed) st' w'" if "synced L next w'" "r = Inl Killed \<or> st' = next"
      unfolding becomes_def using that after opens path by (intro exI [of _ "next"]) (auto simp: vault_file_def run_single simp del: run_Cons_iff)
    from written(2) show ?thesis
      using becomes_same [OF v] new by (auto simp: committed_def split: sum.splits exn.splits)
  qed
qed

lemma respond_becomes:
  assumes "libs_ok L" and v: "vault_file L st w" and "r_token req = tok"
    and run: "respond L tok req st w = (r, st', w')"
  shows "becomes L st [] (r = Inl Killed) st' w' \<or> becomes L st [req] (r = Inl Killed) st' w'"
proof -
  let ?now = "clock L (w_tick w)" and ?w = "w\<lparr>w_tick := Suc (w_tick w)\<rparr>"
  obtain r1 st1 w1 where d: "dispatch L req ?now st ?w = (r1, st1, w1)" by (cases "dispatch L req ?now st ?w")
  have "token_matches L tok (r_token req)" using assms(1,3) by (simp add: token_matches_iff)
  then have same: "st' = st1 \<and> w' = w1 \<and> (r = Inl Killed \<longleftrightarrow> r1 = Inl Killed)"
    using run d by (auto simp: respond_def read_clock_run liftM_def split: sum.splits exn.splits)
  have v1: "vault_file L st ?w" using v by (rule vault_file_same) simp
  from dispatch_step [OF d] show ?thesis
  proof (elim disjE exE conjE)
    assume "st1 = st" "w1 = ?w"
    then show ?thesis using becomes_same [OF v1 refl, of "r = Inl Killed"] same by metis
  next
    fix op r0
    assume "request_op req ?now = Some op" "store_step L op st ?w = (r0, st1, w1)"
    note store_step_becomes [OF assms(1) v1 this]
    moreover assume "r1 = Inl Killed \<longleftrightarrow> r0 = Inl Killed"
    ultimately show ?thesis using same by simp
  qed
qed

end
