(* ===== verification/Life.thy ===== *)
theory Life
  imports Vault
begin

text \<open>
  The life of a store file and its daemon: made, started, serving connections, killed anywhere,
  started again, with other programs running beside it. The life is an inductive step relation
  over the daemon's definitions; the vault has one of its own, and the first refines the second.
\<close>

section \<open>The orders of a connection\<close>

text \<open>The requests in a stream of bytes that carry the token, in their order.\<close>

definition order_of :: "libs \<Rightarrow> string \<Rightarrow> string \<Rightarrow> request list" where
  "order_of L tok line =
     (case parse_request L line of
        Inr (Some req) \<Rightarrow> if r_token req = tok then [req] else []
      | _ \<Rightarrow> [])"

definition orders :: "libs \<Rightarrow> string \<Rightarrow> string \<Rightarrow> request list" where
  "orders L tok s = concat (map (order_of L tok) (stream_lines [] s))"

lemma orders_line: "LF \<notin> set line \<Longrightarrow> orders L tok (line @ LF # s) = order_of L tok line @ orders L tok s"
  by (simp add: orders_def stream_lines_step)

lemma respond_order:
  assumes "libs_ok L" and "vault_file L st w" and "parse_request L line = Inr (Some req)"
    and run: "respond L tok req st w = (r, st', w')"
  shows "\<exists>reqs. subseq reqs (order_of L tok line) \<and> becomes L st reqs (r = Inl Killed) st' w'"
proof (cases "r_token req = tok")
  case True
  then have "order_of L tok line = [req]" using assms(3) by (simp add: order_of_def)
  then have "subseq [] (order_of L tok line)" "subseq [req] (order_of L tok line)" by simp_all
  then show ?thesis using respond_becomes [OF assms(1,2) True run] by metis
next
  case False
  then obtain t where "respond L tok req st w = (Inr t, st, w)" using respond_bad_token [OF assms(1)] by blast
  then have "becomes L st [] (r = Inl Killed) st' w'" using run becomes_same [OF assms(2) refl] by simp
  then show ?thesis by blast
qed

lemma becomes_vault: "becomes L st reqs False st' w' \<Longrightarrow> vault_file L st' w' \<and> st_path st' = st_path st"
  by (auto simp: becomes_def)

lemma serve_lines_orders:
  assumes "libs_ok L"
  shows "conn_inv c \<Longrightarrow> length (c_buffer c) \<le> kMaxRequestBytes + chunk_size \<Longrightarrow> vault_file L st w \<Longrightarrow>
    serve_lines L tok c st w = (r, c', st', w') \<Longrightarrow>
    \<exists>reqs. subseq reqs (orders L tok (pending c)) \<and> becomes L st reqs (r = Inl Killed) st' w'"
proof (induction "conn_size c" arbitrary: c st w rule: less_induct)
  case less
  have later: "\<exists>reqs. subseq reqs (orders L tok (pending c1)) \<and> becomes L st1 reqs (r = Inl Killed) st' w'"
    if "read_line kMaxRequestBytes c = (Some line, c1)" "write_line t c1 = (ok, c2)" "vault_file L st1 w1"
      "serve_lines L tok c2 st1 w1 = (r, c', st', w')" for line t ok c1 c2 st1 w1
    using less.hyps [OF _ _ _ that(3,4)] conn_size_line [OF that(1)] conn_size_written [OF that(2)]
      write_line_pending [OF that(2)] write_line_out(2) [OF that(2)] read_line_Some [OF less.prems(1,2) that(1)]
    by simp
  have line: "orders L tok (pending c) = order_of L tok line @ orders L tok (pending c1)"
    if "read_line kMaxRequestBytes c = (Some line, c1)" for line c1
    using read_line_Some [OF less.prems(1,2) that] orders_line by simp
  from less.prems(4) show ?case
  proof (cases rule: serve_lines_cases)
    case stop
    then show ?thesis using becomes_same [OF less.prems(3) refl] by auto
  next
    case (malformed line c1 response)
    obtain ok c2 where "write_line response c1 = (ok, c2)" by (cases "write_line response c1")
    then show ?thesis
      using later [OF malformed(1) _ less.prems(3), of response ok c2] malformed(3) line [OF malformed(1)]
      by (auto intro: list_emb_append2)
  next
    case (failed line c1 req e)
    then show ?thesis
      using respond_order [OF assms less.prems(3) failed(2,3)] line [OF failed(1)] by (auto intro: list_emb_append2 subseq_rev_drop_many)
  next
    case (gone line c1 req response)
    then show ?thesis
      using respond_order [OF assms less.prems(3) gone(2,3)] line [OF gone(1)] by (auto intro: list_emb_append2 subseq_rev_drop_many)
  next
    case (served line c1 req response st1 w1 c2)
    obtain reqs where here: "subseq reqs (order_of L tok line)" "becomes L st reqs False st1 w1"
      using respond_order [OF assms less.prems(3) served(2,3)] by auto
    obtain reqs' where "subseq reqs' (orders L tok (pending c1))" "becomes L st1 reqs' (r = Inl Killed) st' w'"
      using later [OF served(1,4) _ served(5)] becomes_vault [OF here(2)] by blast
    then show ?thesis
      using here becomes_trans line [OF served(1)] list_emb_append_mono by metis
  qed
qed

text \<open>The orders of a connection that was just accepted; another user has none.\<close>

definition conn_orders :: "libs \<Rightarrow> nat \<Rightarrow> string \<Rightarrow> connection \<Rightarrow> request list" where
  "conn_orders L uid tok c = (if c_peer c = Inr uid then orders L tok (received (c_in c)) else [])"

definition fresh :: "connection \<Rightarrow> bool" where
  "fresh c \<longleftrightarrow> (\<exists>ins sends peer. c = connection_of ins sends peer)"

lemma serve_connection_orders:
  assumes "libs_ok L" and "fresh c" and "vault_file L st w"
    and run: "serve_connection L uid tok c st w = (r, c', st', w')"
  shows "\<exists>reqs. subseq reqs (conn_orders L uid tok c) \<and> becomes L st reqs (r = Inl Killed) st' w'"
proof (cases "c_peer c = Inr uid")
  case True
  have c: "conn_inv c" "c_buffer c = []" "pending c = received (c_in c)"
    using assms(2) by (auto simp: fresh_def connection_of_def conn_inv_def pending_def)
  have "serve_lines L tok c st w = (r, c', st', w')" using run True by (simp add: serve_connection_def)
  from serve_lines_orders [OF assms(1) c(1) _ assms(3) this] show ?thesis using c True by (simp add: conn_orders_def)
next
  case False
  then have "st' = st \<and> w' = w \<and> r \<noteq> Inl Killed"
    using run by (auto simp: serve_connection_def split: sum.splits if_splits)
  then show ?thesis using becomes_same [OF assms(3) refl] False by (auto simp: conn_orders_def)
qed


section \<open>Making and opening the file\<close>

lemma create_effect:
  assumes "libs_ok L" and "store_create L path p now w = (r, w')"
  shows "w_files w' path = w_files w path \<or>
    w_files w path = None \<and> (\<exists>d. st_path d = path \<and> vault_file L d w' \<and> store_view d = Map.empty \<and> unwraps L p d)"
proof (cases "w_files w path = None \<and> sodium_init_ok L")
  case False
  then show ?thesis
    using assms(2) by (auto simp: store_create_def bindA_def ensure_sodium_def refuse_if_def split: if_splits)
next
  case True
  let ?mint = "mint_fresh_envelope L p (opslimit_moderate L) (memlimit_moderate L) now (zero_envelope L)"
  obtain m w1 where m: "?mint w = (m, w1)" by (cases "?mint w")
  have files: "w_files w1 = w_files w" using quietD [OF quiet_mint_fresh m] .
  show ?thesis
  proof (cases m)
    case (Inl e)
    then show ?thesis
      using assms(2) True m files by (simp add: store_create_def bindA_def ensure_sodium_def refuse_if_def)
  next
    case (Inr ke)
    obtain k env where ke: "ke = (k, env)" by (cases ke)
    note minted = mint_fresh_envelope_Inr [OF assms(1) m [unfolded Inr ke]]
    obtain r0 where per: "persist L path [] k env w1 = (r0, w')"
      using assms(2) True m Inr ke
      by (auto simp: store_create_def bindA_def ensure_sodium_def refuse_if_def split: prod.splits sum.splits)
    define d where "d = \<lparr>st_path = path, st_data = [], st_key = k, st_env = env\<rparr>"
    have "check_kdf_params L (opslimit_moderate L) (memlimit_moderate L) = Inr ()"
      using libs_limits [OF assms(1)] by (simp add: check_kdf_params_def not_less)
    then have "wf_store L d" "unwraps L p d" "text_store d" "store_view d = Map.empty"
      using minted by (auto simp: wf_store_def wf_envelope_def unwraps_def text_store_def store_view_def d_def)
    moreover have "w_files w' path = w_files w1 path \<or> synced L d w'"
      using persist_cases [OF assms(1) smap_inv_Nil minted(1) per] by (simp add: synced_def d_def)
    moreover have "st_path d = path" by (simp add: d_def)
    ultimately show ?thesis
      using files True unfolding vault_file_def service_ok_def by metis
  qed
qed

text \<open>
  Two stores in one file: two data keys that the envelope yields under two passphrases and that
  both open the payload. An authenticated cipher makes this infeasible, not impossible.
\<close>

definition twofold :: "libs \<Rightarrow> string \<Rightarrow> world \<Rightarrow> bool" where
  "twofold L path w \<longleftrightarrow>
     (\<exists>d d'. d \<noteq> d' \<and> st_path d = path \<and> st_path d' = path \<and> wf_store L d \<and> wf_store L d' \<and>
        synced L d w \<and> synced L d' w \<and> (\<exists>p. unwraps L p d) \<and> (\<exists>p. unwraps L p d'))"

text \<open>The bytes of a file determine its envelope, its nonce and its ciphertext.\<close>

lemma put_u64_le_inj: "put_u64_le a = put_u64_le b \<longleftrightarrow> a = b"
  by (metis get_put_u64_le)

lemma store_bytes_inj:
  assumes "wf_envelope L e" and "wf_envelope L e'" and "length n = noncebytes L" and "length n' = noncebytes L"
    and "store_bytes e n c = store_bytes e' n' c'"
  shows "e = e' \<and> n = n' \<and> c = c'"
  using assms by (simp add: store_bytes_def common_header_def wf_envelope_def append_eq_append_conv put_u64_le_inj)

lemma twofold_keys:
  assumes "twofold L path w"
  shows "\<exists>c n k k' t t'. secretbox_open L c n k = Some t \<and> secretbox_open L c n k' = Some t' \<and> k \<noteq> k'"
proof -
  obtain d d' where d: "d \<noteq> d'" "st_path d = path" "st_path d' = path" "wf_store L d" "wf_store L d'"
    "synced L d w" "synced L d' w"
    using assms by (auto simp: twofold_def)
  obtain n c t where s: "length n = noncebytes L" "secretbox_open L c n (st_key d) = Some t"
      "json_parse L t = Some (JObject (st_data d))"
    and f: "\<exists>f. w_files w path = Some f \<and> f_data f = store_bytes (st_env d) n c"
    using d(2,6) by (auto simp: synced_def on_disk_def stored_as_def)
  obtain n' c' t' where s': "length n' = noncebytes L" "secretbox_open L c' n' (st_key d') = Some t'"
      "json_parse L t' = Some (JObject (st_data d'))"
    and f': "\<exists>f. w_files w path = Some f \<and> f_data f = store_bytes (st_env d') n' c'"
    using d(3,7) by (auto simp: synced_def on_disk_def stored_as_def)
  have "st_env d = st_env d' \<and> n = n' \<and> c = c'"
    using store_bytes_inj [of L "st_env d" "st_env d'" n n' c c'] d(4,5) f f' s(1) s'(1) by (auto simp: wf_store_def)
  moreover have "st_key d \<noteq> st_key d'"
  proof
    assume "st_key d = st_key d'"
    then have "d = d'" using calculation d(2,3) s s' by simp
    with d(1) show False by simp
  qed
  ultimately show ?thesis using s(2) s'(2) by blast
qed

lemma quiet_open_v2: "quiet (open_v2 L path p buf)"
  by (auto simp: open_v2_def Let_def intro!: quiet_intros split: prod.split)

lemma open_quiet:
  assumes "synced L d w" and "store_open L (st_path d) p w = (r, w')"
  shows "w_files w' = w_files w"
proof -
  obtain f nonce c where "w_files w (st_path d) = Some f" "f_data f = store_bytes (st_env d) nonce c"
    using assms(1) by (auto simp: synced_def on_disk_def stored_as_def)
  then have "r = Inl (Throw ''libsodium initialization failed'') \<and> w' = w \<or> open_v2 L (st_path d) p (f_data f) w = (r, w')"
    using assms(2)
    by (auto simp: store_open_def bindA_def ensure_sodium_def refuse_if_def read_file_string_def
        store_bytes_start kVersion1_def kVersion2_def split: if_splits)
  then show ?thesis using quietD [OF quiet_open_v2] by auto
qed

lemma open_vault:
  assumes "libs_ok L" and "vault_file L d w" and "\<not> twofold L (st_path d) w"
    and "store_open L (st_path d) p w = (Inr st, w')"
  shows "st = d \<and> unwraps L p d \<and> vault_file L d w'"
proof -
  have d: "wf_store L d" "synced L d w" "\<exists>q. unwraps L q d"
    using assms(2) by (simp_all add: vault_file_def service_ok_def)
  note files = open_quiet [OF d(2) assms(4)]
  have st: "wf_store L st" "st_path st = st_path d" "unwraps L p st" "synced L st w'"
    using store_open_Inr [OF assms(1,4)] by simp_all
  have "synced L st w" using st(4) synced_files [of w st w'] files by simp
  then have "st = d" using assms(3) st(1-3) d unfolding twofold_def by blast
  then show ?thesis using st(3) vault_file_same [OF assms(2)] files by simp
qed

lemma open_absent: "w_files w path = None \<Longrightarrow> store_open L path p w = (r, w') \<Longrightarrow> w' = w \<and> (\<exists>e. r = Inl e)"
  by (auto simp: store_open_def bindA_def ensure_sodium_def refuse_if_def read_file_string_def split: if_splits)

section \<open>Starting\<close>

text \<open>A rotation under a passphrase that unlocks the store, whatever becomes of it.\<close>

definition rekeyed :: "libs \<Rightarrow> string \<Rightarrow> store \<Rightarrow> store \<Rightarrow> bool" where
  "rekeyed L p d d' \<longleftrightarrow> st_path d' = st_path d \<and> store_view d' = store_view d \<and> unwraps L p d \<and> unwraps L p d'"

lemma rotation_vault:
  assumes "libs_ok L" and v: "vault_file L st w" and "unwraps L p st"
    and step: "store_step L (RotateOp p now) st w = (r, st', w')"
  shows "\<exists>d. vault_file L d w' \<and> rekeyed L p st d \<and> (r \<noteq> Inl Killed \<longrightarrow> d = st')"
proof -
  have ok: "service_ok L st" "wf_store L st" using v by (simp_all add: vault_file_def service_ok_def)
  have same: ?thesis if "w_files w' (st_path st) = w_files w (st_path st)" "st' = st"
    using vault_file_same [OF v that(1)] that(2) assms(3) by (auto simp: rekeyed_def)
  from assms(1) ok(2) step show ?thesis
  proof (cases rule: store_step_cases)
    case nothing
    then show ?thesis using same by simp
  next
    case (written "next")
    then have data: "st_data next = st_data st" by (simp add: candidate_def)
    then have "store_view next = store_view st" by (simp add: fun_eq_iff store_view_def)
    moreover have "text_store next" using ok(1) text_store_data [OF data] by (simp add: service_ok_def)
    ultimately have "rekeyed L p st next" "service_ok L next" "\<exists>q. unwraps L q next"
      using written(1) v assms(3) by (auto simp: rekeyed_def candidate_def service_ok_def vault_file_def)
    then have "?thesis" if "synced L next w'" "r = Inl Killed \<or> st' = next"
      using that by (intro exI [of _ "next"]) (auto simp: vault_file_def)
    with same written(2) show ?thesis by (auto simp: committed_def split: sum.splits exn.splits)
  qed
qed

lemma auto_rotate_vault:
  assumes "libs_ok L" and v: "vault_file L st w" and "unwraps L p st"
    and run: "auto_rotate L p now st w = (r, w')"
  shows "\<exists>d. vault_file L d w' \<and> rekeyed L p st d \<and> (\<forall>st'. r = Inr st' \<longrightarrow> st' = d)"
proof (cases "rotation_due now st")
  case False
  then show ?thesis using assms by (auto simp: auto_rotate_def rekeyed_def)
next
  case True
  obtain r0 st' w1 where s: "store_step L (RotateOp p now) st w = (r0, st', w1)"
    by (cases "store_step L (RotateOp p now) st w")
  then have "w' = w1" "\<And>st1. r = Inr st1 \<Longrightarrow> st1 = st' \<and> r0 \<noteq> Inl Killed"
    using run True by (auto simp: auto_rotate_def split: sum.splits exn.splits)
  then show ?thesis using rotation_vault [OF assms(1-3) s] by metis
qed

text \<open>A start that does not get as far as the store leaves the files alone.\<close>

lemma start_early:
  assumes "daemon_start L rl resolved answered pass w = (r, w')"
    and "rl \<noteq> None \<or> isl resolved \<or> answered \<or> isl pass"
  shows "w_files w' = w_files w \<and> (\<exists>e. r = Inl e)"
proof (cases "rl = None \<and> \<not> isl resolved \<and> \<not> answered")
  case True
  then obtain paths e where "resolved = Inr paths" "pass = Inl e" "rl = None" "\<not> answered"
    using assms(2) by (cases resolved; cases pass) auto
  then show ?thesis using assms(1) by (auto simp: daemon_start_def bindA_def refuse_if_def)
next
  case False
  then show ?thesis
    using assms(1) by (cases rl; cases resolved) (auto simp: daemon_start_def bindA_def refuse_if_def split: if_splits)
qed

text \<open>A start, successful or not, on an existing vault.\<close>

lemma start_vault:
  assumes "libs_ok L" and v: "vault_file L d w" and "\<not> twofold L (st_path d) w"
    and "\<And>paths. resolved = Inr paths \<Longrightarrow> p_store paths = st_path d"
    and run: "daemon_start L rl resolved answered pass w = (r, w')"
  shows "w_files w' = w_files w \<and> (\<exists>e. r = Inl e) \<or>
    (\<exists>d' p. pass = Inr p \<and> vault_file L d' w' \<and> rekeyed L p d d' \<and>
      (\<forall>st tok. r = Inr (st, tok) \<longrightarrow> st = d' \<and> tok \<noteq> []))"
proof -
  show ?thesis
  proof (cases "rl \<noteq> None \<or> isl resolved \<or> answered \<or> isl pass")
    case True
    then show ?thesis using start_early [OF run] by blast
  next
    case False
    then obtain paths p where a: "rl = None" "resolved = Inr paths" "\<not> answered" "pass = Inr p"
      by (cases resolved; cases pass) auto
    let ?now = "clock L (w_tick w)" and ?w = "w\<lparr>w_tick := Suc (w_tick w)\<rparr>"
    have v1: "vault_file L d ?w" using v by (rule vault_file_same) simp
    have t1: "\<not> twofold L (st_path d) ?w" using assms(3) by (simp add: twofold_def)
    have path: "p_store paths = st_path d" using assms(4) a(2) .
    have chain: "bindA (unlock L paths p) (\<lambda>st. bindA (auto_rotate L p ?now st) (\<lambda>st.
        bindA (read_token paths) (\<lambda>tok. returnA (st, tok)))) ?w = (r, w')"
      using run a by (simp add: daemon_start_def bindA_step [OF read_clock_run] refuse_if_def bindA_def)
    show ?thesis
    proof (cases "unlock L paths p ?w")
      case (Pair o1 w1)
      then obtain o2 where open1: "store_open L (st_path d) p ?w = (o2, w1)"
        by (auto simp: unlock_def path split: prod.splits sum.splits exn.splits)
      note files = open_quiet [OF _ open1]
      show ?thesis
      proof (cases o1)
        case (Inl e)
        then have "r = Inl e" "w_files w' = w_files w"
          using chain Pair files v1 by (auto simp: bindA_def vault_file_def)
        then show ?thesis by blast
      next
        case (Inr st)
        then have "store_open L (st_path d) p ?w = (Inr st, w1)" using Pair path by (simp add: unlock_Inr)
        then have st: "st = d" "unwraps L p d" "vault_file L d w1" using open_vault [OF assms(1) v1 t1] by blast+
        obtain o3 w2 where rot: "auto_rotate L p ?now d w1 = (o3, w2)" by (cases "auto_rotate L p ?now d w1")
        obtain d' where d': "vault_file L d' w2" "rekeyed L p d d'" "\<forall>st'. o3 = Inr st' \<longrightarrow> st' = d'"
          using auto_rotate_vault [OF assms(1) st(3,2) rot] by blast
        have rest: "(case o3 of Inl e \<Rightarrow> (Inl e, w2)
            | Inr st \<Rightarrow> bindA (read_token paths) (\<lambda>tok. returnA (st, tok)) w2) = (r, w')"
          using chain Pair Inr st(1) rot by (auto simp: bindA_def split: sum.splits)
        show ?thesis
        proof (cases o3)
          case (Inl e)
          then show ?thesis using rest d'(1,2) a(4) by auto
        next
          case (Inr st')
          obtain o4 w3 where t: "read_token paths w2 = (o4, w3)" by (cases "read_token paths w2")
          have "w3 = w2"
            using t by (auto simp: read_token_def read_file_string_def Let_def split: prod.splits sum.splits
                exn.splits option.splits if_splits)
          then show ?thesis
            using rest Inr t d' a(4) read_token_Inr [of paths w2] by (cases o4) (auto simp: bindA_def)
        qed
      qed
    qed
  qed
qed

lemma start_absent:
  assumes "w_files w path = None" and "\<And>paths. resolved = Inr paths \<Longrightarrow> p_store paths = path"
    and run: "daemon_start L rl resolved answered pass w = (r, w')"
  shows "w_files w' = w_files w \<and> (\<exists>e. r = Inl e)"
proof -
  have "\<exists>e. unlock L paths p w1 = (Inl e, w1)" if "resolved = Inr paths" "w_files w1 = w_files w" for paths p w1
  proof -
    obtain o1 w2 where o: "store_open L (p_store paths) p w1 = (o1, w2)" by (cases "store_open L (p_store paths) p w1")
    then show ?thesis
      using open_absent [OF _ o] that assms(1,2) by (auto simp: unlock_def split: exn.splits)
  qed
  note stops = this
  show ?thesis
  proof (cases "rl \<noteq> None \<or> isl resolved \<or> answered \<or> isl pass")
    case True
    then show ?thesis using start_early [OF run] by blast
  next
    case False
    then obtain paths p where a: "rl = None" "resolved = Inr paths" "\<not> answered" "pass = Inr p"
      by (cases resolved; cases pass) auto
    obtain e where "unlock L paths p (w\<lparr>w_tick := Suc (w_tick w)\<rparr>) = (Inl e, w\<lparr>w_tick := Suc (w_tick w)\<rparr>)"
      using stops [OF a(2)] by force
    then show ?thesis
      using run a by (auto simp: daemon_start_def read_clock_run refuse_if_def bindA_def)
  qed
qed


section \<open>The life of a store file\<close>

text \<open>
  Either no daemon runs, or one runs with its token and the store it holds. \<open>Outside\<close> is
  whatever other programs and the kernel do short of writing the store file: other files change,
  time passes, the coming system calls will fail differently.
\<close>

datatype sys = Down world | Up string store world

datatype event =
    Create string          \<comment> \<open>\<open>init\<close> makes the store under this passphrase, or fails to\<close>
  | Start string string    \<comment> \<open>a daemon unlocked with this passphrase, serving under this token\<close>
  | StartFails           \<comment> \<open>and the store file is as before\<close>
  | StartDies string     \<comment> \<open>after its rotation under this passphrase was written\<close>
  | Serve connection
  | Die connection         \<comment> \<open>killed while serving it\<close>
  | Stop
  | Outside

inductive sys_step :: "libs \<Rightarrow> nat \<Rightarrow> string \<Rightarrow> sys \<Rightarrow> event \<Rightarrow> sys \<Rightarrow> bool" for L uid path where
  created: "store_create L path p now w = (r, w') \<Longrightarrow> sys_step L uid path (Down w) (Create p) (Down w')"
| started: "daemon_start L rl (Inr paths) answered (Inr p) w = (Inr (st, tok), w') \<Longrightarrow> p_store paths = path \<Longrightarrow>
    sys_step L uid path (Down w) (Start p tok) (Up tok st w')"
| start_failed: "daemon_start L rl resolved answered pass w = (Inl e, w') \<Longrightarrow>
    (\<And>paths. resolved = Inr paths \<Longrightarrow> p_store paths = path) \<Longrightarrow> w_files w' path = w_files w path \<Longrightarrow>
    sys_step L uid path (Down w) StartFails (Down w')"
| start_died: "daemon_start L rl (Inr paths) answered (Inr p) w = (Inl e, w') \<Longrightarrow> p_store paths = path \<Longrightarrow>
    w_files w' path \<noteq> w_files w path \<Longrightarrow> sys_step L uid path (Down w) (StartDies p) (Down w')"
| served: "serve_connection L uid tok c st w = (r, c', st', w') \<Longrightarrow> fresh c \<Longrightarrow> r \<noteq> Inl Killed \<Longrightarrow>
    sys_step L uid path (Up tok st w) (Serve c) (Up tok st' w')"
| died: "serve_connection L uid tok c st w = (Inl Killed, c', st', w') \<Longrightarrow> fresh c \<Longrightarrow>
    sys_step L uid path (Up tok st w) (Die c) (Down w')"
| stopped: "sys_step L uid path (Up tok st w) Stop (Down w)"
| outside_down: "w_files w' path = w_files w path \<Longrightarrow> sys_step L uid path (Down w) Outside (Down w')"
| outside_up: "w_files w' path = w_files w path \<Longrightarrow> sys_step L uid path (Up tok st w) Outside (Up tok st w')"

text \<open>The life of the vault, without files, bytes or system calls.\<close>

datatype vault = Absent | Asleep contents | Awake string contents

definition same_secrets :: "string \<Rightarrow> contents \<Rightarrow> contents \<Rightarrow> bool" where
  "same_secrets p v v' \<longleftrightarrow> secrets v' = secrets v \<and> unlocking v p \<and> unlocking v' p"

inductive vault_step :: "libs \<Rightarrow> nat \<Rightarrow> vault \<Rightarrow> event \<Rightarrow> vault \<Rightarrow> bool" for L uid where
  make: "unlocking v p \<Longrightarrow> secrets v = Map.empty \<Longrightarrow> vault_step L uid Absent (Create p) (Asleep v)"
| not_made: "vault_step L uid a (Create p) a"
| wake: "same_secrets p v v' \<Longrightarrow> tok \<noteq> [] \<Longrightarrow> vault_step L uid (Asleep v) (Start p tok) (Awake tok v')"
| sleep_on: "vault_step L uid a StartFails a"
| rekey: "same_secrets p v v' \<Longrightarrow> vault_step L uid (Asleep v) (StartDies p) (Asleep v')"
| obey: "subseq reqs (conn_orders L uid tok c) \<Longrightarrow> run carried_out v reqs v' \<Longrightarrow>
    vault_step L uid (Awake tok v) (Serve c) (Awake tok v')"
| obey_and_die: "subseq reqs (conn_orders L uid tok c) \<Longrightarrow> run carried_out v reqs v' \<Longrightarrow>
    vault_step L uid (Awake tok v) (Die c) (Asleep v')"
| rest: "vault_step L uid (Awake tok v) Stop (Asleep v)"
| unmoved: "vault_step L uid a Outside a"

section \<open>The refinement\<close>

fun abstracts :: "libs \<Rightarrow> string \<Rightarrow> sys \<Rightarrow> vault \<Rightarrow> bool" where
  "abstracts L path (Down w) Absent \<longleftrightarrow> w_files w path = None"
| "abstracts L path (Down w) (Asleep v) \<longleftrightarrow> (\<exists>d. st_path d = path \<and> vault_file L d w \<and> vault_of L d = v)"
| "abstracts L path (Up tok st w) (Awake tok' v) \<longleftrightarrow>
     tok' = tok \<and> st_path st = path \<and> vault_file L st w \<and> vault_of L st = v"
| "abstracts L path s a \<longleftrightarrow> False"

fun doubtful :: "libs \<Rightarrow> string \<Rightarrow> sys \<Rightarrow> bool" where
  "doubtful L path (Down w) \<longleftrightarrow> twofold L path w"
| "doubtful L path (Up tok st w) \<longleftrightarrow> False"

lemma abstracts_Down:
  assumes "abstracts L path (Down w) a"
  obtains "a = Absent" "w_files w path = None"
    | d where "a = Asleep (vault_of L d)" "st_path d = path" "vault_file L d w"
proof (cases a)
  case (Asleep v)
  then obtain d where "vault_of L d = v" "st_path d = path" "vault_file L d w" using assms by fastforce
  then show ?thesis using that(2) Asleep by blast
qed (use assms that in auto)

lemma abstracts_Up:
  assumes "abstracts L path (Up tok st w) a"
  obtains "a = Awake tok (vault_of L st)" "st_path st = path" "vault_file L st w"
  using assms by (cases a) auto

lemma abstracts_files:
  assumes "abstracts L path (Down w) a" and "w_files w' path = w_files w path"
  shows "abstracts L path (Down w') a"
  using assms(1)
proof (cases rule: abstracts_Down)
  case 1
  then show ?thesis using assms(2) by simp
next
  case (2 d)
  then show ?thesis using vault_file_same [of L d w w'] assms(2) by auto
qed

lemma rekeyed_secrets: "rekeyed L p d d' \<Longrightarrow> same_secrets p (vault_of L d) (vault_of L d')"
  by (simp add: rekeyed_def same_secrets_def)

lemma step_matched:
  assumes L: "libs_ok L" and rel: "abstracts L path s a" and step: "sys_step L uid path s e s'"
    and sure: "\<not> doubtful L path s"
  shows "\<exists>a'. vault_step L uid a e a' \<and> abstracts L path s' a'"
  using step
proof (cases rule: sys_step.cases)
  case (created p now w r w')
  note w = rel [unfolded created(1)]
  from create_effect [OF L created(4)] show ?thesis
  proof (elim disjE conjE exE)
    assume "w_files w' path = w_files w path"
    then have "abstracts L path (Down w') a" by (rule abstracts_files [OF w])
    then show ?thesis using created(2,3) not_made by blast
  next
    fix d
    assume none: "w_files w path = None" and d: "st_path d = path" "vault_file L d w'" "store_view d = Map.empty" "unwraps L p d"
    from w have "a = Absent"
      by (cases rule: abstracts_Down) (use none in \<open>auto simp: vault_file_def synced_def on_disk_def\<close>)
    moreover have "vault_step L uid Absent (Create p) (Asleep (vault_of L d))"
      by (rule make) (use d in simp_all)
    moreover have "abstracts L path (Down w') (Asleep (vault_of L d))" using d(1,2) by auto
    ultimately show ?thesis using created(2,3) by blast
  qed
next
  case (started rl paths answered p w st tok w')
  from rel [unfolded started(1)] show ?thesis
  proof (cases rule: abstracts_Down)
    case 1
    then show ?thesis using start_absent [OF 1(2) _ started(4)] started(5) by auto
  next
    case (2 d)
    then obtain d' where "vault_file L d' w'" "rekeyed L p d d'" "st = d'" "tok \<noteq> []"
      using start_vault [OF L 2(3) _ _ started(4)] sure started(1,5) by auto
    then have "vault_step L uid a (Start p tok) (Awake tok (vault_of L st))"
        "abstracts L path (Up tok st w') (Awake tok (vault_of L st))"
      using 2 rekeyed_secrets by (auto intro: wake simp: rekeyed_def)
    then show ?thesis using started(2,3) by blast
  qed
next
  case (start_failed rl resolved answered pass w e' w')
  have "abstracts L path (Down w') a"
    by (rule abstracts_files [OF rel [unfolded start_failed(1)] start_failed(6)])
  then show ?thesis using start_failed(2,3) sleep_on by blast
next
  case (start_died rl paths answered p w e' w')
  from rel [unfolded start_died(1)] show ?thesis
  proof (cases rule: abstracts_Down)
    case 1
    then show ?thesis using start_absent [OF 1(2) _ start_died(4)] start_died(5,6) by simp
  next
    case (2 d)
    then obtain d' where d': "vault_file L d' w'" "rekeyed L p d d'"
      using start_vault [OF L 2(3) _ _ start_died(4)] sure start_died(1,5,6) by auto
    then have "vault_step L uid a (StartDies p) (Asleep (vault_of L d'))" "abstracts L path (Down w') (Asleep (vault_of L d'))"
      using 2 d' rekey [OF rekeyed_secrets [OF d'(2)]] by (auto simp: rekeyed_def)
    then show ?thesis using start_died(2,3) by blast
  qed
next
  case (served tok c st w r c' st' w')
  from rel [unfolded served(1)] show ?thesis
  proof (cases rule: abstracts_Up)
    case 1
    obtain reqs where r: "subseq reqs (conn_orders L uid tok c)" "becomes L st reqs False st' w'"
      using serve_connection_orders [OF L served(5) 1(3) served(4)] served(6) by auto
    then have "vault_step L uid a (Serve c) (Awake tok (vault_of L st'))"
        "abstracts L path (Up tok st' w') (Awake tok (vault_of L st'))"
      using 1 by (auto simp: becomes_def intro: obey)
    then show ?thesis using served(2,3) by blast
  qed
next
  case (died tok c st w c' st' w')
  from rel [unfolded died(1)] show ?thesis
  proof (cases rule: abstracts_Up)
    case 1
    obtain reqs d where r: "subseq reqs (conn_orders L uid tok c)" "st_path d = st_path st" "vault_file L d w'"
        "run carried_out (vault_of L st) reqs (vault_of L d)"
      using serve_connection_orders [OF L died(5) 1(3) died(4)] by (auto simp: becomes_def)
    then have "vault_step L uid a (Die c) (Asleep (vault_of L d))" "abstracts L path (Down w') (Asleep (vault_of L d))"
      using 1 by (auto intro: obey_and_die)
    then show ?thesis using died(2,3) by blast
  qed
next
  case (stopped tok st w)
  from rel [unfolded stopped(1)] show ?thesis
  proof (cases rule: abstracts_Up)
    case 1
    have "vault_step L uid a Stop (Asleep (vault_of L st))" unfolding 1(1) by (rule rest)
    moreover have "abstracts L path (Down w) (Asleep (vault_of L st))" using 1 by auto
    ultimately show ?thesis using stopped(2,3) by blast
  qed
next
  case (outside_down w' w)
  then show ?thesis using abstracts_files rel unmoved by blast
next
  case (outside_up w' w tok st)
  from rel [unfolded outside_up(1)] show ?thesis
  proof (cases rule: abstracts_Up)
    case 1
    then have "abstracts L path (Up tok st w') a" using vault_file_same outside_up(4) by simp
    then show ?thesis using outside_up(2,3) unmoved by blast
  qed
qed

interpretation life: forward_simulation "sys_step L uid path" "vault_step L uid"
  "\<lambda>s a. libs_ok L \<and> abstracts L path s a" "doubtful L path" for L uid path
  by unfold_locales (use step_matched in blast)

end
