(* ===== verification/DaemonProps.thy ===== *)
theory DaemonProps
  imports Examples
begin

text \<open>
  The properties of the daemon and of the client that talks to it: what a request does, who may
  make one, and that memory and disk stay together, with runs of the toy daemon.
\<close>

section \<open>The contract of a request\<close>

text \<open>
  C1. Refinement: the daemon's \<open>dispatch\<close> on an encrypted store is the key-value map
  \<open>kv_spec\<close>: when it answers, the reply is the one of the map, and the secrets of the store
  changed as the map did, for every operation, the unknown and the malformed ones included.
\<close>

theorem dispatch_refines:
  assumes "libs_ok L" and "service_ok L st" and "dispatch L req now st w = (Inr t, st', w')"
  shows "service_ok L st' \<and> json_dump L (fst (kv_spec req (store_view st))) = Inr t \<and>
    store_view st' = snd (kv_spec req (store_view st))"
  using dispatch_spec [OF assms] .

definition toy_delete :: request where
  "toy_delete = wire_request toy_client ''delete'' ''a'' None"

theorem dispatch_refines_witness:
  "\<exists>t. dispatch toy toy_delete 9 toy_store toy_world = (Inr t, toy_store, toy_world) \<and>
     json_dump toy (failure ''not found'') = Inr t"
proof -
  have "\<not> isl (error_response toy kErrNotFound)" by code_simp
  then obtain t where t: "error_response toy kErrNotFound = Inr t" by (cases "error_response toy kErrNotFound") simp_all
  then have d: "dispatch toy toy_delete 9 toy_store toy_world = (Inr t, toy_store, toy_world)"
    by (simp add: dispatch_def toy_delete_def wire_request_def bindM_def store_remove_def toy_store_data liftM_def)
  have "fst (kv_spec toy_delete (store_view toy_store)) = failure ''not found''"
    by (simp add: kv_spec_def toy_delete_def wire_request_def toy_view)
  then show ?thesis using dispatch_refines [OF toy_ok toy_service d] d by simp
qed

text \<open>
  C2. End to end: what a client gets back from \<open>request\<close>, over the socket, the framing, the
  token check and the JSON of both sides, is the reply of the map to the request it made, never
  a failure, and the store behind the daemon changed accordingly.
\<close>

theorem request_end_to_end:
  assumes "libs_ok L" and "service_ok L st"
    and "request L uid (daemon_peer L uid (dc_token cl)) cl op key v (st, w) = (Inr resp, (st', w'))"
  shows "service_ok L st' \<and> resp = fst (kv_spec (wire_request cl op key v) (store_view st)) \<and>
    store_view st' = snd (kv_spec (wire_request cl op key v) (store_view st)) \<and> (\<forall>what. resp \<noteq> failure what)"
  using request_returns [OF assms] .

theorem request_end_to_end_witness:
  "\<exists>st' w'. request toy 7 (daemon_peer toy 7 (dc_token toy_client)) toy_client ''set'' ''a/b/c'' (Some ''v'')
     (toy_store, toy_world) = (Inr (success []), (st', w')) \<and> store_view st' = [''a/b/c'' \<mapsto> ''v'']"
proof -
  obtain st' w' where r: "request toy 7 (daemon_peer toy 7 (dc_token toy_client)) toy_client ''set'' ''a/b/c'' (Some ''v'')
     (toy_store, toy_world) = (Inr (success []), (st', w'))"
    using toy_sets by auto
  have "snd (kv_spec (wire_request toy_client ''set'' ''a/b/c'' (Some ''v'')) (store_view toy_store)) = [''a/b/c'' \<mapsto> ''v'']"
    by (simp add: kv_spec_def wire_request_def toy_view)
  then show ?thesis using request_end_to_end [OF toy_ok toy_service r] r by auto
qed

text \<open>
  C23. And it does return: a request that passes \<open>check_request\<close>, that the daemon can carry out
  and that the map answers with ok gets exactly that answer, as long as the reply is within the
  64 MiB the client accepts.
\<close>

theorem request_answered:
  assumes "libs_ok L" and "service_ok L st" and "check_request L cl op key v = Inr ()"
    and "dispatch L (wire_request cl op key v) (clock L (w_tick w)) st (w\<lparr>w_tick := Suc (w_tick w)\<rparr>) = (Inr t, st', w')"
    and "length t \<le> kMaxResponseBytes" and "answerable (wire_request cl op key v) (store_view st)"
  shows "request L uid (daemon_peer L uid (dc_token cl)) cl op key v (st, w) =
    (Inr (fst (kv_spec (wire_request cl op key v) (store_view st))), (st', w'))"
  using request_completes [OF assms] .

definition toy_list :: request where
  "toy_list = wire_request toy_client ''list'' [] None"

theorem request_answered_witness:
  "fst (request toy 7 (daemon_peer toy 7 (dc_token toy_client)) toy_client ''list'' [] None (toy_store, toy_world)) =
     Inr (success [(''keys'', JArray [])])"
proof -
  have "case ok_keys toy [] of Inl e \<Rightarrow> False | Inr t \<Rightarrow> length t \<le> 200" by code_simp
  then obtain t where t: "ok_keys toy [] = Inr t" "length t \<le> 200" by (auto split: sum.splits)
  let ?w = "toy_world\<lparr>w_tick := Suc (w_tick toy_world)\<rparr>"
  have d: "dispatch toy (wire_request toy_client ''list'' [] None) (clock toy (w_tick toy_world)) toy_store ?w =
      (Inr t, toy_store, ?w)"
    using t by (simp add: dispatch_def wire_request_def bindM_def readM_def store_list_def toy_store_data liftM_def)
  have dump: "case json_dump toy (JObject (smap_put ''token'' (JString (dc_token toy_client))
      (make_request ''list'' [] None))) of Inl e \<Rightarrow> False | Inr l \<Rightarrow> length l \<le> 200"
    by code_simp
  then have fits: "check_request toy toy_client ''list'' [] None = Inr ()"
    by (auto simp: check_request_def serialize_def kMaxRequestBytes_def split: sum.splits)
  have spec: "fst (kv_spec (wire_request toy_client ''list'' [] None) (store_view toy_store)) =
      success [(''keys'', JArray [])]"
    by (simp add: kv_spec_def wire_request_def toy_view)
  then have "answerable (wire_request toy_client ''list'' [] None) (store_view toy_store)"
    by (auto simp: answerable_def)
  from request_answered [OF toy_ok toy_service fits d _ this] t spec show ?thesis
    by (simp add: kMaxResponseBytes_def)
qed

section \<open>Who may make a request\<close>

text \<open>
  C3. No access without the token: a connection from another user, or one that never sends a
  request line with the token, neither changes anything nor learns anything. Whatever the store
  holds, the same bytes go out, and the store and the world are handed back as they were.
\<close>

theorem no_access:
  assumes "libs_ok L" and "peer \<noteq> Inr uid \<or> \<not> knows_token L tok (received ins)"
  shows "\<exists>r c'. \<forall>st w. serve_connection L uid tok (connection_of ins sends peer) st w = (r, c', st, w)"
proof (cases "peer = Inr uid")
  case True
  have "\<exists>r c'. \<forall>st w. serve_lines L tok (connection_of ins sends peer) st w = (r, c', st, w)"
    by (rule serve_lines_blind [OF assms(1)]) (use assms(2) True in \<open>simp_all add: fresh_sends pending_def connection_of_def conn_inv_def\<close>)
  then show ?thesis using True by (simp add: serve_connection_def fresh_sends)
next
  case False
  then show ?thesis
    by (cases peer; cases "error_response L ''permission denied: peer uid mismatch''")
      (simp_all add: serve_connection_def fresh_sends)
qed

definition guessed :: string where
  "guessed = enc_json (json_object [(''token'', JString ''guess''), (''op'', JString ''list'')])"

theorem no_access_witness:
  "(\<exists>r c'. \<forall>st w. serve_connection toy 7 toy_token (connection_of [Received (guessed @ [LF])] [] (Inr 7)) st w = (r, c', st, w)) \<and>
   (\<exists>r c'. \<forall>st w. serve_connection toy 7 toy_token (connection_of [Received (guessed @ [LF])] [] (Inr 8)) st w = (r, c', st, w))"
proof -
  have "\<not> isl (parse_request toy guessed) \<and> map_option r_token (projr (parse_request toy guessed)) = Some ''guess''"
    by code_simp
  then have "parse_request toy guessed \<noteq> Inr (Some req) \<or> r_token req = ''guess''" for req
    by (cases "parse_request toy guessed") auto
  moreover have "stream_lines [] (received [Received (guessed @ [LF])]) = [guessed]" by code_simp
  ultimately have "\<not> knows_token toy toy_token (received [Received (guessed @ [LF])])"
    by (auto simp: knows_token_def toy_token_def)
  then show ?thesis using no_access [OF toy_ok, of "Inr 7"] no_access [OF toy_ok, of "Inr 8" 7] by blast
qed

section \<open>Memory and disk\<close>

text \<open>
  C7. Whatever clients connect and send, and wherever the process is killed, the store file
  opens again: after the daemon unlocked and served any connections, some passphrase opens the
  file as a complete store, and as long as the daemon lives that store is the one it holds.
\<close>

theorem daemon_keeps_store:
  assumes "libs_ok L" and "runs_clean L"
    and "daemon_start L rl resolved answered pass w = (Inr (st, tok), w1)"
    and "daemon_loop L uid tok conns st w1 = (alive, st', w')"
  shows "\<exists>d q w2. store_open L (st_path st) q w' = (Inr d, w2) \<and> (alive \<longrightarrow> d = st')"
proof -
  obtain p where "good_store L st" "synced L st w1"
    using daemon_start_Inr [OF assms(1,3)] by (auto simp: good_store_def)
  from daemon_loop_safe [OF assms(1) this assms(4)]
  obtain d where d: "st_path d = st_path st" "good_store L d" "synced L d w'" "alive \<longrightarrow> d = st'"
    by (auto simp: safe_end_def)
  then obtain q where "wf_store L d" "unwraps L q d" by (auto simp: good_store_def)
  from store_open_synced [OF assms(1,2) this(1) d(3) this(2)] show ?thesis using d(1,4) by metis
qed

definition token_world :: world where
  "token_world = toy_world\<lparr>w_files := (w_files toy_world)(''/c/token'' \<mapsto> \<lparr>f_data = ''tok'' @ [LF], f_mode = 384, f_synced = True\<rparr>)\<rparr>"

lemma toy_starts: "\<exists>w1. daemon_start toy None (Inr toy_paths) False (Inr ''pw'') token_world = (Inr (toy_store, toy_token), w1)"
proof -
  let ?w = "token_world\<lparr>w_tick := Suc (w_tick token_world)\<rparr>"
  have "synced toy toy_store ?w"
    using toy_synced synced_files [of ?w toy_store toy_world] by (simp add: token_world_def toy_store_path toy_path_def)
  from store_open_synced [OF toy_ok toy_clean toy_wf this toy_unwraps]
  obtain w' where o: "store_open toy toy_path ''pw'' ?w = (Inr toy_store, w')" and f: "w_files w' = w_files ?w"
    by (auto simp: toy_store_path)
  have age: "\<not> rotation_due (clock toy (w_tick token_world)) toy_store" by code_simp
  have "rstrip (''tok'' @ [LF]) = toy_token" by code_simp
  then have t: "read_token toy_paths w' = (Inr toy_token, w')"
    using f by (simp add: read_token_def read_file_string_def toy_paths_def token_world_def toy_token_def)
  show ?thesis
    using o t age
    by (simp add: daemon_start_def bindA_def refuse_if_def read_clock_run unlock_def toy_paths_def auto_rotate_def)
qed

theorem daemon_keeps_store_witness:
  "\<exists>w1 w'. daemon_start toy None (Inr toy_paths) False (Inr ''pw'') token_world = (Inr (toy_store, toy_token), w1) \<and>
     (\<exists>d q w2. store_open toy (st_path toy_store) q w' = (Inr d, w2))"
proof -
  obtain w1 where s: "daemon_start toy None (Inr toy_paths) False (Inr ''pw'') token_world = (Inr (toy_store, toy_token), w1)"
    using toy_starts by blast
  obtain alive st' w' where l: "daemon_loop toy 7 toy_token
      [None, Some (connection_of [Received (guessed @ [LF])] [] (Inr 7))] toy_store w1 = (alive, st', w')"
    by (metis prod_cases3)
  show ?thesis using daemon_keeps_store [OF toy_ok toy_clean s l] s by blast
qed

text \<open>
  The daemon only starts with a store the passphrase opened, in sync with its file, and
  with a token that is not empty, and only while no other daemon answers at its socket.
\<close>

theorem start_sound:
  assumes "libs_ok L" and "daemon_start L rl resolved answered pass w = (Inr (st, tok), w')"
  shows "\<exists>paths p. resolved = Inr paths \<and> \<not> answered \<and> pass = Inr p \<and> tok \<noteq> [] \<and>
    wf_store L st \<and> synced L st w' \<and> st_path st = p_store paths \<and> unwraps L p st"
  using daemon_start_Inr [OF assms] .

theorem start_sound_witness:
  "\<exists>w1. daemon_start toy None (Inr toy_paths) False (Inr ''pw'') token_world = (Inr (toy_store, toy_token), w1) \<and>
     synced toy toy_store w1"
  using toy_starts start_sound [OF toy_ok] by blast

end
