(* ===== verification/LifeProps.thy ===== *)
theory LifeProps
  imports Life DaemonProps
begin

text \<open>
  The properties of the whole life of a store file: its daemons started, stopped and killed, the
  connections they serve, and what the owner of the secrets is left with.
\<close>

section \<open>Secrets nobody touches\<close>

text \<open>A request that may change what is stored under a key.\<close>

definition touches :: "string \<Rightarrow> request \<Rightarrow> bool" where
  "touches k req \<longleftrightarrow> r_op req \<in> {''set'', ''delete''} \<and> r_key req = k"

text \<open>The requests of a life: those of its connections that bear a token of one of its daemons.\<close>

definition life_orders :: "libs \<Rightarrow> nat \<Rightarrow> event list \<Rightarrow> request set" where
  "life_orders L uid es =
     {req. \<exists>p tok c. Start p tok \<in> set es \<and> (Serve c \<in> set es \<or> Die c \<in> set es) \<and> req \<in> set (conn_orders L uid tok c)}"

definition life_touches :: "libs \<Rightarrow> nat \<Rightarrow> event list \<Rightarrow> string \<Rightarrow> bool" where
  "life_touches L uid es k \<longleftrightarrow> (\<exists>req \<in> life_orders L uid es. touches k req)"

text \<open>A daemon unlocked the store with this passphrase.\<close>

definition unlocked_with :: "string \<Rightarrow> event list \<Rightarrow> bool" where
  "unlocked_with p es \<longleftrightarrow> (\<exists>tok. Start p tok \<in> set es) \<or> StartDies p \<in> set es"

text \<open>No passphrase but this one was used or set.\<close>

definition keyed_by :: "libs \<Rightarrow> nat \<Rightarrow> event list \<Rightarrow> string \<Rightarrow> bool" where
  "keyed_by L uid es p \<longleftrightarrow>
     (\<forall>q. unlocked_with q es \<longrightarrow> q = p) \<and>
     (\<forall>req \<in> life_orders L uid es. r_op req \<noteq> ''passwd'' \<and> (r_op req = ''rotate'' \<longrightarrow> r_old req = p))"

lemma carried_out_keeps: "carried_out v req v' \<Longrightarrow> \<not> touches k req \<Longrightarrow> secrets v' k = secrets v k"
  by (auto simp: carried_out_def kv_spec_def touches_def Let_def)

text \<open>What every request of a life and every unlocking keeps holds of the vault throughout.\<close>

fun holds_in :: "event list \<Rightarrow> (contents \<Rightarrow> bool) \<Rightarrow> vault \<Rightarrow> bool" where
  "holds_in es Q Absent \<longleftrightarrow> False"
| "holds_in es Q (Asleep v) \<longleftrightarrow> Q v"
| "holds_in es Q (Awake tok v) \<longleftrightarrow> Q v \<and> (\<exists>p. Start p tok \<in> set es)"

definition kept_by :: "libs \<Rightarrow> nat \<Rightarrow> event list \<Rightarrow> (contents \<Rightarrow> bool) \<Rightarrow> bool" where
  "kept_by L uid es Q \<longleftrightarrow>
     (\<forall>req \<in> life_orders L uid es. \<forall>v v'. carried_out v req v' \<longrightarrow> Q v \<longrightarrow> Q v') \<and>
     (\<forall>p v v'. unlocked_with p es \<longrightarrow> same_secrets p v v' \<longrightarrow> Q v \<longrightarrow> Q v')"

lemma orders_keep:
  assumes "run carried_out v reqs v'" and "subseq reqs os" and "set os \<subseteq> life_orders L uid es" and "kept_by L uid es Q"
  shows "Q v \<Longrightarrow> Q v'"
proof -
  have "set reqs \<subseteq> life_orders L uid es"
    using assms(2,3) list_emb_set [of "(=)" reqs os] by blast
  with assms(1) show "Q v \<Longrightarrow> Q v'"
    by (induction rule: run.induct) (use assms(4) in \<open>auto simp: kept_by_def\<close>)
qed

lemma vault_step_holds:
  assumes "kept_by L uid es Q"
  shows "vault_step L uid a e a' \<Longrightarrow> e \<in> set es \<Longrightarrow> holds_in es Q a \<Longrightarrow> holds_in es Q a'"
proof (induction rule: vault_step.induct)
  case (wake p v v' tok)
  then have "unlocked_with p es" "Q v" by (auto simp: unlocked_with_def)
  then have "Q v'" using assms wake.hyps(1) unfolding kept_by_def by blast
  then show ?case using wake.prems by auto
next
  case (rekey p v v')
  then have "unlocked_with p es" "Q v" by (auto simp: unlocked_with_def)
  then show ?case using assms rekey.hyps unfolding kept_by_def holds_in.simps by blast
next
  case (obey reqs tok c v v')
  then have "set (conn_orders L uid tok c) \<subseteq> life_orders L uid es" by (auto simp: life_orders_def)
  then show ?case using orders_keep [OF obey.hyps(2,1) _ assms] obey.prems by auto
next
  case (obey_and_die reqs tok c v v')
  then have "set (conn_orders L uid tok c) \<subseteq> life_orders L uid es" by (auto simp: life_orders_def)
  then show ?case using orders_keep [OF obey_and_die.hyps(2,1) _ assms] obey_and_die.prems by auto
qed auto

text \<open>A life on whose way the file never holds two stores.\<close>

definition undoubted :: "libs \<Rightarrow> nat \<Rightarrow> string \<Rightarrow> sys \<Rightarrow> event list \<Rightarrow> bool" where
  "undoubted L uid path s es \<longleftrightarrow>
     (\<forall>es1 es2 s1. es = es1 @ es2 \<longrightarrow> run (sys_step L uid path) s es1 s1 \<longrightarrow> \<not> doubtful L path s1)"

text \<open>So it holds of the store that the file is at the end.\<close>

lemma life_keeps:
  assumes "libs_ok L" and "vault_file L d w" and "run (sys_step L uid (st_path d)) (Down w) es (Down w')"
    and "undoubted L uid (st_path d) (Down w) es"
    and "kept_by L uid es Q" and "Q (vault_of L d)"
  shows "\<exists>d'. st_path d' = st_path d \<and> vault_file L d' w' \<and> Q (vault_of L d')"
proof -
  have "libs_ok L \<and> abstracts L (st_path d) (Down w) (Asleep (vault_of L d))"
      "holds_in es Q (Asleep (vault_of L d))"
    using assms(1,2,6) by auto
  then obtain a' where a': "abstracts L (st_path d) (Down w') a'" "holds_in es Q a'"
    using life.runs_keep [OF assms(3), where good = "holds_in es Q"] vault_step_holds [OF assms(5)] assms(4)
    unfolding undoubted_def by blast
  from a'(1) show ?thesis
    by (cases rule: abstracts_Down) (use a'(2) in auto)
qed

lemma toy_single: "\<not> twofold toy path w"
  using twofold_keys [of toy path w] by (auto simp: toy_def split: if_splits)

lemma toy_sure: "\<not> doubtful toy path s"
  by (cases s) (simp_all add: toy_single)

lemma toy_undoubted: "undoubted toy uid path s es"
  by (simp add: undoubted_def toy_sure)

section \<open>The refinement\<close>

text \<open>
  C4. The life of a store file is the life of a vault: whatever system call fails, wherever a
  daemon is killed and whoever connects, each event does to the store what it does to the vault.
  Only a passphrase the vault accepts starts a daemon or changes keys; a connection carries out,
  in their order and each at most once, requests that bear the daemon's token and come from its
  user, and a kill loses at most the one under way. The only way out of the vault is a
  file that holds two stores at once, for which one ciphertext must open under two keys.
\<close>

theorem life_refines:
  assumes "libs_ok L" and "run (sys_step L uid path) s es s'" and "abstracts L path s a"
  shows "(\<exists>a'. run (vault_step L uid) a es a' \<and> abstracts L path s' a') \<or>
    (\<exists>es1 es2 s1 a1. es = es1 @ es2 \<and> run (sys_step L uid path) s es1 s1 \<and>
       run (vault_step L uid) a es1 a1 \<and> abstracts L path s1 a1 \<and> doubtful L path s1)"
  using life.runs_matched [OF assms(2)] assms(1,3) by blast

text \<open>
  C5. No secret is lost: a value stored under a key is still there, and can be read by unlocking
  the store, after any life of the file in which no request with a daemon's token sets or deletes
  that key: daemons may be started, stopped and killed in the middle of requests, writes may fail
  at every call, other keys may be written and the store re-keyed (and the file never holds two
  stores at once).
\<close>

theorem secret_survives:
  assumes "libs_ok L" and "runs_clean L" and "vault_file L d w" and "store_view d k = Some v"
    and "run (sys_step L uid (st_path d)) (Down w) es (Down w')" and "\<not> life_touches L uid es k"
    and "undoubted L uid (st_path d) (Down w) es"
  shows "\<exists>p d' w2. store_open L (st_path d) p w' = (Inr d', w2) \<and> store_get L k d' = Inr (Some v)"
proof -
  have "kept_by L uid es (\<lambda>x. secrets x k = Some v)"
    using assms(6) carried_out_keeps unfolding kept_by_def life_touches_def same_secrets_def by metis
  from life_keeps [OF assms(1,3,5,7) this] assms(4)
  obtain d' p where d': "st_path d' = st_path d" "service_ok L d'" "synced L d' w'" "unwraps L p d'" "store_view d' k = Some v"
    by (auto simp: vault_file_def)
  then have "store_get L k d' = Inr (Some v)" "wf_store L d'"
    by (simp_all add: service_ok_def store_get_view)
  then show ?thesis using store_open_synced [OF assms(1,2) _ d'(3,4)] d'(1) by metis
qed

text \<open>
  C6. The owner is never locked out: as long as every daemon was unlocked with the owner's
  passphrase and no request changed it, the passphrase opens the store after any life of the file,
  automatic and requested rotations, crashes and failed starts included, and every key that no
  request with a daemon's token set or deleted reads as before.
\<close>

theorem owner_keeps_access:
  assumes "libs_ok L" and "runs_clean L" and "vault_file L d w" and "unwraps L p d"
    and "run (sys_step L uid (st_path d)) (Down w) es (Down w')" and "keyed_by L uid es p"
    and "undoubted L uid (st_path d) (Down w) es"
  shows "\<exists>d' w2. store_open L (st_path d) p w' = (Inr d', w2) \<and>
    (\<forall>k. \<not> life_touches L uid es k \<longrightarrow> store_get L k d' = store_get L k d)"
proof -
  let ?Q = "\<lambda>x. unlocking x p \<and> (\<forall>k. \<not> life_touches L uid es k \<longrightarrow> secrets x k = store_view d k)"
  have "unlocking v' p" if "req \<in> life_orders L uid es" "carried_out v req v'" "unlocking v p" for req v v'
    using that assms(6) by (auto simp: keyed_by_def carried_out_def split: if_splits)
  moreover have "secrets v' k = secrets v k" if "req \<in> life_orders L uid es" "carried_out v req v'"
      "\<not> life_touches L uid es k" for req v v' k
    using that carried_out_keeps by (auto simp: life_touches_def)
  ultimately have "kept_by L uid es ?Q"
    using assms(6) by (auto simp: kept_by_def same_secrets_def keyed_by_def)
  from life_keeps [OF assms(1,3,5,7) this] assms(4)
  obtain d' where d': "st_path d' = st_path d" "service_ok L d'" "synced L d' w'" "unwraps L p d'"
    and same: "\<forall>k. \<not> life_touches L uid es k \<longrightarrow> store_view d' k = store_view d k"
    by (auto simp: vault_file_def)
  have "store_get L k d' = store_get L k d" if "\<not> life_touches L uid es k" for k
    using that same d'(2) assms(3) by (simp add: vault_file_def service_ok_def store_get_view)
  moreover have "wf_store L d'" using d'(2) by (simp add: service_ok_def)
  ultimately show ?thesis using store_open_synced [OF assms(1,2) _ d'(3,4)] d'(1) by metis
qed

section \<open>A life of the toy store\<close>

text \<open>The client's \<open>set\<close> on a connection, and the store it leaves.\<close>

definition toy_line :: string where
  "toy_line = enc_json (JObject (smap_put ''token'' (JString toy_token) (make_request ''set'' ''a/b/c'' (Some ''v''))))"

definition toy_conn :: connection where
  "toy_conn = connection_of [Received (toy_line @ [LF])] [] (Inr 7)"

definition toy_set_store :: store where "toy_set_store = fst (snd toy_set_dispatch)"
definition toy_set_world :: world where "toy_set_world = snd (snd toy_set_dispatch)"

lemma toy_vault: "vault_file toy toy_store toy_world"
  using toy_service toy_synced toy_unwraps by (auto simp: vault_file_def)

lemma toy_set_dispatched: "\<exists>t. toy_set_dispatch = (Inr t, toy_set_store, toy_set_world)"
  using toy_set_answers unfolding toy_set_store_def toy_set_world_def by (metis prod.collapse)

lemma toy_serves:
  "\<exists>c'. serve_connection toy 7 toy_token toy_conn toy_store toy_world = (Inr (), c', toy_set_store, toy_set_world)"
proof -
  have ser: "serialize toy toy_client (make_request ''set'' ''a/b/c'' (Some ''v'')) = Inr toy_line"
    using toy_fits by (auto simp: check_request_def serialize_def toy_line_def toy_client_def toy_def toy_dump_def
        split: sum.splits if_splits)
  note wire = parse_serialized [OF toy_ok ser]
  obtain t where "toy_set_dispatch = (Inr t, toy_set_store, toy_set_world)" using toy_set_dispatched by blast
  then have "respond toy toy_token (wire_request toy_client ''set'' ''a/b/c'' (Some ''v'')) toy_store toy_world =
      (Inr t, toy_set_store, toy_set_world)"
    by (simp add: respond_def token_matches_iff [OF toy_ok] wire_request_def toy_client_def read_clock_run toy_set_dispatch_def)
  then show ?thesis
    using serve_one_line [OF wire(2,3,1), of 7 toy_token toy_store toy_world] by (auto simp: toy_conn_def)
qed


text \<open>The same file beside a token, unlocked again by the passphrase of \<open>init\<close>.\<close>

definition toy_set_tokened :: world where
  "toy_set_tokened = toy_set_world\<lparr>w_files := (w_files toy_set_world)(''/c/token'' \<mapsto>
     \<lparr>f_data = ''tok'' @ [LF], f_mode = 384, f_synced = True\<rparr>), w_tick := 0\<rparr>"

lemma toy_set_facts:
  "service_ok toy toy_set_store" "store_view toy_set_store = [''a/b/c'' \<mapsto> ''v'']" "st_path toy_set_store = toy_path"
  "st_env toy_set_store = st_env toy_store" "unwraps toy ''pw'' toy_set_store" "synced toy toy_set_store toy_set_world"
proof -
  let ?w = "toy_world\<lparr>w_tick := Suc (w_tick toy_world)\<rparr>"
  obtain t where d: "dispatch toy (wire_request toy_client ''set'' ''a/b/c'' (Some ''v'')) (clock toy (w_tick toy_world))
      toy_store ?w = (Inr t, toy_set_store, toy_set_world)"
    using toy_set_dispatched by (auto simp: toy_set_dispatch_def)
  then obtain u where s: "store_set toy ''a/b/c'' ''v'' toy_store ?w = (Inr u, toy_set_store, toy_set_world)"
    by (auto simp: dispatch_def wire_request_def bindM_Inr)
  note kv.put_returns [OF toy_service s]
  then show "service_ok toy toy_set_store" "store_view toy_set_store = [''a/b/c'' \<mapsto> ''v'']"
    by (simp_all add: toy_view)
  show "st_path toy_set_store = toy_path" "st_env toy_set_store = st_env toy_store" "unwraps toy ''pw'' toy_set_store"
    using toy_store_path toy_unwraps unfolding store_set_returns [OF s] by (simp_all add: unwraps_def)
  have "synced toy toy_store ?w" using toy_synced by simp
  from store_step_synced [OF toy_ok toy_wf this, of "SetOp ''a/b/c'' ''v''" "Inr u"] s
  show "synced toy toy_set_store toy_set_world" by simp
qed

lemma toy_set_vault: "vault_file toy toy_set_store toy_set_tokened"
  using toy_set_facts synced_files [of toy_set_tokened toy_set_store toy_set_world]
  by (auto simp: vault_file_def toy_set_tokened_def toy_path_def)

lemma toy_restarts:
  "\<exists>w1. daemon_start toy None (Inr toy_paths) False (Inr ''pw'') toy_set_tokened = (Inr (toy_set_store, toy_token), w1)"
proof -
  let ?w = "toy_set_tokened\<lparr>w_tick := Suc (w_tick toy_set_tokened)\<rparr>"
  have "wf_store toy toy_set_store" "synced toy toy_set_store ?w"
    using toy_set_facts(1) toy_set_vault by (simp_all add: service_ok_def vault_file_def)
  from store_open_synced [OF toy_ok toy_clean this toy_set_facts(5)]
  obtain w' where o: "store_open toy toy_path ''pw'' ?w = (Inr toy_set_store, w')" and f: "w_files w' = w_files ?w"
    by (auto simp: toy_set_facts(3))
  have age: "\<not> rotation_due (clock toy (w_tick toy_set_tokened)) toy_set_store"
    by (simp add: rotation_due_def toy_set_tokened_def toy_def)
  have "rstrip (''tok'' @ [LF]) = toy_token" by code_simp
  then have t: "read_token toy_paths w' = (Inr toy_token, w')"
    using f by (simp add: read_token_def read_file_string_def toy_paths_def toy_set_tokened_def toy_token_def)
  show ?thesis
    using o t age
    by (simp add: daemon_start_def bindA_def refuse_if_def read_clock_run unlock_def toy_paths_def auto_rotate_def)
qed


text \<open>Served, stopped, left to itself, and started again.\<close>

definition toy_life :: "event list" where
  "toy_life = [Serve toy_conn, Stop, Outside, Start ''pw'' toy_token, Stop]"

lemma toy_fresh: "fresh toy_conn"
  unfolding fresh_def toy_conn_def by blast

lemma toy_lives: "\<exists>w'. run (sys_step toy 7 toy_path) (Up toy_token toy_store toy_world) toy_life (Down w')"
proof -
  obtain c' where "serve_connection toy 7 toy_token toy_conn toy_store toy_world = (Inr (), c', toy_set_store, toy_set_world)"
    using toy_serves by blast
  then have "sys_step toy 7 toy_path (Up toy_token toy_store toy_world) (Serve toy_conn) (Up toy_token toy_set_store toy_set_world)"
    by (rule served) (simp_all add: toy_fresh)
  moreover have "sys_step toy 7 toy_path (Up toy_token toy_set_store toy_set_world) Stop (Down toy_set_world)"
    by (rule stopped)
  moreover have "sys_step toy 7 toy_path (Down toy_set_world) Outside (Down toy_set_tokened)"
    by (rule outside_down) (simp add: toy_set_tokened_def toy_path_def)
  moreover obtain w1 where "daemon_start toy None (Inr toy_paths) False (Inr ''pw'') toy_set_tokened = (Inr (toy_set_store, toy_token), w1)"
    using toy_restarts by blast
  then have "sys_step toy 7 toy_path (Down toy_set_tokened) (Start ''pw'' toy_token) (Up toy_token toy_set_store w1)"
    by (rule started) (simp add: toy_paths_def)
  moreover have "sys_step toy 7 toy_path (Up toy_token toy_set_store w1) Stop (Down w1)"
    by (rule stopped)
  ultimately show ?thesis unfolding toy_life_def by blast
qed

theorem life_refines_witness:
  "\<exists>w' a'. run (sys_step toy 7 toy_path) (Up toy_token toy_store toy_world) toy_life (Down w') \<and>
     run (vault_step toy 7) (Awake toy_token (vault_of toy toy_store)) toy_life a' \<and> abstracts toy toy_path (Down w') a'"
proof -
  obtain w' where w': "run (sys_step toy 7 toy_path) (Up toy_token toy_store toy_world) toy_life (Down w')"
    using toy_lives by blast
  have "abstracts toy toy_path (Up toy_token toy_store toy_world) (Awake toy_token (vault_of toy toy_store))"
    using toy_vault toy_store_path by simp
  from life_refines [OF toy_ok w' this] show ?thesis using w' toy_sure by blast
qed

text \<open>Another user connects, asks to set the key, and is refused.\<close>

definition stranger_conn :: connection where
  "stranger_conn = connection_of [Received (toy_line @ [LF])] [] (Inr 8)"

definition quiet_life :: "event list" where
  "quiet_life = [Start ''pw'' toy_token, Serve stranger_conn, Stop]"

lemma stranger_refused:
  "\<exists>r c'. serve_connection toy 7 toy_token stranger_conn st w = (r, c', st, w) \<and> r \<noteq> Inl Killed"
  by (cases "error_response toy ''permission denied: peer uid mismatch''")
    (simp_all add: serve_connection_def stranger_conn_def fresh_sends)

lemma quiet_lives: "\<exists>w'. run (sys_step toy 7 toy_path) (Down toy_set_tokened) quiet_life (Down w')"
proof -
  obtain w1 where "daemon_start toy None (Inr toy_paths) False (Inr ''pw'') toy_set_tokened = (Inr (toy_set_store, toy_token), w1)"
    using toy_restarts by blast
  then have "sys_step toy 7 toy_path (Down toy_set_tokened) (Start ''pw'' toy_token) (Up toy_token toy_set_store w1)"
    by (rule started) (simp add: toy_paths_def)
  moreover obtain r c' where "serve_connection toy 7 toy_token stranger_conn toy_set_store w1 = (r, c', toy_set_store, w1)"
      "r \<noteq> Inl Killed"
    using stranger_refused by blast
  then have "sys_step toy 7 toy_path (Up toy_token toy_set_store w1) (Serve stranger_conn) (Up toy_token toy_set_store w1)"
    by (intro served) (auto simp: fresh_def stranger_conn_def)
  moreover have "sys_step toy 7 toy_path (Up toy_token toy_set_store w1) Stop (Down w1)"
    by (rule stopped)
  ultimately show ?thesis unfolding quiet_life_def by blast
qed

theorem secret_survives_witness:
  "\<exists>w'. run (sys_step toy 7 toy_path) (Down toy_set_tokened) quiet_life (Down w') \<and>
     (\<exists>p d' w2. store_open toy toy_path p w' = (Inr d', w2) \<and> store_get toy ''a/b/c'' d' = Inr (Some ''v''))"
proof -
  obtain w' where w': "run (sys_step toy 7 toy_path) (Down toy_set_tokened) quiet_life (Down w')"
    using quiet_lives by blast
  have v: "store_view toy_set_store ''a/b/c'' = Some ''v''" by (simp add: toy_set_facts)
  have "conn_orders toy 7 tok stranger_conn = []" for tok
    by (simp add: conn_orders_def stranger_conn_def connection_of_def)
  then have "\<not> life_touches toy 7 quiet_life ''a/b/c''"
    by (auto simp: life_touches_def life_orders_def quiet_life_def)
  from secret_survives [OF toy_ok toy_clean toy_set_vault v _ this toy_undoubted] w' show ?thesis
    unfolding toy_set_facts(3) by blast
qed


theorem owner_keeps_access_witness:
  "\<exists>w'. run (sys_step toy 7 toy_path) (Down toy_set_tokened) quiet_life (Down w') \<and>
     (\<exists>d' w2. store_open toy toy_path ''pw'' w' = (Inr d', w2) \<and> store_get toy ''a/b/c'' d' = Inr (Some ''v''))"
proof -
  obtain w' where w': "run (sys_step toy 7 toy_path) (Down toy_set_tokened) quiet_life (Down w')"
    using quiet_lives by blast
  have "conn_orders toy 7 tok stranger_conn = []" for tok
    by (simp add: conn_orders_def stranger_conn_def connection_of_def)
  then have none: "life_orders toy 7 quiet_life = {}"
    by (auto simp: life_orders_def quiet_life_def)
  then have "keyed_by toy 7 quiet_life ''pw''" "\<not> life_touches toy 7 quiet_life ''a/b/c''"
    by (auto simp: keyed_by_def life_touches_def unlocked_with_def quiet_life_def)
  moreover have "store_get toy ''a/b/c'' toy_set_store = Inr (Some ''v'')"
    using toy_set_facts(1,2) by (simp add: service_ok_def store_get_view)
  ultimately show ?thesis
    using owner_keeps_access [OF toy_ok toy_clean toy_set_vault toy_set_facts(5) _ _ toy_undoubted] w'
    unfolding toy_set_facts(3) by metis
qed

end
