(* ===== verification/Listener.thy ===== *)
theory Listener
  imports Store Paths
begin

text \<open>
  The socket the daemon listens on: \<open>Listener\<close>, \<open>connect_unix\<close> and \<open>unlink_if_same_inode\<close> of
  src/src/transport.cpp, and the signal handler of src/src/daemon.cpp. The directory of the socket
  is a map of paths; the constructor is a machine of system calls, one a step, so that what another
  process sees between two calls is a state of the run. Nobody else changes the path meanwhile.
\<close>

section \<open>The directory and the calls\<close>

record dir_entry =
  de_socket :: bool
  de_dev :: nat
  de_ino :: nat
  de_mode :: nat
  de_live :: bool      \<comment> \<open>a process accepts connections on it\<close>

type_synonym sock_dir = "string \<Rightarrow> dir_entry option"

datatype unlink_answer = Unlinked | UnlinkGone | UnlinkFailed string

text \<open>What the system calls answer: an error, or success.\<close>

record socket_os =
  so_visible :: bool                 \<comment> \<open>the first \<open>lstat\<close> sees an entry that exists\<close>
  so_client :: bool                  \<comment> \<open>\<open>socket\<close> for the probe\<close>
  so_connect :: "string option"      \<comment> \<open>\<open>connect\<close> fails although a process listens: EACCES, ENOMEM, ...\<close>
  so_unlink :: unlink_answer
  so_socket :: "string option"
  so_bind :: "string option"
  so_in_use :: string                \<comment> \<open>\<open>bind\<close> on a path that exists\<close>
  so_chmod :: "string option"
  so_stat :: "string option"
  so_listen :: "string option"
  so_cleanup :: bool                 \<comment> \<open>the \<open>unlink\<close> after a failure\<close>
  so_dev :: nat                      \<comment> \<open>of the socket \<open>bind\<close> makes\<close>
  so_ino :: nat

text \<open>\<open>sizeof(addr.sun_path)\<close> on Linux.\<close>

definition kSunPathBytes :: nat where "kSunPathBytes = 108"

definition fits_address :: "string \<Rightarrow> bool" where
  "fits_address path \<longleftrightarrow> length path < kSunPathBytes"

text \<open>
  \<open>connect\<close>, repeated while it is interrupted: it succeeds where a process listens, unless the
  system refuses it for another reason. \<open>connect_unix\<close> does not tell the ways to fail apart.
\<close>

definition connect_call :: "socket_os \<Rightarrow> sock_dir \<Rightarrow> string \<Rightarrow> string + unit" where
  "connect_call os fs path =
     (case fs path of
        None \<Rightarrow> Inl ''No such file or directory''
      | Some e \<Rightarrow>
          if \<not> (de_socket e \<and> de_live e) then Inl ''Connection refused''
          else (case so_connect os of Some error \<Rightarrow> Inl error | None \<Rightarrow> Inr ()))"

definition connect_unix :: "socket_os \<Rightarrow> sock_dir \<Rightarrow> string \<Rightarrow> bool" where
  "connect_unix os fs path \<longleftrightarrow>
     (if \<not> fits_address path then False
      else if \<not> so_client os then False
      else (case connect_call os fs path of Inl e \<Rightarrow> False | Inr _ \<Rightarrow> True))"

section \<open>The constructor\<close>

datatype listener_pc =
    Looking | Probing dir_entry | Unlinking | MakingSocket | Binding | Chmodding | Stating | Listening nat nat
  | Cleaning string | Refused string | Bound nat nat

definition failed_call :: "string \<Rightarrow> string \<Rightarrow> string \<Rightarrow> string" where
  "failed_call operation path e = operation @ ''('' @ path @ '') failed: '' @ e"

fun listener_step :: "socket_os \<Rightarrow> string \<Rightarrow> listener_pc \<times> sock_dir \<Rightarrow> listener_pc \<times> sock_dir" where
  "listener_step os path (Looking, fs) =
     (case (if so_visible os then fs path else None) of
        None \<Rightarrow> (MakingSocket, fs)
      | Some existing \<Rightarrow> (Probing existing, fs))"
| "listener_step os path (Probing existing, fs) =
     (if connect_unix os fs path then (Refused (''daemon already running at '' @ path), fs)
      else if \<not> de_socket existing
      then (Refused (path @ '' exists and is not a socket; refusing to remove it''), fs)
      else (Unlinking, fs))"
| "listener_step os path (Unlinking, fs) =
     (case so_unlink os of
        UnlinkFailed e \<Rightarrow> (Refused (''unlink stale socket '' @ quoted path @ '': '' @ e), fs)
      | _ \<Rightarrow> (MakingSocket, fs(path := None)))"
| "listener_step os path (MakingSocket, fs) =
     (if \<not> fits_address path then (Refused (''socket path too long: '' @ path), fs)
      else (case so_socket os of
              Some e \<Rightarrow> (Refused (''socket() failed: '' @ e), fs)
            | None \<Rightarrow> (Binding, fs)))"
| "listener_step os path (Binding, fs) =
     (case (if fs path = None then so_bind os else Some (so_in_use os)) of
        Some e \<Rightarrow> (Refused (failed_call ''bind'' path e), fs)
      | None \<Rightarrow>
          (Chmodding, fs(path \<mapsto> \<lparr>de_socket = True, de_dev = so_dev os, de_ino = so_ino os,
                                 de_mode = mode_0700, de_live = False\<rparr>)))"
| "listener_step os path (Chmodding, fs) =
     (case so_chmod os of
        Some e \<Rightarrow> (Cleaning (failed_call ''chmod'' path e), fs)
      | None \<Rightarrow> (Stating, fs(path := map_option (\<lambda>e. e\<lparr>de_mode := mode_0600\<rparr>) (fs path))))"
| "listener_step os path (Stating, fs) =
     (case (so_stat os, fs path) of
        (None, Some e) \<Rightarrow> (Listening (de_dev e) (de_ino e), fs)
      | (None, None) \<Rightarrow> (Cleaning (failed_call ''stat'' path ''no entry''), fs)
      | (Some e, _) \<Rightarrow> (Cleaning (failed_call ''stat'' path e), fs))"
| "listener_step os path (Listening dev ino, fs) =
     (case so_listen os of
        Some e \<Rightarrow> (Cleaning (failed_call ''listen'' path e), fs)
      | None \<Rightarrow> (Bound dev ino, fs(path := map_option (\<lambda>e. e\<lparr>de_live := True\<rparr>) (fs path))))"
| "listener_step os path (Cleaning what, fs) =
     (Refused what, if so_cleanup os then fs(path := None) else fs)"
| "listener_step os path (Refused what, fs) = (Refused what, fs)"
| "listener_step os path (Bound dev ino, fs) = (Bound dev ino, fs)"

text \<open>The state after some of its calls; nine are enough.\<close>

definition listener_after :: "nat \<Rightarrow> socket_os \<Rightarrow> string \<Rightarrow> sock_dir \<Rightarrow> listener_pc \<times> sock_dir" where
  "listener_after n os path fs = (listener_step os path ^^ n) (Looking, fs)"

definition listener_open :: "socket_os \<Rightarrow> string \<Rightarrow> sock_dir \<Rightarrow> listener_pc \<times> sock_dir" where
  "listener_open os path fs = listener_after 9 os path fs"

section \<open>Closing\<close>

definition unlink_if_same_inode :: "string \<Rightarrow> nat \<Rightarrow> nat \<Rightarrow> sock_dir \<Rightarrow> sock_dir" where
  "unlink_if_same_inode path dev ino fs =
     (if ino = 0 then fs else
      case fs path of
        None \<Rightarrow> fs
      | Some current \<Rightarrow> if de_dev current = dev \<and> de_ino current = ino then fs(path := None) else fs)"

definition listener_close :: "string \<Rightarrow> nat \<Rightarrow> nat \<Rightarrow> sock_dir \<Rightarrow> sock_dir" where
  "listener_close path bound_dev bound_ino fs = unlink_if_same_inode path bound_dev bound_ino fs"

text \<open>The handler of SIGINT and SIGTERM, of the globals set from the listener; it ends the process.\<close>

definition on_signal :: "string \<Rightarrow> nat \<Rightarrow> nat \<Rightarrow> sock_dir \<Rightarrow> sock_dir" where
  "on_signal socket_path socket_dev socket_ino fs = unlink_if_same_inode socket_path socket_dev socket_ino fs"

text \<open>\<open>accept\<close> is repeated when interrupted; any other failure gives no connection.\<close>

datatype 'c accept_answer = AcceptInterrupted | AcceptFailed | Accepted 'c

fun accept_retry :: "'c accept_answer list \<Rightarrow> 'c option \<times> 'c accept_answer list" where
  "accept_retry [] = (None, [])"
| "accept_retry (AcceptInterrupted # answers) = accept_retry answers"
| "accept_retry (AcceptFailed # answers) = (None, answers)"
| "accept_retry (Accepted c # answers) = (Some c, answers)"

section \<open>What the constructor keeps\<close>

text \<open>A socket that is there already may be removed when the probe finds nobody behind it.\<close>

definition removable :: "socket_os \<Rightarrow> sock_dir \<Rightarrow> string \<Rightarrow> bool" where
  "removable os fs path \<longleftrightarrow> (\<exists>e. fs path = Some e \<and> de_socket e \<and> \<not> connect_unix os fs path)"

definition free_or_stale :: "socket_os \<Rightarrow> sock_dir \<Rightarrow> string \<Rightarrow> bool" where
  "free_or_stale os fs path \<longleftrightarrow> fs path = None \<or> removable os fs path"

definition our_socket :: "socket_os \<Rightarrow> nat \<Rightarrow> bool \<Rightarrow> dir_entry" where
  "our_socket os mode live =
     \<lparr>de_socket = True, de_dev = so_dev os, de_ino = so_ino os, de_mode = mode, de_live = live\<rparr>"

definition listener_inv :: "socket_os \<Rightarrow> string \<Rightarrow> sock_dir \<Rightarrow> listener_pc \<times> sock_dir \<Rightarrow> bool" where
  "listener_inv os path fs s \<longleftrightarrow>
     (\<forall>p. p \<noteq> path \<longrightarrow> snd s p = fs p) \<and>
     (case fst s of
        Looking \<Rightarrow> snd s = fs
      | Probing e \<Rightarrow> snd s = fs \<and> fs path = Some e
      | Unlinking \<Rightarrow> snd s = fs \<and> removable os fs path
      | MakingSocket \<Rightarrow> snd s = fs \<or> removable os fs path \<and> snd s path = None
      | Binding \<Rightarrow> fits_address path \<and> (snd s = fs \<or> removable os fs path \<and> snd s path = None)
      | Chmodding \<Rightarrow> fits_address path \<and> free_or_stale os fs path \<and> snd s path = Some (our_socket os mode_0700 False)
      | Stating \<Rightarrow> fits_address path \<and> free_or_stale os fs path \<and> snd s path = Some (our_socket os mode_0600 False)
      | Listening dev ino \<Rightarrow> fits_address path \<and> free_or_stale os fs path \<and> dev = so_dev os \<and> ino = so_ino os \<and>
          snd s path = Some (our_socket os mode_0600 False)
      | Cleaning what \<Rightarrow> free_or_stale os fs path \<and> (\<exists>mode \<in> {mode_0600, mode_0700}. snd s path = Some (our_socket os mode False))
      | Refused what \<Rightarrow> snd s = fs \<or> removable os fs path \<and> snd s path = None \<or>
          free_or_stale os fs path \<and> (if so_cleanup os then snd s path = None
            else \<exists>mode \<in> {mode_0600, mode_0700}. snd s path = Some (our_socket os mode False))
      | Bound dev ino \<Rightarrow> fits_address path \<and> free_or_stale os fs path \<and> dev = so_dev os \<and> ino = so_ino os \<and>
          snd s path = Some (our_socket os mode_0600 True))"

text \<open>What is no socket stays, and so does a socket that a working probe finds alive.\<close>

lemma kept_entry:
  assumes "fs path = Some e"
    and "\<not> de_socket e \<or> de_live e \<and> fits_address path \<and> so_client os \<and> so_connect os = None"
  shows "\<not> free_or_stale os fs path"
  using assms by (auto simp: free_or_stale_def removable_def connect_unix_def connect_call_def)

lemma listener_inv_step: "listener_inv os path fs s \<Longrightarrow> listener_inv os path fs (listener_step os path s)"
proof (induction os path s rule: listener_step.induct)
  case (2 os path existing fs')
  then show ?case by (auto simp: listener_inv_def removable_def)
next
  case (3 os path fs')
  then show ?case by (cases "so_unlink os") (auto simp: listener_inv_def)
next
  case (5 os path fs')
  then show ?case by (auto simp: listener_inv_def our_socket_def free_or_stale_def split: option.splits)
qed (auto simp: listener_inv_def our_socket_def split: option.splits)

lemma listener_inv_after: "listener_inv os path fs (listener_after n os path fs)"
  by (induction n) (simp_all add: listener_after_def listener_inv_step, simp add: listener_inv_def)

text \<open>How many calls are left, so that nine end the constructor.\<close>

fun calls_left :: "listener_pc \<Rightarrow> nat" where
  "calls_left Looking = 9"
| "calls_left (Probing e) = 8"
| "calls_left Unlinking = 7"
| "calls_left MakingSocket = 6"
| "calls_left Binding = 5"
| "calls_left Chmodding = 4"
| "calls_left Stating = 3"
| "calls_left (Listening dev ino) = 2"
| "calls_left (Cleaning what) = 1"
| "calls_left (Refused what) = 0"
| "calls_left (Bound dev ino) = 0"

lemma calls_left_step: "calls_left (fst (listener_step os path s)) \<le> calls_left (fst s) - 1"
  by (induction os path s rule: listener_step.induct) (auto split: option.splits unlink_answer.splits)

lemma calls_left_after: "calls_left (fst (listener_after n os path fs)) \<le> 9 - n"
proof (induction n)
  case (Suc n)
  then show ?case
    using calls_left_step [of os path "listener_after n os path fs"] by (simp add: listener_after_def)
qed (simp add: listener_after_def)

lemma listener_ends: "\<exists>what dev ino. fst (listener_open os path fs) \<in> {Refused what, Bound dev ino}"
  using calls_left_after [of 9 os path fs]
  by (cases "fst (listener_open os path fs)") (auto simp: listener_open_def)

lemma unlink_same_inode_cases:
  "unlink_if_same_inode path dev ino fs = fs \<or>
   (\<exists>e. fs path = Some e \<and> de_dev e = dev \<and> de_ino e = ino) \<and> unlink_if_same_inode path dev ino fs = fs(path := None)"
  by (auto simp: unlink_if_same_inode_def split: option.splits)

end
