(* ===== verification/ListenerProps.thy ===== *)
theory ListenerProps
  imports Listener
begin

text \<open>The properties of the daemon's socket.\<close>

text \<open>
  C20. What the daemon's set-up of its socket keeps. At every moment of it: no other path is
  touched; an entry at the path that is no socket is as it was; a socket on which a process
  listens is as it was, provided that the probe could ask (the path fits an address, and the
  probe's own \<open>socket\<close> and \<open>connect\<close> calls do not fail for another reason), and the set-up never
  succeeds over either; and what is at the path is the old entry, nothing, or our socket with
  mode 0700 or 0600, never open to others. The set-up ends after nine calls; when it succeeds,
  our socket listens with mode 0600. Closing, also from the signal handler, removes a socket only
  if it is the one that was bound, whatever was done to the directory in between. Where the probe
  cannot ask, a running daemon's socket does go: \<open>unasked_daemon_unlinked\<close> and
  \<open>unasked_daemon_replaced\<close> below.
\<close>

theorem socket_kept_or_ours:
  assumes "listener_after n os path fs = (pc, fs')"
  shows "(\<forall>p. p = path \<or> fs' p = fs p) \<and>
    (\<forall>e. fs path = Some e \<longrightarrow>
      \<not> de_socket e \<or> de_live e \<and> fits_address path \<and> so_client os \<and> so_connect os = None \<longrightarrow>
      fs' = fs \<and> (\<forall>dev ino. pc \<noteq> Bound dev ino)) \<and>
    (fs' path = fs path \<or> fs' path = None \<or>
      (\<exists>mode \<in> {mode_0600, mode_0700}. \<exists>live. fs' path = Some (our_socket os mode live))) \<and>
    (n < 9 \<or> (\<exists>what. pc = Refused what) \<or> (\<exists>dev ino. pc = Bound dev ino)) \<and>
    (\<forall>dev ino. pc \<noteq> Bound dev ino \<or> fs' path = Some (our_socket os mode_0600 True) \<and>
      (\<forall>later p. on_signal path dev ino later p = later p \<or>
         p = path \<and> (\<exists>e. later path = Some e \<and> de_dev e = so_dev os \<and> de_ino e = so_ino os)))"
proof -
  have inv: "listener_inv os path fs (pc, fs')"
    using listener_inv_after [of os path fs n] unfolding assms .
  have "calls_left pc \<le> 9 - n" using calls_left_after [of n os path fs] by (simp add: assms)
  then have ended: "n < 9 \<or> (\<exists>what. pc = Refused what) \<or> (\<exists>dev ino. pc = Bound dev ino)"
    by (cases pc) auto
  have signal: "on_signal path dev ino later p = later p \<or> p = path \<and> (\<exists>e. later path = Some e \<and> de_dev e = dev \<and> de_ino e = ino)"
    for dev ino later p
    using unlink_same_inode_cases [of path dev ino later] by (auto simp: on_signal_def split: if_splits)
  have free: "removable os fs path \<Longrightarrow> free_or_stale os fs path" by (simp add: free_or_stale_def)
  have others: "\<forall>p. p = path \<or> fs' p = fs p" using inv by (auto simp: listener_inv_def)
  have stale: "free_or_stale os fs path \<or> fs' = fs"
    using inv free by (cases pc) (auto simp: listener_inv_def)
  have kept: "fs' = fs \<and> (\<forall>dev ino. pc \<noteq> Bound dev ino)" if "\<not> free_or_stale os fs path"
    using inv that stale by (cases pc) (auto simp: listener_inv_def)
  have entry: "fs' path = fs path \<or> fs' path = None \<or>
      (\<exists>mode \<in> {mode_0600, mode_0700}. \<exists>live. fs' path = Some (our_socket os mode live))"
    using inv by (cases pc) (auto simp: listener_inv_def split: if_splits)
  have bound: "dev = so_dev os \<and> ino = so_ino os \<and> fs' path = Some (our_socket os mode_0600 True)" if "pc = Bound dev ino" for dev ino
    using inv that by (simp add: listener_inv_def)
  show ?thesis
  proof (intro conjI allI)
    show "pc \<noteq> Bound dev ino \<or> fs' path = Some (our_socket os mode_0600 True) \<and>
      (\<forall>later p. on_signal path dev ino later p = later p \<or>
         p = path \<and> (\<exists>e. later path = Some e \<and> de_dev e = so_dev os \<and> de_ino e = so_ino os))" for dev ino
      using bound [of dev ino] signal [of dev ino] by blast
  qed (use others kept kept_entry [of fs path _ os] entry ended in blast)+
qed

definition working_os :: socket_os where
  "working_os =
     \<lparr>so_visible = True, so_client = True, so_connect = None, so_unlink = Unlinked, so_socket = None, so_bind = None,
      so_in_use = ''Address already in use'', so_chmod = None, so_stat = None, so_listen = None,
      so_cleanup = True, so_dev = 1, so_ino = 2\<rparr>"

definition left_socket :: "bool \<Rightarrow> dir_entry" where
  "left_socket live = \<lparr>de_socket = True, de_dev = 1, de_ino = 9, de_mode = mode_0600, de_live = live\<rparr>"

text \<open>A socket left behind by a daemon that was killed is replaced; one that answers is not.\<close>

theorem socket_kept_or_ours_witness:
  "(\<exists>fs'. listener_open working_os ''/r/s'' [''/r/s'' \<mapsto> left_socket False] = (Bound 1 2, fs') \<and>
     fs' ''/r/s'' = Some (our_socket working_os mode_0600 True)) \<and>
   (\<exists>what. listener_open working_os ''/r/s'' [''/r/s'' \<mapsto> left_socket True] = (Refused what, [''/r/s'' \<mapsto> left_socket True]))"
proof
  obtain pc fs' where run: "listener_after 9 working_os ''/r/s'' [''/r/s'' \<mapsto> left_socket False] = (pc, fs')"
    by (cases "listener_after 9 working_os ''/r/s'' [''/r/s'' \<mapsto> left_socket False]")
  have "fst (listener_after 9 working_os ''/r/s'' [''/r/s'' \<mapsto> left_socket False]) = Bound 1 2" by code_simp
  then have "pc = Bound 1 2" by (simp add: run)
  then show "\<exists>fs'. listener_open working_os ''/r/s'' [''/r/s'' \<mapsto> left_socket False] = (Bound 1 2, fs') \<and>
     fs' ''/r/s'' = Some (our_socket working_os mode_0600 True)"
    using socket_kept_or_ours [OF run] by (simp add: listener_open_def run)
next
  let ?fs = "[''/r/s'' \<mapsto> left_socket True]"
  obtain pc fs' where run: "listener_after 9 working_os ''/r/s'' ?fs = (pc, fs')"
    by (cases "listener_after 9 working_os ''/r/s'' ?fs")
  have "fits_address ''/r/s''" "de_live (left_socket True)" "so_client working_os" "so_connect working_os = None"
    by code_simp+
  then have "fs' = ?fs" "\<exists>what. pc = Refused what" using socket_kept_or_ours [OF run] by auto
  then show "\<exists>what. listener_open working_os ''/r/s'' ?fs = (Refused what, ?fs)"
    by (auto simp: listener_open_def run)
qed

text \<open>
  The probe cannot tell a daemon it could not ask from one that is gone. Where no socket can be
  made for it, the socket of a daemon that is running is removed, and then no socket can be made
  to listen either; where its \<open>connect\<close> fails, the daemon's socket is replaced.
\<close>

lemma unasked_daemon_replaced:
  "listener_open (working_os\<lparr>so_connect := Some ''Permission denied''\<rparr>) ''/r/s'' [''/r/s'' \<mapsto> left_socket True] =
     (Bound 1 2, [''/r/s'' \<mapsto> left_socket True](''/r/s'' \<mapsto> our_socket working_os mode_0600 True))"
  by (simp add: listener_open_def listener_after_def numeral_eq_Suc working_os_def left_socket_def connect_unix_def
      connect_call_def fits_address_def kSunPathBytes_def our_socket_def)

lemma unasked_daemon_unlinked:
  "listener_open (working_os\<lparr>so_client := False, so_socket := Some ''Too many open files''\<rparr>) ''/r/s''
     [''/r/s'' \<mapsto> left_socket True] = (Refused ''socket() failed: Too many open files'', [''/r/s'' \<mapsto> left_socket True](''/r/s'' := None))"
  by (simp add: listener_open_def listener_after_def numeral_eq_Suc working_os_def left_socket_def connect_unix_def
      fits_address_def kSunPathBytes_def)

end
