(* ===== verification/Delivery.thy ===== *)
theory Delivery
  imports RequestEffects
begin

text \<open>
  What a failed request leaves behind, on connections that may break anywhere: the client's line
  may be sent only in part, may arrive only in part, in any pieces, and the daemon's reply
  likewise. A line of which the newline is missing is never dispatched, so only a request that
  was sent completely can have been applied.
\<close>

section \<open>The daemon behind a connection that may break\<close>

text \<open>
  The process behind the socket is the daemon: whatever is sent, it serves a connection on which
  some first part of those bytes arrives, and what comes back is some first part of its output.
\<close>

definition daemon_end :: "libs \<Rightarrow> nat \<Rightarrow> string \<Rightarrow> (store \<times> world) peer \<Rightarrow> bool" where
  "daemon_end L uid tok P \<longleftrightarrow>
     (\<forall>bytes d ins d'. peer_answer P bytes d = (ins, d') \<longrightarrow>
        (\<exists>got lost snds r c cut. bytes = received got @ lost \<and>
           serve_connection L uid tok (connection_of got snds (Inr uid)) (fst d) (snd d) = (r, c, fst d', snd d') \<and>
           c_out c = received ins @ cut))"

lemma daemon_end_peer: "daemon_end L uid tok (daemon_peer L uid tok\<lparr>peer_sends := snds\<rparr>)"
  unfolding daemon_end_def
proof (intro allI impI)
  fix bytes ins and d d' :: "store \<times> world"
  assume "peer_answer (daemon_peer L uid tok\<lparr>peer_sends := snds\<rparr>) bytes d = (ins, d')"
  then obtain r c where s: "serve_connection L uid tok (connection_of [Received bytes] [] (Inr uid)) (fst d) (snd d) =
      (r, c, fst d', snd d')" "ins = [Received (c_out c)]"
    by (auto simp: daemon_peer_def daemon_answer_def split: prod.splits)
  moreover have "bytes = received [Received bytes] @ []" "c_out c = received ins @ []" using s(2) by simp_all
  ultimately show "\<exists>got lost snds r c cut. bytes = received got @ lost \<and>
      serve_connection L uid tok (connection_of got snds (Inr uid)) (fst d) (snd d) = (r, c, fst d', snd d') \<and>
      c_out c = received ins @ cut"
    by blast
qed

lemma daemon_endD:
  assumes "daemon_end L uid tok P" and "peer_answer P bytes d = (ins, d')"
  obtains got lost snds r c cut where "bytes = received got @ lost"
    "serve_connection L uid tok (connection_of got snds (Inr uid)) (fst d) (snd d) = (r, c, fst d', snd d')"
    "c_out c = received ins @ cut"
  using assms unfolding daemon_end_def by blast

text \<open>A part of a line without its newline changes nothing and is not answered.\<close>

lemma serve_no_line:
  assumes "LF \<notin> set (received got)"
    and "serve_connection L uid tok (connection_of got snds (Inr uid)) st w = (r, c, st', w')"
  shows "st' = st \<and> w' = w \<and> c_out c = []"
proof -
  let ?c = "connection_of got snds (Inr uid)"
  have "pending ?c = received got" by (simp add: pending_def connection_of_def)
  then obtain c1 where rl: "read_line kMaxRequestBytes ?c = (None, c1)"
    using read_line_nothing [OF conn_inv_fresh] assms(1) by (metis fresh_sends(3) le0 list.size(3))
  then show ?thesis
    using assms(2) read_line_frame [OF rl]
    by (auto simp: serve_connection_def fresh_sends serve_lines.simps [of L tok ?c])
qed

text \<open>A whole line is dispatched, and what is written back is the answer or a part of it.\<close>

lemma serve_line:
  assumes "received got = line @ [LF]" and "LF \<notin> set line" and "length line \<le> kMaxRequestBytes"
    and "parse_request L line = Inr (Some req)"
    and "serve_connection L uid tok (connection_of got snds (Inr uid)) st w = (r, c, st', w')"
  shows "\<exists>res. respond L tok req st w = (res, st', w') \<and>
    (case res of Inl e \<Rightarrow> c_out c = [] | Inr t \<Rightarrow> \<exists>cut. t @ [LF] = c_out c @ cut)"
proof -
  let ?c = "connection_of got snds (Inr uid)"
  have p: "pending ?c = line @ [LF]" using assms(1) by (simp add: pending_def connection_of_def)
  obtain c1 where rl: "read_line kMaxRequestBytes ?c = (Some line, c1)"
    using read_line_complete [OF conn_inv_fresh p assms(2,3)] by blast
  note first = read_line_Some [OF conn_inv_fresh _ rl, unfolded p fresh_sends]
  note frame = read_line_frame [OF rl, unfolded fresh_sends]
  have p1: "pending c1 = []" using first by simp
  obtain res st1 w1 where rs: "respond L tok req st w = (res, st1, w1)" by (cases "respond L tok req st w")
  have run: "serve_lines L tok ?c st w = (r, c, st', w')"
    using assms(5) by (simp add: serve_connection_def fresh_sends)
  show ?thesis
  proof (cases res)
    case (Inl e)
    then show ?thesis using run rl rs frame assms(4) by (simp add: serve_lines.simps [of L tok ?c])
  next
    case (Inr t)
    obtain ok c2 where wl: "write_line t c1 = (ok, c2)" by (cases "write_line t c1")
    have sent: "\<exists>cut. t @ [LF] = c_out c2 @ cut"
      using write_line_sent [OF wl] frame by (cases ok) auto
    have "st' = st1 \<and> w' = w1 \<and> c_out c = c_out c2"
    proof (cases ok)
      case False
      then show ?thesis using run rl rs assms(4) Inr wl by (simp add: serve_lines.simps [of L tok ?c])
    next
      case True
      have "conn_inv c2" "pending c2 = []" "length (c_buffer c2) \<le> kMaxRequestBytes + chunk_size"
        using first p1 write_line_pending [OF wl] write_line_out(2) [OF wl] by simp_all
      then obtain c3 where c3: "read_line kMaxRequestBytes c2 = (None, c3)"
        using read_line_nothing by fastforce
      then show ?thesis
        using True run rl rs assms(4) Inr wl read_line_frame [OF c3]
        by (simp add: serve_lines.simps [of L tok ?c] serve_lines.simps [of L tok c2])
    qed
    then show ?thesis using rs Inr sent by simp
  qed
qed

lemma line_part:
  assumes "line @ [LF] = a @ b"
  shows "b = [] \<or> (\<exists>b'. line = a @ b')"
  using assms by (cases b rule: rev_cases) auto

lemma respond_object:
  assumes "respond L tok req st w = (Inr t, st', w')"
  shows "\<exists>ms. json_dump L (json_object ms) = Inr t"
  using assms
  by (auto simp: respond_def read_clock_run dispatch_def bindM_Inr error_response_def ok_response_def ok_value_def
      ok_keys_def ok_values_def split: if_splits prod.splits sum.splits exn.splits option.splits)

lemma reply_parses:
  assumes "libs_ok L" and "respond L tok req st w = (Inr t, st', w')"
  shows "json_parse L t \<noteq> None \<and> LF \<notin> set t"
proof -
  obtain ms m where m: "json_dump L (JObject m) = Inr t" "json_object ms = JObject m"
    using respond_object [OF assms(2)] by (auto simp: json_object_def)
  then show ?thesis
    using libs_json_round [OF assms(1) json_object_inv [OF m(2)] m(1)] libs_one_line [OF assms(1) m(1)] by simp
qed

section \<open>What a failure means\<close>

text \<open>Without a reply: either nothing happened, or the failure says the request was sent.\<close>

lemma send_failure:
  assumes "libs_ok L" and "daemon_end L uid tok P"
    and "send L uid P cl (make_request op key v) d = (Inl e, d')"
  shows "d' = d \<or> (\<exists>what timed_out seconds. e = DaemonUnreachable what Sent timed_out seconds)"
proof (rule ccontr)
  assume "\<not> ?thesis"
  then have ne: "d' \<noteq> d" "\<And>what timed_out seconds. e \<noteq> DaemonUnreachable what Sent timed_out seconds" by auto
  obtain line where line: "serialize L cl (make_request op key v) = Inr line"
    using assms(3) ne(1) by (auto simp: send_def split: if_splits sum.splits option.splits)
  note wire = parse_serialized [OF assms(1) line]
  let ?c = "connection_of [] (peer_sends P) (Inr uid)"
  obtain ok c1 where wl: "write_line line ?c = (ok, c1)" by (cases "write_line line ?c")
  obtain ins d1 where ans: "peer_answer P (c_out c1) d = (ins, d1)" by (cases "peer_answer P (c_out c1) d")
  obtain got lost snds r c cut where served: "c_out c1 = received got @ lost"
    "serve_connection L uid tok (connection_of got snds (Inr uid)) (fst d) (snd d) = (r, c, fst d1, snd d1)"
    "c_out c = received ins @ cut"
    by (rule daemon_endD [OF assms(2) ans])
  have sent: "if ok then c_out c1 = line @ [LF] else \<exists>s. line = c_out c1 @ s"
    using write_line_sent [OF wl] by (auto simp: fresh_sends split: if_splits)
  have d1: "d1 = d'"
    using assms(3) ne line wl ans
    by (cases ok) (auto simp: send_def no_reply_error_def Let_def split: if_splits sum.splits option.splits prod.splits)
  have got: "received got = line @ [LF]"
  proof (rule ccontr)
    assume no: "received got \<noteq> line @ [LF]"
    have "\<exists>s. line = received got @ s"
    proof (cases ok)
      case True
      then show ?thesis using sent served(1) no line_part [of line "received got" lost] by auto
    next
      case False
      then show ?thesis using sent served(1) by auto
    qed
    then have "LF \<notin> set (received got)" using wire(2) by auto
    then show False using serve_no_line [OF _ served(2)] ne(1) d1 by (simp add: prod_eq_iff)
  qed
  then have ok: "ok" using sent served(1) by (cases ok) auto
  obtain res where res: "respond L tok (wire_request cl op key v) (fst d) (snd d) = (res, fst d1, snd d1)"
    "case res of Inl e \<Rightarrow> c_out c = [] | Inr t \<Rightarrow> \<exists>cut. t @ [LF] = c_out c @ cut"
    using serve_line [OF got wire(2,3,1) served(2)] by blast
  let ?c2 = "c1\<lparr>c_in := ins\<rparr>"
  obtain o1 c3 where rl: "read_line kMaxResponseBytes ?c2 = (o1, c3)" by (cases "read_line kMaxResponseBytes ?c2")
  obtain l where l: "o1 = Some l" "json_parse L l = None"
    using assms(3) ne line wl ok ans rl
    by (cases o1) (auto simp: send_def no_reply_error_def Let_def split: if_splits sum.splits option.splits prod.splits)
  have inv: "conn_inv ?c2" "c_buffer ?c2 = []"
    using write_line_out(2) [OF wl] by (simp_all add: conn_inv_def connection_of_def)
  have "received ins = l @ LF # pending c3" "LF \<notin> set l"
    using read_line_Some [OF inv(1) _ rl [unfolded l(1)]] inv(2) by (simp_all add: pending_def)
  then obtain t where t: "res = Inr t" "\<exists>cut. t @ [LF] = (l @ LF # pending c3) @ cut"
    using res(2) served(3) by (cases res) auto
  have p: "json_parse L t \<noteq> None" "LF \<notin> set t" using reply_parses [OF assms(1) res(1) [unfolded t(1)]] by simp_all
  then have "t = l"
    using t(2) \<open>LF \<notin> set l\<close> by (metis append_Cons append_assoc find_char_append append_eq_append_conv option.inject)
  then show False using l(2) p(1) by simp
qed

text \<open>
  With a reply that is not ok, the daemon that accepted the request and the daemon that did not
  have this in common: the secrets are as they were.
\<close>

lemma kv_spec_refuses:
  assumes "response_ok L (fst (kv_spec req m)) \<noteq> Inr True"
  shows "snd (kv_spec req m) = m"
proof (rule ccontr)
  assume c: "snd (kv_spec req m) \<noteq> m"
  then have "fst (kv_spec req m) = success [] \<or> m (r_key req) = None \<and> r_op req = ''delete''"
    by (auto simp: kv_spec_def Let_def split: if_splits option.splits)
  moreover have "response_ok L (success []) = Inr True" by (rule success_ok) simp
  moreover have "m (r_key req) = None \<Longrightarrow> m(r_key req := None) = m" by auto
  ultimately show False using assms c by (auto simp: kv_spec_def Let_def split: if_splits)
qed

lemma send_refused:
  assumes "libs_ok L" and "served_ok L d" and "daemon_end L uid tok P"
    and "send L uid P cl (make_request op key v) d = (Inr resp, d')" and "response_ok L resp \<noteq> Inr True"
  shows "served_view d' = served_view d"
proof -
  obtain line where line: "serialize L cl (make_request op key v) = Inr line"
    using assms(4) by (auto simp: send_def split: if_splits sum.splits option.splits)
  note wire = parse_serialized [OF assms(1) line]
  let ?c = "connection_of [] (peer_sends P) (Inr uid)" and ?rq = "wire_request cl op key v"
  obtain ok c1 where wl: "write_line line ?c = (ok, c1)" by (cases "write_line line ?c")
  obtain ins d1 where ans: "peer_answer P (c_out c1) d = (ins, d1)" by (cases "peer_answer P (c_out c1) d")
  let ?c2 = "c1\<lparr>c_in := ins\<rparr>"
  obtain o1 c3 where rl: "read_line kMaxResponseBytes ?c2 = (o1, c3)" by (cases "read_line kMaxResponseBytes ?c2")
  obtain l where l: "ok" "o1 = Some l" "json_parse L l = Some resp" "d1 = d'"
    using assms(4) line wl ans rl
    by (cases ok; cases o1) (auto simp: send_def split: if_splits sum.splits option.splits prod.splits)
  have inv: "conn_inv ?c2" "c_buffer ?c2 = []"
    using write_line_out(2) [OF wl] by (simp_all add: conn_inv_def connection_of_def)
  have reply: "received ins = l @ LF # pending c3" "LF \<notin> set l"
    using read_line_Some [OF inv(1) _ rl [unfolded l(2)]] inv(2) by (simp_all add: pending_def)
  obtain got lost snds r c cut where served: "c_out c1 = received got @ lost"
    "serve_connection L uid tok (connection_of got snds (Inr uid)) (fst d) (snd d) = (r, c, fst d1, snd d1)"
    "c_out c = received ins @ cut"
    by (rule daemon_endD [OF assms(3) ans])
  have "c_out c1 = line @ [LF]" using write_line_sent [OF wl] l(1) by (simp add: fresh_sends)
  moreover have "LF \<in> set (received got)"
    using serve_no_line [OF _ served(2)] served(3) reply(1) by auto
  ultimately have got: "received got = line @ [LF]"
    using served(1) line_part [of line "received got" lost] wire(2) by auto
  obtain res where res: "respond L tok ?rq (fst d) (snd d) = (res, fst d1, snd d1)"
    "case res of Inl e \<Rightarrow> c_out c = [] | Inr t \<Rightarrow> \<exists>cut. t @ [LF] = c_out c @ cut"
    using serve_line [OF got wire(2,3,1) served(2)] by blast
  then obtain t where t: "res = Inr t" "\<exists>cut. t @ [LF] = (l @ LF # pending c3) @ cut"
    using served(3) reply(1) by (cases res) auto
  have "LF \<notin> set t" using reply_parses [OF assms(1) res(1) [unfolded t(1)]] by simp
  then have "t = l"
    using t(2) reply(2) by (metis append_Cons append_assoc find_char_append append_eq_append_conv option.inject)
  have "store_view (fst d1) = store_view (fst d)"
  proof (cases "dc_token cl = tok")
    case False
    then show ?thesis
      using respond_bad_token [OF assms(1), of ?rq tok] res(1) by (fastforce simp: wire_request_def)
  next
    case True
    then have token: "r_token ?rq = tok" by (simp add: wire_request_def)
    have ok: "service_ok L (fst d)" using assms(2) by (simp add: served_ok_def)
    from assms(1) ok token res(1) [unfolded t(1)] show ?thesis
    proof (cases rule: respond_cases)
      case answered
      obtain ms where ms: "fst (kv_spec ?rq (store_view (fst d))) = json_object ms" using kv_spec_object by blast
      then have "resp = json_object ms"
        using object_dump_parse [OF assms(1) _ l(3)] answered(2) \<open>t = l\<close> by simp
      then show ?thesis using answered(3) kv_spec_refuses assms(5) ms by metis
    qed simp
  qed
  then show ?thesis using l(4) by (simp add: served_view_def)
qed

text \<open>The two cases of a request of the backend.\<close>

lemma request_fails:
  assumes "request L uid P cl op key v d = (Inl e, d')"
  obtains (unanswered) "send L uid P cl (make_request op key v) d = (Inl e, d')"
    | (refused) resp where "send L uid P cl (make_request op key v) d = (Inr resp, d')"
      "response_ok L resp \<noteq> Inr True" "\<And>what at t s. e \<noteq> DaemonUnreachable what at t s" "\<And>b. e \<noteq> BackendFailure b"
proof -
  obtain r d1 where s: "send L uid P cl (make_request op key v) d = (r, d1)"
    by (cases "send L uid P cl (make_request op key v) d")
  have kinds: "response_error L resp \<noteq> DaemonUnreachable what at t s" "response_error L resp \<noteq> BackendFailure b"
    "response_ok L resp \<noteq> Inl (DaemonUnreachable what at t s)" "response_ok L resp \<noteq> Inl (BackendFailure b)"
    for resp what at t s b
    by (auto simp: response_error_def response_ok_def split: json.splits sum.splits option.splits)
  show ?thesis
  proof (cases r)
    case (Inl e1)
    then show ?thesis using unanswered assms s by (simp add: request_def request_raw_def bindR_def)
  next
    case (Inr resp)
    then have "d1 = d'" "response_ok L resp \<noteq> Inr True"
      "e = response_error L resp \<or> response_ok L resp = Inl e"
      using assms s by (auto simp: request_def request_raw_def bindR_def split: sum.splits if_splits)
    then show ?thesis using refused [of resp] s Inr kinds by blast
  qed
qed

lemma send_marks:
  assumes "send L uid P cl req d = (Inl (DaemonUnreachable what Sent timed_out seconds), d')"
  shows "\<exists>line conn. serialize L cl req = Inr line \<and>
    write_line line (connection_of [] (peer_sends P) (Inr uid)) = (True, conn) \<and>
    fst (read_line kMaxResponseBytes (conn\<lparr>c_in := fst (peer_answer P (c_out conn) d)\<rparr>)) = None"
  using assms
  by (auto simp: send_def op_of_def serialize_def split: if_splits sum.splits option.splits prod.splits bool.splits)

lemma send_kinds: "send L uid P cl req d = (Inl e, d') \<Longrightarrow> e \<noteq> BackendFailure b"
  by (auto simp: send_def no_reply_error_def Let_def op_of_def serialize_def
      split: if_splits sum.splits option.splits prod.splits bool.splits)

lemma typed_maybe_applied:
  "e \<noteq> BackendFailure b \<Longrightarrow> typed_error e = BackendFailure b \<Longrightarrow>
   be_maybe_applied b \<longleftrightarrow> (\<exists>what timed_out seconds. e = DaemonUnreachable what Sent timed_out seconds)"
  by (auto simp: typed_error_def backend_error_of_def split: client_error.splits if_splits)

lemma typed_unreachable:
  "e \<noteq> BackendFailure b \<Longrightarrow> typed_error e = BackendFailure b \<Longrightarrow>
   be_kind b = UnreachableKind \<longleftrightarrow> (\<exists>what at timed_out seconds. e = DaemonUnreachable what at timed_out seconds)"
  by (auto simp: typed_error_def backend_error_of_def split: client_error.splits if_splits)

end
