(* ===== verification/ClientProps.thy ===== *)
theory ClientProps
  imports Examples Delivery
begin

text \<open>
  The properties of reading the store, of the framing, of the client and its backend, and of
  what is read from the terminal and the environment.
\<close>

section \<open>A store with three secrets\<close>

definition two_store :: store where
  "two_store = toy_store\<lparr>st_data := [(''a/b/x'', JString ''1''), (''a/b/z'', JString ''3''), (''a/c'', JString ''2'')]\<rparr>"

lemma two_service: "service_ok toy two_store"
  using toy_wf by (auto simp: service_ok_def two_store_def wf_store_def smap_inv_def text_store_def)

section \<open>Framing\<close>

text \<open>
  C36. Framing loses and invents nothing, whatever pieces the kernel takes the line in: when
  \<open>write_line\<close> succeeds the peer has been sent the line and its newline, and the other side reads
  exactly that line, however the bytes are cut into chunks and whatever signals interrupt the
  reads, with what follows it still to be read. It succeeds unless a \<open>send\<close> fails or times out;
  when it fails, a first part of the line without the newline has been sent, and a reader that
  then sees the end of the stream gets no line.
\<close>

theorem line_arrives:
  assumes "LF \<notin> set line" and "length line \<le> m" and "write_line line c = (ok, c1)"
  shows "(SendTimeout \<notin> set (c_sends c) \<and> SendFailed \<notin> set (c_sends c) \<longrightarrow> ok) \<and>
    (\<exists>sent. c_out c1 = c_out c @ sent \<and> (\<exists>lost. line @ [LF] = sent @ lost \<and> (ok \<longleftrightarrow> lost = [])) \<and>
      (\<forall>ins snds peer rest. received ins = sent @ rest \<longrightarrow>
        (ok \<longrightarrow> (\<exists>c'. read_line m (connection_of ins snds peer) = (Some line, c') \<and> pending c' = rest)) \<and>
        (\<not> ok \<and> rest = [] \<longrightarrow> (\<exists>c'. read_line m (connection_of ins snds peer) = (None, c')))))"
proof -
  obtain sent where sent: "c_out c1 = c_out c @ sent" "if ok then sent = line @ [LF] else \<exists>s. line = sent @ s"
    using write_line_sent [OF assms(3)] by blast
  have pending: "pending (connection_of ins snds peer) = received ins" for ins snds peer
    by (simp add: pending_def connection_of_def)
  have got: "\<exists>c'. read_line m (connection_of ins snds peer) = (Some line, c') \<and> pending c' = rest"
    if "ok" "received ins = sent @ rest" for ins snds peer rest
  proof -
    have p: "pending (connection_of ins snds peer) = line @ LF # rest" using that sent(2) pending by simp
    obtain c' where r: "read_line m (connection_of ins snds peer) = (Some line, c')"
      using read_line_complete [OF conn_inv_fresh p assms(1,2)] by blast
    then show ?thesis using read_line_Some [OF conn_inv_fresh _ r] p by (simp add: fresh_sends)
  qed
  have none: "\<exists>c'. read_line m (connection_of ins snds peer) = (None, c')"
    if "\<not> ok" "received ins = sent" for ins snds peer
    using read_line_nothing [OF conn_inv_fresh, of ins snds peer m] that sent(2) assms(1) pending
    by (auto simp: fresh_sends)
  have lost: "\<exists>lost. line @ [LF] = sent @ lost \<and> (ok \<longleftrightarrow> lost = [])"
    using sent(2) by (cases ok) auto
  have "SendTimeout \<notin> set (c_sends c) \<and> SendFailed \<notin> set (c_sends c) \<longrightarrow> ok"
    using send_rest_all [of c "line @ [LF]" 0] assms(3) by (simp add: write_line_def)
  then show ?thesis using sent(1) lost got none by auto
qed

theorem line_arrives_witness:
  "\<exists>c1. write_line ''hey'' (connection_of [] [Took 2, SendInterrupted, Took 0, Took 9] (Inr 7)) = (True, c1) \<and>
     c_out c1 = ''hey'' @ [LF] \<and>
     (\<exists>c'. read_line 10 (connection_of [Received ''he'', RecvInterrupted, Received (''y'' @ [LF, CHR ''z''])] [] (Inr 7)) =
       (Some ''hey'', c') \<and> pending c' = ''z'')"
proof -
  let ?c = "connection_of [] [Took 2, SendInterrupted, Took 0, Took 9] (Inr 7)"
  obtain ok c1 where w: "write_line ''hey'' ?c = (ok, c1)" by (cases "write_line ''hey'' ?c")
  have line: "LF \<notin> set ''hey''" "length ''hey'' \<le> 10" by simp_all
  note t = line_arrives [OF line w]
  have ok: "ok" using t by (simp add: fresh_sends)
  then have out: "c_out c1 = ''hey'' @ [LF]" using t by (auto simp: fresh_sends)
  have "\<exists>c'. read_line 10 (connection_of [Received ''he'', RecvInterrupted, Received (''y'' @ [LF, CHR ''z''])] [] (Inr 7)) =
      (Some ''hey'', c') \<and> pending c' = ''z''"
    using t ok out by (simp add: fresh_sends)
  moreover have "write_line ''hey'' ?c = (True, c1)" using w ok by simp
  ultimately show ?thesis using out by (intro exI [of _ c1]) simp
qed

text \<open>
  C37. What \<open>read_line\<close> hands out is the next line of the stream, without its newline, and what
  it buffers is bounded whatever the peer sends: the line, its newline and what was read beyond
  it are together no longer than the limit and one chunk, and when no line is handed out, a peer
  that sends no newline included, the buffer itself is no longer than that.
\<close>

theorem line_bounded:
  assumes "conn_inv c" and "length (c_buffer c) \<le> m + 4096" and "read_line m c = (o1, c')"
  shows "case o1 of
      None \<Rightarrow> length (c_buffer c') \<le> m + 4096
    | Some line \<Rightarrow> pending c = line @ LF # pending c' \<and> LF \<notin> set line \<and>
        length line + 1 + length (c_buffer c') \<le> m + 4096 \<and> conn_inv c'"
proof -
  have len: "length (c_buffer c) \<le> m + chunk_size" using assms(2) by (simp add: chunk_size_def)
  show ?thesis
    using read_line_buffer [OF assms(1) len assms(3)] read_line_Some [OF assms(1) len] assms(3)
    by (cases o1) (auto simp: chunk_size_def)
qed

theorem line_bounded_witness:
  "(\<exists>c'. read_line 3 (connection_of [Received (''hello'' @ [LF])] [] (Inr 7)) = (Some ''hello'', c') \<and>
     received [Received (''hello'' @ [LF])] = ''hello'' @ LF # pending c' \<and> 3 < length ''hello'') \<and>
   (\<exists>c'. read_line 3 (connection_of [Received (replicate 6000 CHR ''a'')] [] (Inr 7)) = (None, c') \<and>
     length (c_buffer c') \<le> 4099)"
proof
  have bounds: "length (c_buffer (connection_of ins snds peer)) \<le> 3 + 4096" for ins snds peer
    by (simp add: connection_of_def)
  have "fst (read_line 3 (connection_of [Received (''hello'' @ [LF])] [] (Inr 7))) = Some ''hello''"
    by (simp add: read_line.simps connection_of_def find_newline_def Let_def chunk_size_def)
  then obtain c' where r: "read_line 3 (connection_of [Received (''hello'' @ [LF])] [] (Inr 7)) = (Some ''hello'', c')"
    by (cases "read_line 3 (connection_of [Received (''hello'' @ [LF])] [] (Inr 7))") simp
  show "\<exists>c'. read_line 3 (connection_of [Received (''hello'' @ [LF])] [] (Inr 7)) = (Some ''hello'', c') \<and>
     received [Received (''hello'' @ [LF])] = ''hello'' @ LF # pending c' \<and> 3 < length ''hello''"
    using line_bounded [OF conn_inv_fresh bounds r] r by (simp add: pending_def connection_of_def)
  let ?c = "connection_of [Received (replicate 6000 CHR ''a'')] [] (Inr 7)"
  have "LF \<notin> set (pending ?c)" by (simp add: pending_def connection_of_def)
  then obtain c2 where r2: "read_line 3 ?c = (None, c2)"
    using read_line_nothing [OF conn_inv_fresh, of "[Received (replicate 6000 CHR ''a'')]" "[]" "Inr 7" 3]
    by (auto simp: connection_of_def)
  show "\<exists>c'. read_line 3 ?c = (None, c') \<and> length (c_buffer c') \<le> 4099"
    using line_bounded [OF conn_inv_fresh bounds r2] r2 by simp
qed

section \<open>The local backend\<close>

text \<open>
  C16. Equivalence of the batched fetch with the plain one: grouping the paths by prefix and
  fetching whole scopes gives, for every path asked for and for no other, the stored value, or
  a NotFound failure when there is none. No other kind of failure is reported per path, and
  the store is left alone.
\<close>

theorem fetch_is_lookup:
  assumes "libs_ok L" and "served_ok L d"
    and "get_many L uid (daemon_peer L uid (dc_token cl)) cl ps d = (Inr f, d')"
  shows "served_ok L d' \<and> served_view d' = served_view d \<and>
    (\<forall>p. map_of (f_values f) p = (if p \<in> set ps then served_view d p else None)) \<and>
    (\<forall>p. map_of (f_failures f) p \<noteq> None \<longleftrightarrow> p \<in> set ps \<and> served_view d p = None) \<and>
    (\<forall>p e. map_of (f_failures f) p = Some e \<longrightarrow> be_kind e = NotFound)"
  using get_many_returns [OF assms] by (simp add: fetched_inv_def)

lemma toy_scope:
  "\<exists>d'. request toy 7 (daemon_peer toy 7 (dc_token toy_client)) toy_client ''getprefix'' ''a/b/'' None (two_store, toy_world)
     = (Inr (success [(''values'', JObject [(''a/b/x'', JString ''1''), (''a/b/z'', JString ''3'')])]), d')"
proof -
  let ?rq = "wire_request toy_client ''getprefix'' ''a/b/'' None"
  let ?w = "toy_world\<lparr>w_tick := Suc (w_tick toy_world)\<rparr>"
  have g: "get_prefix toy ''a/b/'' two_store = Inr [(''a/b/x'', ''1''), (''a/b/z'', ''3'')]" by code_simp
  then have r: "restrict_prefix ''a/b/'' (store_view two_store) = [(''a/b/x'', ''1''), (''a/b/z'', ''3'')]"
    using get_prefix_spec [OF two_service, of "''a/b/''"] by simp
  have "case ok_values toy [(''a/b/x'', ''1''), (''a/b/z'', ''3'')] of Inl e \<Rightarrow> False | Inr t \<Rightarrow> length t \<le> 200" by code_simp
  then obtain t where t: "ok_values toy [(''a/b/x'', ''1''), (''a/b/z'', ''3'')] = Inr t" "length t \<le> 200" by (auto split: sum.splits)
  then have d: "dispatch toy ?rq (clock toy (w_tick toy_world)) two_store ?w = (Inr t, two_store, ?w)"
    using g by (simp add: dispatch_def wire_request_def bindM_def readM_def liftM_def)
  have dump: "case json_dump toy (JObject (smap_put ''token'' (JString (dc_token toy_client))
      (make_request ''getprefix'' ''a/b/'' None))) of Inl e \<Rightarrow> False | Inr l \<Rightarrow> length l \<le> 200"
    by code_simp
  then have fits: "check_request toy toy_client ''getprefix'' ''a/b/'' None = Inr ()"
    by (auto simp: check_request_def serialize_def kMaxRequestBytes_def split: sum.splits)
  have spec: "fst (kv_spec ?rq (store_view two_store)) = success [(''values'', JObject [(''a/b/x'', JString ''1''), (''a/b/z'', JString ''3'')])]"
    using r by (simp add: kv_spec_def wire_request_def)
  then have "answerable ?rq (store_view two_store)" by (auto simp: answerable_def)
  from request_completes [OF toy_ok two_service fits d _ this] t spec show ?thesis
    by (simp add: kMaxResponseBytes_def)
qed

lemma toy_fetches:
  "\<exists>f d'. get_many toy 7 (daemon_peer toy 7 (dc_token toy_client)) toy_client [''a/b/x'', ''a/b/y''] (two_store, toy_world)
     = (Inr f, d')"
proof -
  have "group_by_prefix [''a/b/x'', ''a/b/y''] = [(''a/b/'', [''a/b/x'', ''a/b/y''])]" by code_simp
  moreover obtain d' where "request toy 7 (daemon_peer toy 7 (dc_token toy_client)) toy_client ''getprefix'' ''a/b/'' None
      (two_store, toy_world) = (Inr (success [(''values'', JObject [(''a/b/x'', JString ''1''), (''a/b/z'', JString ''3'')])]), d')"
    using toy_scope by blast
  ultimately show ?thesis
    by (simp add: get_many_def fetch_scope_def local_request_def bindR_def liftR_def returnR_def throwR_def member_success
        items_def take_string_def fetch_one_def smap_emplace_def smap_put_def backend_error_of_def)
qed

lemma toy_fetches_both:
  "\<exists>d'. get_many toy 7 (daemon_peer toy 7 (dc_token toy_client)) toy_client [''a/b/x'', ''a/b/z''] (two_store, toy_world)
     = (Inr \<lparr>f_values = [(''a/b/x'', ''1''), (''a/b/z'', ''3'')], f_failures = []\<rparr>, d')"
proof -
  have "group_by_prefix [''a/b/x'', ''a/b/z''] = [(''a/b/'', [''a/b/x'', ''a/b/z''])]" by code_simp
  moreover have "''a/b/x'' < ''a/b/z''" "\<not> ''a/b/z'' < ''a/b/x''" by code_simp+
  moreover obtain d' where "request toy 7 (daemon_peer toy 7 (dc_token toy_client)) toy_client ''getprefix'' ''a/b/'' None
      (two_store, toy_world) = (Inr (success [(''values'', JObject [(''a/b/x'', JString ''1''), (''a/b/z'', JString ''3'')])]), d')"
    using toy_scope by blast
  ultimately show ?thesis
    by (simp add: get_many_def fetch_scope_def local_request_def bindR_def liftR_def returnR_def throwR_def member_success
        items_def take_string_def fetch_one_def smap_emplace_def smap_put_def)
qed

theorem fetch_is_lookup_witness:
  "\<exists>f d'. get_many toy 7 (daemon_peer toy 7 (dc_token toy_client)) toy_client [''a/b/x'', ''a/b/y''] (two_store, toy_world)
     = (Inr f, d') \<and> map_of (f_values f) ''a/b/x'' = Some ''1'' \<and> map_of (f_failures f) ''a/b/y'' \<noteq> None"
proof -
  obtain f d' where g: "get_many toy 7 (daemon_peer toy 7 (dc_token toy_client)) toy_client [''a/b/x'', ''a/b/y'']
      (two_store, toy_world) = (Inr f, d')"
    using toy_fetches by blast
  have view: "store_view two_store ''a/b/x'' = Some ''1'' \<and> store_view two_store ''a/b/y'' = None" by code_simp
  have ok: "served_ok toy (two_store, toy_world)" using two_service by (simp add: served_ok_def)
  have r: "\<forall>p. map_of (f_values f) p = (if p \<in> set [''a/b/x'', ''a/b/y''] then served_view (two_store, toy_world) p else None)"
    and m: "\<forall>p. map_of (f_failures f) p \<noteq> None \<longleftrightarrow> p \<in> set [''a/b/x'', ''a/b/y''] \<and> served_view (two_store, toy_world) p = None"
    using fetch_is_lookup [OF toy_ok ok g] by blast+
  have "map_of (f_values f) ''a/b/x'' = Some ''1''" using r [rule_format, of "''a/b/x''"] view by (simp add: served_view_def)
  moreover have "map_of (f_failures f) ''a/b/y'' \<noteq> None"
    using m [rule_format, of "''a/b/y''"] view by (simp add: served_view_def)
  ultimately show ?thesis using g by blast
qed

text \<open>
  C17. The client authenticates the daemon first: when the process behind the socket is not of
  the same user, nothing is sent (the answer does not depend on what the process would do with
  any bytes), and the request fails.
\<close>

theorem stranger_gets_nothing:
  assumes "peer_cred P \<noteq> Inr uid"
  shows "\<exists>e. \<forall>answer. send L uid (P\<lparr>peer_answer := answer\<rparr>) cl req d = (Inl e, d)"
  using assms
  by (cases "op_of L req"; cases "peer_timeout_error P"; cases "peer_cred P"; cases "peer_listens P d")
    (simp_all add: send_def)

definition thief :: "string peer" where
  "thief = \<lparr>peer_listens = \<lambda>d. True, peer_timeout_error = None, peer_cred = Inr 8, peer_sends = [],
     peer_answer = \<lambda>bytes d. ([], d @ bytes)\<rparr>"

theorem stranger_gets_nothing_witness:
  "\<exists>e. \<forall>answer. send toy 7 (thief\<lparr>peer_answer := answer\<rparr>) toy_client (make_request ''get'' ''a'' None) [] = (Inl e, [])"
  by (rule stranger_gets_nothing) (simp add: thief_def)

text \<open>
  C28. A failed request of the local backend says truthfully whether it may have been applied,
  on connections that break anywhere in either direction. Against the daemon behind such a
  connection: a failure marked \<open>maybe_applied\<close> means that the whole request was sent and no reply
  came; after any other failure the secrets are as they were, and when the daemon was
  unreachable (so when a request was sent only in part) the daemon did nothing at all.
\<close>

theorem unsent_is_unapplied:
  assumes "libs_ok L" and "served_ok L d" and "daemon_end L uid tok P"
    and "local_request L uid P cl op key v d = (Inl e, d')"
  shows "if \<exists>b. e = BackendFailure b \<and> be_maybe_applied b
    then \<exists>line conn. serialize L cl (make_request op key v) = Inr line \<and>
      write_line line (connection_of [] (peer_sends P) (Inr uid)) = (True, conn) \<and>
      fst (read_line kMaxResponseBytes (conn\<lparr>c_in := fst (peer_answer P (c_out conn) d)\<rparr>)) = None
    else served_view d' = served_view d \<and>
      (\<forall>b. e = BackendFailure b \<longrightarrow> be_kind b = UnreachableKind \<longrightarrow> d' = d)"
proof -
  obtain e1 where e1: "request L uid P cl op key v d = (Inl e1, d')" "e = typed_error e1"
    using assms(4) by (auto simp: local_request_def split: prod.splits sum.splits)
  from e1(1) show ?thesis
  proof (cases rule: request_fails)
    case unanswered
    note no_backend = send_kinds [OF unanswered]
    show ?thesis
    proof (cases "\<exists>what t s. e1 = DaemonUnreachable what Sent t s")
      case True
      then obtain what t s where "send L uid P cl (make_request op key v) d = (Inl (DaemonUnreachable what Sent t s), d')"
        using unanswered by blast
      note sent = send_marks [OF this]
      have "\<exists>b. e = BackendFailure b \<and> be_maybe_applied b"
        using True e1(2) by (auto simp: typed_error_def)
      then show ?thesis using sent by simp
    next
      case False
      then have "d' = d" using send_failure [OF assms(1,3) unanswered] by blast
      moreover have no: "\<not> (\<exists>b. e = BackendFailure b \<and> be_maybe_applied b)"
        using False typed_maybe_applied [OF no_backend] e1(2) by metis
      ultimately show ?thesis by (subst if_not_P [OF no]) simp
    qed
  next
    case (refused resp)
    have "served_view d' = served_view d" by (rule send_refused [OF assms(1-3) refused(1,2)])
    then show ?thesis
      using typed_maybe_applied [OF refused(4)] typed_unreachable [OF refused(4)] refused(3) e1(2) by metis
  qed
qed

definition broken_peer :: "(store \<times> world) peer" where
  "broken_peer = daemon_peer toy 7 toy_token\<lparr>peer_sends := [Took 3, SendTimeout]\<rparr>"

theorem unsent_is_unapplied_witness:
  "\<exists>b. local_request toy 7 broken_peer toy_client ''delete'' ''a/c'' None (two_store, toy_world) =
       (Inl (BackendFailure b), (two_store, toy_world)) \<and>
     \<not> be_maybe_applied b \<and> be_kind b = UnreachableKind"
proof -
  let ?req = "make_request ''delete'' ''a/c'' None" and ?d = "(two_store, toy_world)"
  have "case json_dump toy (JObject (smap_put ''token'' (JString (dc_token toy_client)) ?req)) of
      Inl e \<Rightarrow> False | Inr l \<Rightarrow> 10 \<le> length l \<and> length l \<le> 200"
    by code_simp
  then obtain l where l: "serialize toy toy_client ?req = Inr l" "10 \<le> length l"
    by (auto simp: serialize_def kMaxRequestBytes_def split: sum.splits)
  have w: "\<not> fst (write_line l (connection_of [] [Took 3, SendTimeout] (Inr 7)))"
    using l(2) by (simp add: write_line_def send_rest.simps connection_of_def Let_def)
  have op: "op_of toy ?req = Inr ''delete''" by code_simp
  obtain what t s d' where s: "send toy 7 broken_peer toy_client ?req ?d = (Inl (DaemonUnreachable what NotSent t s), d')"
    using w l(1) op
    by (cases "write_line l (connection_of [] [Took 3, SendTimeout] (Inr 7))")
      (auto simp: send_def broken_peer_def daemon_peer_def)
  define b where "b = (backend_error_of UnreachableKind what)
    \<lparr>be_maybe_applied := False, be_timed_out := t, be_timeout_seconds := s, be_not_running := False\<rparr>"
  have r: "local_request toy 7 broken_peer toy_client ''delete'' ''a/c'' None ?d = (Inl (BackendFailure b), d')"
    using s by (simp add: local_request_def request_def request_raw_def bindR_def typed_error_def b_def)
  have kind: "\<not> be_maybe_applied b" "be_kind b = UnreachableKind" by (simp_all add: b_def backend_error_of_def)
  have "served_ok toy ?d" using two_service by (simp add: served_ok_def)
  moreover have "daemon_end toy 7 toy_token broken_peer" unfolding broken_peer_def by (rule daemon_end_peer)
  ultimately have "d' = ?d" using unsent_is_unapplied [OF toy_ok _ _ r] kind by auto
  then show ?thesis using r kind by blast
qed

end
