(* ===== verification/CommandProps.thy ===== *)
theory CommandProps
  imports ClientProps
begin

text \<open>
  The properties of the commands and of what they take from the command line, the terminal and
  the environment, on a toy system with one manifest.
\<close>

section \<open>A toy system\<close>

definition our_dir :: file_stat where
  "our_dir = \<lparr>fs_uid = 7, fs_gid = 7, fs_group_writable = False, fs_world_writable = False,
     fs_is_dir = True, fs_is_regular = False\<rparr>"

definition our_file :: file_stat where
  "our_file = our_dir\<lparr>fs_is_dir := False, fs_is_regular := True\<rparr>"

definition toy_system :: system where
  "toy_system =
     \<lparr>sys_uid = 7, sys_account = Some (''me'', 7), sys_group = \<lambda>gid. None, sys_groups = [], sys_groups_error = None,
      sys_accounts = [], sys_accounts_error = None,
      sys_stat = \<lambda>p. Inr our_dir, sys_path_acl = \<lambda>p. NoAcl, sys_canonical = \<lambda>p. Inr p, sys_open = \<lambda>p. Inr 3,
      sys_fstat = \<lambda>fd. Inr our_file, sys_fd_acl = \<lambda>fd. NoAcl, sys_read_all = \<lambda>fd. Inr ''manifest'',
      sys_exists_nofollow = \<lambda>p. p = ''/p/.secretov.yaml'', sys_accessible = \<lambda>p. True, sys_writable = \<lambda>p. None,
      sys_env = [''PATH'' \<mapsto> ''/bin'', ''HOME'' \<mapsto> ''/h'']\<rparr>"

definition toy_manifest :: yaml where
  "toy_manifest = YMap
     [(YScalar ''name'', YScalar ''app''), (YScalar ''default_env'', YScalar ''dev''),
      (YScalar ''env'', YMap [(YScalar ''dev'', YMap [(YScalar ''vars'', YMap [(YScalar ''MODE'', YScalar ''test'')])])])]"

definition toy_yaml :: yaml_lib where
  "toy_yaml = \<lparr>yaml_load = \<lambda>t. Inr toy_manifest,
     yaml_string = \<lambda>n. case n of YScalar s \<Rightarrow> Inr s | _ \<Rightarrow> Inl ''bad conversion'', yaml_subscript_error = \<lambda>k. ''bad subscript''\<rparr>"

lemma toy_system_ok: "system_ok toy_system"
  by (simp add: system_ok_def toy_system_def)

section \<open>exec\<close>

text \<open>
  C10. A manifest cannot take over the child: without \<open>--secret\<close> on the command line, every
  variable the program refuses to set from a manifest has in the child's environment the value
  it has in ours, whatever the manifest, the registry and the daemon hold; the one exception is
  the list of injected names.
\<close>

theorem exec_keeps_refused:
  assumes "cmd_exec L S Y paths cwd client P argv d = (Launch prog env', d')"
    and "exec_args_of argv \<lparr>ex_scope = no_scope, ex_dry_run = False, ex_raw = [], ex_program = []\<rparr> = Inr args"
    and "ex_raw args = []" and "\<not> is_identifier name \<or> is_denied_env_name name" and "name \<noteq> kInjectedVar"
  shows "env' name = sys_env S name"
  using exec_env_kept [OF assms(1-3) _ assms(5)] assms(4) by (simp add: safe_var_def)

definition exec_run :: "exec_outcome \<times> string" where
  "exec_run = cmd_exec toy toy_system toy_yaml toy_paths (Inr ''/p'') (Inr toy_client) thief [''--'', ''prog''] []"

theorem exec_keeps_refused_witness:
  "\<exists>env' d'. exec_run = (Launch [''prog''] env', d') \<and> env' ''MODE'' = Some ''test'' \<and> env' ''PATH'' = Some ''/bin''"
proof -
  have "case fst exec_run of Launch prog env' \<Rightarrow> prog = [''prog''] \<and> env' ''MODE'' = Some ''test'' | _ \<Rightarrow> False"
    by code_simp
  then obtain env' where e: "fst exec_run = Launch [''prog''] env'" "env' ''MODE'' = Some ''test''"
    by (auto split: exec_outcome.splits)
  then have "exec_run = (Launch [''prog''] env', snd exec_run)" by (simp add: prod_eq_iff)
  then have run: "cmd_exec toy toy_system toy_yaml toy_paths (Inr ''/p'') (Inr toy_client) thief [''--'', ''prog''] [] =
      (Launch [''prog''] env', snd exec_run)"
    unfolding exec_run_def .
  have args: "exec_args_of [''--'', ''prog''] \<lparr>ex_scope = no_scope, ex_dry_run = False, ex_raw = [], ex_program = []\<rparr> =
      Inr \<lparr>ex_scope = no_scope, ex_dry_run = False, ex_raw = [], ex_program = [''prog'']\<rparr>"
    by (simp add: exec_args_of.simps)
  have "is_denied_env_name ''PATH''" "''PATH'' \<noteq> kInjectedVar" by code_simp+
  then have "env' ''PATH'' = sys_env toy_system ''PATH''"
    using exec_keeps_refused [OF run args] by simp
  moreover have "sys_env toy_system ''PATH'' = Some ''/bin''" by (simp add: toy_system_def)
  ultimately have "env' ''PATH'' = Some ''/bin''" by simp
  then show ?thesis using e(2) run unfolding exec_run_def by blast
qed

text \<open>
  C13. What \<open>exec\<close> injects is what was asked for: when it launches, every wanted secret had a
  value in the store, the child's environment is ours with the manifest's plain variables, then
  those values, in order, and the store is untouched. A missing secret never launches.
\<close>

theorem exec_injects_stored:
  assumes "libs_ok L" and "served_ok L d"
    and "cmd_exec L S Y paths cwd (Inr cl) (daemon_peer L (sys_uid S) (dc_token cl)) argv d = (Launch prog env', d')"
  shows "\<exists>args config wanted plain secrets.
    exec_args_of argv \<lparr>ex_scope = no_scope, ex_dry_run = False, ex_raw = [], ex_program = []\<rparr> = Inr args \<and>
    exec_wanted S Y paths cwd args = Inr (config, wanted, plain) \<and>
    list_all2 (\<lambda>(n, p) (n', v). n' = n \<and> served_view d p = Some v) wanted secrets \<and>
    (\<forall>name. name \<noteq> kInjectedVar \<longrightarrow>
       env' name = (sys_env S ++ map_of (rev (map (\<lambda>(n, v). (c_str n, c_str v)) (plain @ secrets)))) name) \<and>
    served_ok L d' \<and> served_view d' = served_view d"
  using exec_env_values [OF assms] .

theorem exec_injects_stored_witness:
  "\<exists>env' d'. cmd_exec toy toy_system toy_yaml toy_paths (Inr ''/p'') (Inr toy_client)
       (daemon_peer toy (sys_uid toy_system) (dc_token toy_client))
       [''--secret'', ''a/b/x=X'', ''--secret'', ''a/b/z=Z'', ''--'', ''prog''] (two_store, toy_world) = (Launch [''prog''] env', d') \<and>
     served_view d' = served_view (two_store, toy_world)"
proof -
  let ?argv = "[''--secret'', ''a/b/x=X'', ''--secret'', ''a/b/z=Z'', ''--'', ''prog'']"
  let ?raw = "[(''a/b/x'', ''X''), (''a/b/z'', ''Z'')]"
  have spec: "secret_spec ''a/b/x=X'' = (''a/b/x'', ''X'')" "secret_spec ''a/b/z=Z'' = (''a/b/z'', ''Z'')" by code_simp+
  have args: "exec_args_of ?argv \<lparr>ex_scope = no_scope, ex_dry_run = False, ex_raw = [], ex_program = []\<rparr> =
      Inr \<lparr>ex_scope = no_scope, ex_dry_run = False, ex_raw = ?raw, ex_program = [''prog'']\<rparr>"
    by (simp add: exec_args_of.simps take_scope_arg_def spec)
  have wanted: "exec_wanted toy_system toy_yaml toy_paths (Inr ''/p'')
      \<lparr>ex_scope = no_scope, ex_dry_run = False, ex_raw = ?raw, ex_program = [''prog'']\<rparr> =
      Inr (\<lparr>bc_type = Local, bc_location = []\<rparr>, [(''X'', ''a/b/x''), (''Z'', ''a/b/z'')], [])"
    by (simp add: exec_wanted_def no_scope_def)
  obtain d' where f: "get_many toy 7 (daemon_peer toy 7 (dc_token toy_client)) toy_client [''a/b/x'', ''a/b/z'']
      (two_store, toy_world) = (Inr \<lparr>f_values = [(''a/b/x'', ''1''), (''a/b/z'', ''3'')], f_failures = []\<rparr>, d')"
    using toy_fetches_both by blast
  have "\<not> isl (inject_env (sys_env toy_system) [] [(''X'', ''a/b/x''), (''Z'', ''a/b/z'')]
      \<lparr>f_values = [(''a/b/x'', ''1''), (''a/b/z'', ''3'')], f_failures = []\<rparr>)" by code_simp
  then obtain env' where i: "inject_env (sys_env toy_system) [] [(''X'', ''a/b/x''), (''Z'', ''a/b/z'')]
      \<lparr>f_values = [(''a/b/x'', ''1''), (''a/b/z'', ''3'')], f_failures = []\<rparr> = Inr env'"
    by (cases "inject_env (sys_env toy_system) [] [(''X'', ''a/b/x''), (''Z'', ''a/b/z'')]
      \<lparr>f_values = [(''a/b/x'', ''1''), (''a/b/z'', ''3'')], f_failures = []\<rparr>") simp_all
  have uid: "sys_uid toy_system = 7" by (simp add: toy_system_def)
  have run: "cmd_exec toy toy_system toy_yaml toy_paths (Inr ''/p'') (Inr toy_client)
      (daemon_peer toy (sys_uid toy_system) (dc_token toy_client)) ?argv (two_store, toy_world) = (Launch [''prog''] env', d')"
    by (simp add: cmd_exec_def args wanted open_backend_def uid f i)
  have "served_ok toy (two_store, toy_world)" using two_service by (simp add: served_ok_def)
  from exec_injects_stored [OF toy_ok this run] run show ?thesis by blast
qed

section \<open>The command line, the terminal, the environment\<close>

text \<open>
  C40. When \<open>XDG_RUNTIME_DIR\<close> is unset or empty, the socket only ever goes into a directory of
  ours: once the paths are resolved, /tmp/secretov-UID is a directory, not a link, owned by our
  uid, and its mode has no bit but the owner's three (it is 0700 unless the umask takes one of
  them away), whether it was just made or found, whatever other processes did to it meanwhile,
  and an entry found there is not changed.
\<close>

theorem socket_dir_private:
  assumes "resolve_paths env uid os ds = (Inr paths, ds')" and "env_nonempty env ''XDG_RUNTIME_DIR'' = None"
  shows "p_socket paths = ''/tmp/secretov-'' @ decimal uid @ ''/secretov.sock'' \<and>
    (\<exists>st. ds' (''/tmp/secretov-'' @ decimal uid) = Some st \<and>
      ds_is_dir st \<and> ds_uid st = uid \<and> (\<forall>n. bit (ds_mode st) n \<longrightarrow> n \<in> {6, 7, 8}) \<and>
      (do_umask os AND of_nat mode_0700 = 0 \<longrightarrow> ds_mode st = mode_0700)) \<and>
    (ds (''/tmp/secretov-'' @ decimal uid) \<noteq> None \<longrightarrow> ds' = do_meanwhile os ds)"
proof -
  obtain dir where d: "private_socket_dir os uid ds = (Inr dir, ds')" and p: "p_socket paths = dir @ ''/'' @ kSocketFileName"
    using assms by (auto simp: resolve_paths_def socket_path_of_def Let_def split: sum.splits prod.splits)
  have found: "ds dir \<noteq> None \<longrightarrow> ds' = do_meanwhile os ds"
    using d by (auto simp: private_socket_dir_def mkdir_call_def Let_def split: sum.splits if_splits option.splits)
  note priv = private_socket_dir_Inr [OF d]
  have dir: "dir = ''/tmp/secretov-'' @ decimal uid" using priv by (simp add: kAppName_def)
  obtain st where st: "ds' dir = Some st" "private_dir uid st"
    "do_umask os AND of_nat mode_0700 = 0 \<longrightarrow> ds_mode st = mode_0700"
    using priv by blast
  show ?thesis
    using p found st(2,3) st(1) [unfolded dir] unfolding dir kSocketFileName_def private_dir_def by simp
qed

theorem socket_dir_private_witness:
  "\<exists>paths ds'. resolve_paths [''HOME'' \<mapsto> ''/h''] 7 \<lparr>do_umask = 18, do_mkdir = None, do_meanwhile = id, do_lstat = None\<rparr>
       Map.empty = (Inr paths, ds') \<and>
     p_socket paths = ''/tmp/secretov-'' @ decimal 7 @ ''/secretov.sock'' \<and>
     (\<exists>st. ds' (''/tmp/secretov-'' @ decimal 7) = Some st \<and> ds_mode st = mode_0700)"
proof -
  let ?os = "\<lparr>do_umask = 18, do_mkdir = None, do_meanwhile = id, do_lstat = None\<rparr>"
  have "\<exists>paths ds'. resolve_paths [''HOME'' \<mapsto> ''/h''] 7 ?os Map.empty = (Inr paths, ds')"
    by (simp add: resolve_paths_def socket_path_of_def xdg_dir_or_home_def env_nonempty_def home_dir_def
        private_socket_dir_def mkdir_call_def Let_def)
  then obtain paths ds' where r: "resolve_paths [''HOME'' \<mapsto> ''/h''] 7 ?os Map.empty = (Inr paths, ds')" by blast
  have "(18 :: 12 word) AND of_nat mode_0700 = 0" by code_simp
  with socket_dir_private [OF r] r show ?thesis by (simp add: env_nonempty_def) blast
qed

end
