(* ===== verification/ManifestProps.thy ===== *)
theory ManifestProps
  imports CommandProps
begin

text \<open>
  The properties of names, manifests, their files and their editing, with concrete manifests.
\<close>

section \<open>Manifests\<close>

text \<open>
  C30. A manifest that parses is safe to act on: every variable it sets is an identifier that is
  not refused, no variable is both a plain one and a secret, local entries have a key, cloud
  entries a valid path in a known region or project, and env and project names are segments.
\<close>

theorem parsed_manifest_safe:
  assumes "parse_manifest Y contents path = Inr m"
  shows "wf_manifest m \<and> m_path m = path"
  using parse_manifest_wf [OF assms] by blast

theorem parsed_manifest_safe_witness:
  "\<exists>m. parse_manifest toy_yaml ''manifest'' ''/p/.secretov.yaml'' = Inr m \<and> wf_manifest m \<and>
     map_of (m_vars m) ''dev'' = Some [(''MODE'', ''test'')]"
proof -
  have "case parse_manifest toy_yaml ''manifest'' ''/p/.secretov.yaml'' of Inl e \<Rightarrow> False
      | Inr m \<Rightarrow> map_of (m_vars m) ''dev'' = Some [(''MODE'', ''test'')]" by code_simp
  then obtain m where "parse_manifest toy_yaml ''manifest'' ''/p/.secretov.yaml'' = Inr m"
    and "map_of (m_vars m) ''dev'' = Some [(''MODE'', ''test'')]" by (auto split: sum.splits)
  then show ?thesis using parsed_manifest_safe by blast
qed

text \<open>
  Store keys are unambiguous: env, project and name can be read back from a scoped key, and
  the prefix of a scope matches the keys of that scope and of no other.
\<close>

theorem scopes_disjoint:
  assumes "scoped_key env project name = Inr k" and "scoped_key env' project' name' = Inr k'"
    and "scope_prefix env' project' = Inr p"
  shows "(k = k' \<longleftrightarrow> env = env' \<and> project = project' \<and> name = name') \<and>
    (has_prefix k p \<longleftrightarrow> env = env' \<and> project = project')"
proof -
  have "env = env' \<and> project = project' \<and> name = name'" if "k = k'"
    using scoped_key_inj [OF assms(1)] assms(2) that by simp
  moreover have "k = k'" if "env = env' \<and> project = project' \<and> name = name'"
    using assms(1,2) that by simp
  ultimately show ?thesis using scoped_key_prefix [OF assms(1,3)] by blast
qed

theorem scopes_disjoint_witness:
  "\<not> has_prefix ''dev/app2/K'' ''dev/app/'' \<and> has_prefix ''dev/app/K'' ''dev/app/''"
proof -
  have k: "scoped_key ''dev'' ''app2'' ''K'' = Inr ''dev/app2/K''" "scoped_key ''dev'' ''app'' ''K'' = Inr ''dev/app/K''"
    "scope_prefix ''dev'' ''app'' = Inr ''dev/app/''" by code_simp+
  show ?thesis using scopes_disjoint [OF k(1,2,3)] scopes_disjoint [OF k(2,2,3)] by simp
qed

section \<open>Dotenv files\<close>

text \<open>
  C33. Round trip: writing any variables with distinct identifier names as quoted, escaped
  lines and parsing them gives those variables back, in order, with no warning, whatever bytes
  the values hold (newlines and quotes included).
\<close>

theorem dotenv_roundtrip:
  assumes "distinct (map fst kvs)" and "\<forall>k \<in> fst ` set kvs. is_identifier k"
  shows "parse_dotenv (unlines (map dotenv_entry kvs)) = Inr (kvs, [])"
  using dotenv_round [OF assms] .

theorem dotenv_roundtrip_witness:
  "parse_dotenv (unlines (map dotenv_entry [(''A'', ''x y'' @ [LF]), (''_b'', ''#'')])) = Inr ([(''A'', ''x y'' @ [LF]), (''_b'', ''#'')], [])"
  by (rule dotenv_roundtrip; code_simp)

section \<open>Editing a manifest\<close>

text \<open>
  C31. An edit that is returned did what was asked and nothing else. Every line that was there is
  still there, in order; the only lines added are the key lines of \<open>env\<close>, of the environment and
  of its \<open>secrets\<close>, each only when it was missing, and, in the block of the secrets, two lines for
  each requested name that has no key line there, so that a name that is there adds nothing (a
  manifest that was empty starts from its three first lines). And the result parses to a manifest
  of the same project in which the environment has every requested name with the requested
  variable and its own store key.
\<close>

theorem edit_adds_entries:
  assumes "manifest_with_entries Y contents project env nvs = Inr out"
  shows "subseq (split_lines contents) (split_lines out) \<and>
    (\<exists>lines. only_entries_added (starting_lines project (split_lines contents)) env nvs lines \<and> out = unlines lines) \<and>
    (\<exists>m entries. parse_manifest Y out ''<edited manifest>'' = Inr m \<and> m_project m = project \<and>
      map_of (m_envs m) env = Some entries \<and>
      (\<forall>(name, var) \<in> set nvs. \<exists>e \<in> set entries. se_name e = name \<and> se_env_var e = var \<and>
         scoped_key env project name = Inr (se_path e)))"
  using manifest_with_entries_Inr [OF assms] edited_lines_adds by blast

definition edited_yaml :: yaml where
  "edited_yaml = YMap
     [(YScalar ''name'', YScalar ''app''),
      (YScalar ''env'', YMap [(YScalar ''dev'', YMap [(YScalar ''secrets'',
         YMap [(YScalar ''KEY'', YMap [(YScalar ''env_var_name'', YScalar ''VAR'')])])])])]"

definition edited_text :: "string list" where
  "edited_text = [''name: app'', ''env:'', ''  dev:'', ''    secrets:'', ''      KEY:'', ''        env_var_name: VAR'']"

theorem edit_adds_entries_witness:
  "manifest_with_entries (toy_yaml\<lparr>yaml_load := \<lambda>t. Inr edited_yaml\<rparr>) (unlines [''name: app'', ''env:'', ''  dev:''])
     ''app'' ''dev'' [(''KEY'', ''VAR'')] = Inr (unlines edited_text) \<and>
   subseq (split_lines (unlines [''name: app'', ''env:'', ''  dev:''])) (split_lines (unlines edited_text))"
proof -
  have "manifest_with_entries (toy_yaml\<lparr>yaml_load := \<lambda>t. Inr edited_yaml\<rparr>) (unlines [''name: app'', ''env:'', ''  dev:''])
     ''app'' ''dev'' [(''KEY'', ''VAR'')] = Inr (unlines edited_text)" by code_simp
  from edit_adds_entries [OF this] this show ?thesis by blast
qed

section \<open>Trust\<close>

text \<open>
  C32. What is read is trusted: the text of a manifest or registry comes from a regular file that
  nobody else can write, opened by its canonical path, and both the directory it was named in
  and the one it really is in are trusted.
\<close>

theorem read_text_trusted:
  assumes "system_ok S" and "read_manifest_text S path noun = Inr contents"
  shows "trusted_dir S (parent_path path) \<and>
    (\<exists>real fd st. sys_canonical S path = Inr real \<and> trusted_dir S (parent_path real) \<and> sys_open S real = Inr fd \<and>
       sys_fstat S fd = Inr st \<and> fs_is_regular st \<and> trusted S st False (sys_fd_acl S fd) \<and>
       sys_read_all S fd = Inr contents)"
  using read_manifest_text_Inr [OF assms] .

theorem read_text_trusted_witness:
  "read_manifest_text toy_system ''/p/.secretov.yaml'' ''manifest'' = Inr ''manifest'' \<and> trusted_dir toy_system ''/p''"
proof -
  have r: "read_manifest_text toy_system ''/p/.secretov.yaml'' ''manifest'' = Inr ''manifest''" by code_simp
  moreover have "parent_path ''/p/.secretov.yaml'' = ''/p''" by code_simp
  ultimately show ?thesis using read_text_trusted [OF toy_system_ok r] by simp
qed

end
