(* ===== verification/Import.thy ===== *)
theory Import
  imports Commands ManifestEdit Dotenv RequestEffects
begin

text \<open>
  \<open>cmd_import\<close> of src/src/client.cpp: a dotenv file is stored under \<open>env/project/*\<close> and the
  mapping recorded in the manifest. Everything that can be refused is refused before the first
  secret is stored; the manifest is written last.
\<close>

section \<open>The command line\<close>

record import_args =
  im_scope :: scope_args
  im_overwrite :: bool
  im_file :: "string option"      \<comment> \<open>None: the default \<open>.env\<close>\<close>

definition no_import_args :: import_args where
  "no_import_args = \<lparr>im_scope = no_scope, im_overwrite = False, im_file = None\<rparr>"

function import_args_of :: "string list \<Rightarrow> import_args \<Rightarrow> string + import_args" where
  "import_args_of [] acc = Inr acc"
| "import_args_of (arg # rest) acc =
     (case take_scope_arg arg rest (im_scope acc) of
        Inl what \<Rightarrow> Inl what
      | Inr (Some (scope, rest')) \<Rightarrow> import_args_of rest' (acc\<lparr>im_scope := scope\<rparr>)
      | Inr None \<Rightarrow>
          if arg = ''--overwrite'' then import_args_of rest (acc\<lparr>im_overwrite := True\<rparr>)
          else if arg \<noteq> [] \<and> hd arg \<noteq> CHR ''-'' \<and> im_file acc = None
          then import_args_of rest (acc\<lparr>im_file := Some arg\<rparr>)
          else Inl (''unexpected argument '' @ quoted arg))"
  by pat_completeness auto
termination
  by (relation "measure (\<lambda>(args, acc). length args)") (auto dest: take_scope_arg_shorter)

declare import_args_of.simps [simp del]

section \<open>Where to\<close>

text \<open>The path of the manifest, and the project when it was named.\<close>

definition import_place ::
  "system \<Rightarrow> yaml_lib \<Rightarrow> paths \<Rightarrow> string + string \<Rightarrow> scope_args \<Rightarrow> string + string \<times> string" where
  "import_place S Y paths cwd scope =
     (case sc_project scope of
        Some project \<Rightarrow>
          bindE (registry_project_root S Y (p_registry paths) project) (\<lambda>found.
            case found of
              Some root \<Rightarrow> Inr (root @ ''/'' @ kManifestFileName, project)
            | None \<Rightarrow>
                bindE cwd (\<lambda>dir.
                  case find_manifest_upward S dir of
                    Some path \<Rightarrow> Inr (path, project)
                  | None \<Rightarrow> Inr (dir @ ''/'' @ kManifestFileName, project)))
      | None \<Rightarrow>
          bindE cwd (\<lambda>dir.
            case find_manifest_upward S dir of
              None \<Rightarrow> Inl (''no '' @ kManifestFileName @ '' found from the current directory upward; pass -p NAME to create one here'')
            | Some path \<Rightarrow> Inr (path, [])))"

record import_target =
  it_manifest_path :: string
  it_write_path :: string
  it_text :: string
  it_project :: string
  it_env :: string

text \<open>
  \<open>probe\<close> answers \<open>exists(symlink_status(path))\<close>, which throws on an error other than "not
  found"; a manifest that exists is updated where it really is.
\<close>

definition import_target_of ::
  "system \<Rightarrow> yaml_lib \<Rightarrow> (string \<Rightarrow> string + bool) \<Rightarrow> scope_args \<Rightarrow> string \<times> string \<Rightarrow> string + import_target" where
  "import_target_of S Y probe scope place =
     (case place of (manifest_path, project) \<Rightarrow>
       bindE (probe manifest_path) (\<lambda>exists.
       bindE (if exists then
                bindE (read_manifest_text S manifest_path ''manifest'') (\<lambda>text.
                bindE (parse_manifest Y text manifest_path) (\<lambda>m.
                bindE (refuse_if (sc_project scope \<noteq> None \<and> m_project m \<noteq> project)
                    (''manifest '' @ manifest_path @ '' names project '' @ quoted (m_project m) @ '', not '' @ quoted project)) (\<lambda>_.
                bindE (refuse_if (bc_type (m_backend m) \<noteq> Local)
                    (''import is local-only for now; add entries to .secretov.yaml by hand, then '' @
                     quoted ''secretov set ENTRY -p NAME -e ENV'')) (\<lambda>_.
                bindE (sys_canonical S manifest_path) (\<lambda>write_path.
                  Inr (Some m, text, m_project m, write_path))))))
              else Inr (None, [], project, manifest_path))
         (\<lambda>(m, text, project, write_path).
       bindE (resolve_env (sys_env S) scope m) (\<lambda>env.
         Inr \<lparr>it_manifest_path = manifest_path, it_write_path = write_path, it_text = text,
              it_project = project, it_env = env\<rparr>))))"

text \<open>What the dotenv file holds.\<close>

definition import_pairs :: "(string \<Rightarrow> string + string) \<Rightarrow> import_args \<Rightarrow> string + key_values" where
  "import_pairs read_file args =
     (let file = or_else (im_file args) ''.env'' in
      bindE (read_file file) (\<lambda>contents.
      bindE (parse_dotenv contents) (\<lambda>(pairs, warnings).
      bindE (refuse_if (pairs = []) (''nothing to import from '' @ file)) (\<lambda>_. Inr pairs))))"

section \<open>What to store\<close>

record import_entry =
  ie_key :: string
  ie_var :: string
  ie_value :: string

definition import_entry_of :: "import_target \<Rightarrow> string \<times> string \<Rightarrow> string + import_entry" where
  "import_entry_of target pair =
     bindE (scoped_key (it_env target) (it_project target) (fst pair)) (\<lambda>key.
       Inr \<lparr>ie_key = key, ie_var = fst pair, ie_value = snd pair\<rparr>)"

text \<open>\<open>value("values", std::map<std::string, std::string>{})\<close> of the reply.\<close>

definition stored_values :: "libs \<Rightarrow> json \<Rightarrow> client_error + (string \<times> string) list" where
  "stored_values L resp =
     (case resp of
        JObject m \<Rightarrow>
          (case map_of m ''values'' of
             None \<Rightarrow> Inr []
           | Some (JObject vs) \<Rightarrow>
               collectE (\<lambda>(k, j). case j of JString s \<Rightarrow> Inr (k, s) | _ \<Rightarrow> Inl (JsonError (json_type_error L j))) vs
           | Some j \<Rightarrow> Inl (JsonError (json_type_error L j)))
      | j \<Rightarrow> Inl (JsonError (json_type_error L j)))"

definition lines_below :: "string list \<Rightarrow> string" where
  "lines_below keys = [LF] @ ''  '' @ join keys ([LF] @ ''  '')"

definition import_collisions :: "(string \<times> string) list \<Rightarrow> import_entry list \<Rightarrow> string list" where
  "import_collisions existing entries = filter (\<lambda>k. map_of existing k \<noteq> None) (map ie_key entries)"

definition sendable :: "libs \<Rightarrow> daemon_client \<Rightarrow> import_entry \<Rightarrow> string + unit" where
  "sendable L cl e =
     (case check_request L cl ''set'' (ie_key e) (Some (ie_value e)) of
        Inl what \<Rightarrow> Inl (ie_var e @ '': '' @ error_text what @ ''; nothing imported'')
      | Inr _ \<Rightarrow> Inr ())"

text \<open>All that is refused before the store is touched; the new text of the manifest.\<close>

definition import_checks ::
  "libs \<Rightarrow> system \<Rightarrow> yaml_lib \<Rightarrow> daemon_client \<Rightarrow> bool \<Rightarrow> import_target \<Rightarrow> key_values \<Rightarrow> (string \<times> string) list \<Rightarrow>
   string + import_entry list \<times> string list \<times> string" where
  "import_checks L S Y cl overwrite target pairs existing =
     bindE (collectE (import_entry_of target) pairs) (\<lambda>entries.
     let collisions = import_collisions existing entries in
     bindE (refuse_if (collisions \<noteq> [] \<and> \<not> overwrite)
         (''already in store (pass --overwrite to replace):'' @ lines_below collisions)) (\<lambda>_.
     bindE (collectE (sendable L cl) entries) (\<lambda>_.
     bindE (manifest_with_entries Y (it_text target) (it_project target) (it_env target)
         (map (\<lambda>e. (ie_var e, ie_var e)) entries)) (\<lambda>new_text.
     bindE (if new_text \<noteq> it_text target then require_creatable_manifest_dir S (it_write_path target) else Inr ()) (\<lambda>_.
       Inr (entries, collisions, new_text))))))"

definition import_plan ::
  "libs \<Rightarrow> system \<Rightarrow> yaml_lib \<Rightarrow> 'd peer \<Rightarrow> daemon_client \<Rightarrow> bool \<Rightarrow> import_target \<Rightarrow> key_values \<Rightarrow> 'd \<Rightarrow>
   (string + import_entry list \<times> string list \<times> string) \<times> 'd" where
  "import_plan L S Y P cl overwrite target pairs d =
     (case scope_prefix (it_env target) (it_project target) of
        Inl what \<Rightarrow> (Inl what, d)
      | Inr pre \<Rightarrow>
          (case request L (sys_uid S) P cl ''getprefix'' pre None d of
             (Inl e, d) \<Rightarrow> (Inl (error_text e), d)
           | (Inr resp, d) \<Rightarrow>
               (case stored_values L resp of
                  Inl e \<Rightarrow> (Inl (error_text e), d)
                | Inr existing \<Rightarrow> (import_checks L S Y cl overwrite target pairs existing, d))))"

section \<open>Storing\<close>

fun import_store ::
  "libs \<Rightarrow> nat \<Rightarrow> 'd peer \<Rightarrow> daemon_client \<Rightarrow> string list \<Rightarrow> import_entry list \<Rightarrow> 'd \<Rightarrow> (string + unit) \<times> 'd" where
  "import_store L uid P cl stored [] d = (Inr (), d)"
| "import_store L uid P cl stored (e # es) d =
     (case request L uid P cl ''set'' (ie_key e) (Some (ie_value e)) d of
        (Inr resp, d) \<Rightarrow> import_store L uid P cl (stored @ [ie_key e]) es d
      | (Inl what, d) \<Rightarrow>
          (Inl (ie_var e @ '': '' @ error_text what @
             (if stored = [] then []
              else ''; manifest not updated; already stored (rerun with --overwrite once fixed):'' @ lines_below stored)), d))"

datatype import_outcome =
    ImportUsage                      \<comment> \<open>exit code 2\<close>
  | ImportFailed string              \<comment> \<open>exit code 1\<close>
  | ImportKilled                     \<comment> \<open>killed while the manifest was written\<close>
  | Imported nat nat string          \<comment> \<open>secrets, overwritten ones, the manifest\<close>

definition mode_0644 :: nat where "mode_0644 = 420"

definition write_manifest ::
  "import_target \<Rightarrow> string \<Rightarrow> import_outcome \<Rightarrow> files \<Rightarrow> outcome list \<Rightarrow> import_outcome \<times> files" where
  "write_manifest target new_text done fs outs =
     (if new_text = it_text target then (done, fs) else
      (case write_file_atomic (it_write_path target) new_text mode_0644 fs outs of
         ((pc, fs), rest) \<Rightarrow>
           (case pc of Returned warned \<Rightarrow> (done, fs) | Threw what \<Rightarrow> (ImportFailed what, fs) | _ \<Rightarrow> (ImportKilled, fs))))"

definition import_run ::
  "libs \<Rightarrow> system \<Rightarrow> yaml_lib \<Rightarrow> 'd peer \<Rightarrow> daemon_client \<Rightarrow> bool \<Rightarrow> import_target \<Rightarrow> key_values \<Rightarrow>
   'd \<Rightarrow> files \<Rightarrow> outcome list \<Rightarrow> import_outcome \<times> 'd \<times> files" where
  "import_run L S Y P cl overwrite target pairs d fs outs =
     (case import_plan L S Y P cl overwrite target pairs d of
        (Inl what, d) \<Rightarrow> (ImportFailed what, d, fs)
      | (Inr (entries, collisions, new_text), d) \<Rightarrow>
          (case import_store L (sys_uid S) P cl [] entries d of
             (Inl what, d) \<Rightarrow> (ImportFailed what, d, fs)
           | (Inr _, d) \<Rightarrow>
               (case write_manifest target new_text
                   (Imported (length pairs) (length collisions) (it_manifest_path target)) fs outs of
                  (result, fs) \<Rightarrow> (result, d, fs))))"

text \<open>\<open>read_file\<close> reads a file whole; the manifest's directory is the file system \<open>fs\<close>.\<close>

definition cmd_import ::
  "libs \<Rightarrow> system \<Rightarrow> yaml_lib \<Rightarrow> paths \<Rightarrow> (string \<Rightarrow> string + bool) \<Rightarrow> string + string \<Rightarrow> (string \<Rightarrow> string + string) \<Rightarrow>
   'd peer \<Rightarrow> string list \<Rightarrow> 'd \<Rightarrow> files \<Rightarrow> outcome list \<Rightarrow> import_outcome \<times> 'd \<times> files" where
  "cmd_import L S Y paths probe cwd read_file P argv d fs outs =
     (case import_args_of argv no_import_args of
        Inl what \<Rightarrow> (ImportUsage, d, fs)
      | Inr args \<Rightarrow>
          (case bindE (import_place S Y paths cwd (im_scope args)) (\<lambda>place.
                bindE (import_target_of S Y probe (im_scope args) place) (\<lambda>target.
                bindE (import_pairs read_file args) (\<lambda>pairs.
                bindE (daemon_client_of paths read_file) (\<lambda>cl. Inr (target, pairs, cl))))) of
             Inl what \<Rightarrow> (ImportFailed what, d, fs)
           | Inr (target, pairs, cl) \<Rightarrow> import_run L S Y P cl (im_overwrite args) target pairs d fs outs))"

section \<open>What an import does\<close>

lemma request_effect:
  assumes "libs_ok L" and "served_ok L d"
    and "request L uid (daemon_peer L uid (dc_token cl)) cl op key v d = (r, d')"
  shows "served_ok L d' \<and> (served_view d' = served_view d \<or>
    served_view d' = snd (kv_spec (wire_request cl op key v) (served_view d)))"
    and "r = Inr resp \<longrightarrow> resp = fst (kv_spec (wire_request cl op key v) (served_view d)) \<and>
      served_view d' = snd (kv_spec (wire_request cl op key v) (served_view d)) \<and> (\<forall>what. resp \<noteq> failure what)"
proof -
  obtain r' where l: "local_request L uid (daemon_peer L uid (dc_token cl)) cl op key v d = (r', d')"
    and r: "r = Inr resp \<longrightarrow> r' = Inr resp"
    using assms(3) by (cases r) (simp_all add: local_request_def)
  show "served_ok L d' \<and> (served_view d' = served_view d \<or>
    served_view d' = snd (kv_spec (wire_request cl op key v) (served_view d)))"
    using local_request_effect [OF assms(1,2) l] .
  show "r = Inr resp \<longrightarrow> resp = fst (kv_spec (wire_request cl op key v) (served_view d)) \<and>
      served_view d' = snd (kv_spec (wire_request cl op key v) (served_view d)) \<and> (\<forall>what. resp \<noteq> failure what)"
    using local_request_returns [OF assms(1,2)] l r by blast
qed

text \<open>One secret: stored, or not; stored when it is answered.\<close>

lemma set_effect:
  assumes "libs_ok L" and "served_ok L d" and "key \<noteq> []"
    and "request L uid (daemon_peer L uid (dc_token cl)) cl ''set'' key (Some v) d = (r, d')"
  shows "served_ok L d' \<and> (served_view d' = served_view d \<or> served_view d' = (served_view d)(key \<mapsto> v)) \<and>
    (\<forall>resp. r = Inr resp \<longrightarrow> served_view d' = (served_view d)(key \<mapsto> v))"
proof -
  have "kv_spec (wire_request cl ''set'' key (Some v)) m = (success [], m(key \<mapsto> v))" for m
    using assms(3) by (simp add: kv_spec_def wire_request_def)
  then show ?thesis using request_effect [OF assms(1,2,4)] by auto
qed

definition stored_map :: "import_entry list \<Rightarrow> (string \<Rightarrow> string option)" where
  "stored_map es = map_of (rev (map (\<lambda>e. (ie_key e, ie_value e)) es))"

lemma stored_map_Nil [simp]: "stored_map [] = Map.empty"
  by (simp add: stored_map_def)

lemma stored_map_Cons: "m ++ stored_map (e # es) = m(ie_key e \<mapsto> ie_value e) ++ stored_map es"
  by (simp add: stored_map_def)

text \<open>The secrets stored are a prefix of the list: all of it when the loop ends.\<close>

lemma import_store_effect:
  assumes "libs_ok L" and "served_ok L d" and "\<forall>e \<in> set es. ie_key e \<noteq> []"
    and "import_store L uid (daemon_peer L uid (dc_token cl)) cl stored es d = (r, d')"
  shows "served_ok L d' \<and> (\<exists>n \<le> length es. served_view d' = served_view d ++ stored_map (take n es) \<and>
    (r = Inr () \<longrightarrow> n = length es))"
  using assms(2-4)
proof (induction es arbitrary: stored d)
  case Nil
  then show ?case by simp
next
  case (Cons e es)
  let ?P = "daemon_peer L uid (dc_token cl)"
  obtain r1 d1 where q: "request L uid ?P cl ''set'' (ie_key e) (Some (ie_value e)) d = (r1, d1)"
    by (cases "request L uid ?P cl ''set'' (ie_key e) (Some (ie_value e)) d")
  have key: "ie_key e \<noteq> []" using Cons.prems(2) by simp
  note eff = set_effect [OF assms(1) Cons.prems(1) key q]
  show ?case
  proof (cases r1)
    case (Inl what)
    then have stopped: "d' = d1" "r \<noteq> Inr ()" using Cons.prems(3) q by auto
    consider "served_view d1 = served_view d" | "served_view d1 = (served_view d)(ie_key e \<mapsto> ie_value e)"
      using eff by blast
    then show ?thesis
    proof cases
      case 1
      then show ?thesis using eff stopped by (intro conjI exI [of _ 0]) simp_all
    next
      case 2
      then show ?thesis using eff stopped by (intro conjI exI [of _ "Suc 0"]) (simp_all add: stored_map_Cons)
    qed
  next
    case (Inr resp)
    then have rest: "import_store L uid ?P cl (stored @ [ie_key e]) es d1 = (r, d')"
      using Cons.prems(3) q by simp
    have "served_ok L d1" "\<forall>e \<in> set es. ie_key e \<noteq> []" using eff Cons.prems(2) by simp_all
    from Cons.IH [OF this rest] obtain n where n: "served_ok L d'" "n \<le> length es"
      "served_view d' = served_view d1 ++ stored_map (take n es)" "r = Inr () \<longrightarrow> n = length es"
      by blast
    moreover have "served_view d1 = (served_view d)(ie_key e \<mapsto> ie_value e)" using eff Inr by blast
    ultimately show ?thesis by (intro conjI exI [of _ "Suc n"]) (simp_all add: stored_map_Cons)
  qed
qed

text \<open>The keys of the entries are those of the scope, one for each variable.\<close>

definition entries_of :: "import_target \<Rightarrow> key_values \<Rightarrow> import_entry list \<Rightarrow> bool" where
  "entries_of target pairs entries \<longleftrightarrow> collectE (import_entry_of target) pairs = Inr entries"

lemma entries_of_Inr:
  assumes "entries_of target pairs entries"
  shows "map (\<lambda>e. (ie_key e, ie_value e)) entries =
      map (\<lambda>(var, v). (it_env target @ SLASH # it_project target @ SLASH # var, v)) pairs"
    and "map (\<lambda>e. (ie_var e, ie_var e)) entries = map (\<lambda>(var, v). (var, var)) pairs"
    and "e \<in> set entries \<Longrightarrow> ie_key e \<noteq> [] \<and> scoped_key (it_env target) (it_project target) (ie_var e) = Inr (ie_key e)"
proof -
  have all: "list_all2 (\<lambda>p e. scoped_key (it_env target) (it_project target) (fst p) = Inr (ie_key e) \<and>
      ie_var e = fst p \<and> ie_value e = snd p) pairs entries"
    using assms by (auto simp: entries_of_def collectE_Inr_list_all2 import_entry_of_def elim!: list_all2_mono)
  have len: "length entries = length pairs" using all by (simp add: list_all2_lengthD)
  have nth: "scoped_key (it_env target) (it_project target) (fst (pairs ! i)) = Inr (ie_key (entries ! i)) \<and>
      ie_var (entries ! i) = fst (pairs ! i) \<and> ie_value (entries ! i) = snd (pairs ! i)" if "i < length pairs" for i
    using all that by (simp add: list_all2_conv_all_nth)
  show "map (\<lambda>e. (ie_key e, ie_value e)) entries =
      map (\<lambda>(var, v). (it_env target @ SLASH # it_project target @ SLASH # var, v)) pairs"
    using nth by (intro nth_equalityI) (auto simp: len scoped_key_Inr split: prod.splits)
  show "map (\<lambda>e. (ie_var e, ie_var e)) entries = map (\<lambda>(var, v). (var, var)) pairs"
    using nth by (intro nth_equalityI) (auto simp: len split: prod.splits)
  show "ie_key e \<noteq> [] \<and> scoped_key (it_env target) (it_project target) (ie_var e) = Inr (ie_key e)" if "e \<in> set entries"
    using nth that by (auto simp: in_set_conv_nth len scoped_key_Inr)
qed

lemma stored_values_success:
  "stored_values L (success [(''values'', JObject (map (\<lambda>(k, v). (k, JString v)) vs))]) = Inr vs"
proof -
  have "collectE (\<lambda>(k, j). case j of JString s \<Rightarrow> Inr (k, s) | _ \<Rightarrow> Inl (JsonError (json_type_error L j)))
      (map (\<lambda>(k, v). (k, JString v)) vs) = Inr vs"
    by (induction vs) auto
  then show ?thesis by (simp add: stored_values_def success_object smap_find_put)
qed

lemma restrict_prefix_lookup:
  assumes "served_ok L d"
  shows "map_of (restrict_prefix pre (served_view d)) k = (if has_prefix k pre then served_view d k else None)"
proof -
  obtain m where "get_prefix L pre (fst d) = Inr m" "\<forall>k. map_of m k = (if has_prefix k pre then store_view (fst d) k else None)"
    using kv.scope_view [of L "fst d" pre] assms by (auto simp: served_ok_def)
  then show ?thesis using get_prefix_spec [of L "fst d" pre] assms by (simp add: served_ok_def served_view_def)
qed

lemma sendable_Inr:
  assumes "collectE (sendable L cl) entries = Inr us"
  shows "\<forall>e \<in> set entries. check_request L cl ''set'' (ie_key e) (Some (ie_value e)) = Inr ()"
proof -
  have "list_all2 (\<lambda>e u. sendable L cl e = Inr u) entries us" using assms by (simp add: collectE_Inr_list_all2)
  then have "\<exists>u. sendable L cl e = Inr u" if "e \<in> set entries" for e
    using that by (auto simp: list_all2_conv_all_nth in_set_conv_nth)
  then show ?thesis by (fastforce simp: sendable_def split: sum.splits)
qed

lemma import_plan_effect:
  assumes "libs_ok L" and "served_ok L d"
    and "import_plan L S Y (daemon_peer L (sys_uid S) (dc_token cl)) cl overwrite target pairs d = (r, d')"
  shows "unchanged L d d' \<and>
    (\<forall>entries collisions new_text. r = Inr (entries, collisions, new_text) \<longrightarrow>
       entries_of target pairs entries \<and>
       collisions = filter (\<lambda>k. served_view d k \<noteq> None) (map ie_key entries) \<and> (collisions = [] \<or> overwrite) \<and>
       manifest_with_entries Y (it_text target) (it_project target) (it_env target)
         (map (\<lambda>(var, v). (var, var)) pairs) = Inr new_text \<and>
       (\<forall>e \<in> set entries. check_request L cl ''set'' (ie_key e) (Some (ie_value e)) = Inr ()) \<and>
       (new_text \<noteq> it_text target \<longrightarrow> require_creatable_manifest_dir S (it_write_path target) = Inr ()))"
proof (cases "scope_prefix (it_env target) (it_project target)")
  case (Inl what)
  then show ?thesis using assms(2,3) by (auto simp: import_plan_def unchanged_def)
next
  case (Inr pre)
  let ?P = "daemon_peer L (sys_uid S) (dc_token cl)" and ?m = "restrict_prefix pre (served_view d)"
  obtain q d1 where q: "request L (sys_uid S) ?P cl ''getprefix'' pre None d = (q, d1)"
    by (cases "request L (sys_uid S) ?P cl ''getprefix'' pre None d")
  have pre: "pre \<noteq> []" using Inr by (auto simp: scope_prefix_def)
  have spec: "kv_spec (wire_request cl ''getprefix'' pre None) m =
      (success [(''values'', JObject (map (\<lambda>(k, v). (k, JString v)) (restrict_prefix pre m)))], m)" for m
    using pre by (simp add: kv_spec_def wire_request_def)
  have same: "unchanged L d d1" using request_effect(1) [OF assms(1,2) q] spec by (auto simp: unchanged_def)
  show ?thesis
  proof (cases q)
    case Inl2: (Inl e)
    then show ?thesis using assms(3) same q Inr by (auto simp: import_plan_def)
  next
    case Inr2: (Inr resp)
    have "resp = success [(''values'', JObject (map (\<lambda>(k, v). (k, JString v)) ?m))]"
      using request_effect(2) [OF assms(1,2) q, of resp] Inr2 spec by simp
    then have run: "import_checks L S Y cl overwrite target pairs ?m = r" "d' = d1"
      using assms(3) q Inr Inr2 stored_values_success by (auto simp: import_plan_def)
    have "entries_of target pairs entries \<and>
       collisions = filter (\<lambda>k. served_view d k \<noteq> None) (map ie_key entries) \<and> (collisions = [] \<or> overwrite) \<and>
       manifest_with_entries Y (it_text target) (it_project target) (it_env target)
         (map (\<lambda>(var, v). (var, var)) pairs) = Inr new_text \<and>
       (\<forall>e \<in> set entries. check_request L cl ''set'' (ie_key e) (Some (ie_value e)) = Inr ()) \<and>
       (new_text \<noteq> it_text target \<longrightarrow> require_creatable_manifest_dir S (it_write_path target) = Inr ())"
      if r: "r = Inr (entries, collisions, new_text)" for entries collisions new_text
    proof -
      have parts: "entries_of target pairs entries" "collisions = import_collisions ?m entries" "collisions = [] \<or> overwrite"
        "manifest_with_entries Y (it_text target) (it_project target) (it_env target)
           (map (\<lambda>e. (ie_var e, ie_var e)) entries) = Inr new_text"
        "\<exists>us. collectE (sendable L cl) entries = Inr us"
        "new_text \<noteq> it_text target \<longrightarrow> require_creatable_manifest_dir S (it_write_path target) = Inr ()"
        using run(1) r by (auto simp: import_checks_def Let_def entries_of_def split: if_splits)
      have sent: "\<forall>e \<in> set entries. check_request L cl ''set'' (ie_key e) (Some (ie_value e)) = Inr ()"
        using parts(5) sendable_Inr by blast
      have "map_of ?m k = served_view d k" if "k \<in> ie_key ` set entries" for k
      proof -
        have "has_prefix k pre"
          using that entries_of_Inr(3) [OF parts(1)] scoped_key_prefix Inr by blast
        then show ?thesis using restrict_prefix_lookup [OF assms(2)] by simp
      qed
      then have "collisions = filter (\<lambda>k. served_view d k \<noteq> None) (map ie_key entries)"
        unfolding parts(2) import_collisions_def by (intro filter_cong) auto
      then show ?thesis using parts(1,3,4,6) sent entries_of_Inr(2) [OF parts(1)] by simp
    qed
    then show ?thesis using same run(2) by blast
  qed
qed

text \<open>The run after the plan, whatever comes of it.\<close>

lemma write_manifest_effect:
  assumes "write_manifest target text done fs outs = (out, fs')"
  shows "(fs' = fs \<or> text \<noteq> it_text target) \<and>
    (out = done \<or> (\<exists>what. out = ImportFailed what) \<or> out = ImportKilled) \<and>
    (out = done \<longrightarrow> done = Imported n k m \<longrightarrow>
       text = it_text target \<and> fs' = fs \<or> fs' (it_write_path target) = Some (complete_file text mode_0644))"
proof (cases "text = it_text target")
  case True
  then show ?thesis using assms by (simp add: write_manifest_def)
next
  case False
  obtain pc rest where w: "write_file_atomic (it_write_path target) text mode_0644 fs outs = ((pc, fs'), rest)"
    using assms False by (auto simp: write_manifest_def split: prod.splits wfa_pc.splits)
  then show ?thesis
    using assms False write_returned by (cases pc) (fastforce simp: write_manifest_def)+
qed

lemma fresh_keys_kept:
  assumes "\<forall>e \<in> set es. m (ie_key e) = None"
  shows "m \<subseteq>\<^sub>m m ++ stored_map es"
proof -
  have "stored_map es key = None" if "m key \<noteq> None" for key
    using assms that by (auto simp: stored_map_def map_of_eq_None_iff)
  then show ?thesis by (auto simp: map_le_def map_add_def split: option.splits)
qed

text \<open>The variables of the file under the keys they are stored at, in the order they are stored.\<close>

definition scoped_pairs :: "import_target \<Rightarrow> key_values \<Rightarrow> key_values" where
  "scoped_pairs target pairs = map (\<lambda>(var, v). (it_env target @ SLASH # it_project target @ SLASH # var, v)) pairs"

text \<open>
  Everything that could be refused has been looked at: the names, what is stored already, the
  size and encoding of each request, the edit of the manifest, and its directory.
\<close>

definition import_cleared ::
  "libs \<Rightarrow> system \<Rightarrow> yaml_lib \<Rightarrow> daemon_client \<Rightarrow> bool \<Rightarrow> import_target \<Rightarrow> key_values \<Rightarrow>
   (string \<Rightarrow> string option) \<Rightarrow> bool" where
  "import_cleared L S Y cl overwrite target pairs stored \<longleftrightarrow>
     (\<forall>(var, v) \<in> set pairs. \<exists>key.
        scoped_key (it_env target) (it_project target) var = Inr key \<and>
        (overwrite \<or> stored key = None) \<and>
        check_request L cl ''set'' key (Some v) = Inr ()) \<and>
     (\<exists>text. manifest_with_entries Y (it_text target) (it_project target) (it_env target)
         (map (\<lambda>(var, v). (var, var)) pairs) = Inr text \<and>
        (text \<noteq> it_text target \<longrightarrow> require_creatable_manifest_dir S (it_write_path target) = Inr ()))"

lemma entries_cleared:
  assumes "entries_of target pairs entries"
    and "\<forall>e \<in> set entries. overwrite \<or> stored (ie_key e) = None"
    and "\<forall>e \<in> set entries. check_request L cl ''set'' (ie_key e) (Some (ie_value e)) = Inr ()"
    and "manifest_with_entries Y (it_text target) (it_project target) (it_env target)
         (map (\<lambda>(var, v). (var, var)) pairs) = Inr text"
    and "text \<noteq> it_text target \<longrightarrow> require_creatable_manifest_dir S (it_write_path target) = Inr ()"
  shows "import_cleared L S Y cl overwrite target pairs stored"
proof -
  have "\<exists>e \<in> set entries. scoped_key (it_env target) (it_project target) var = Inr (ie_key e) \<and> ie_value e = v"
    if "(var, v) \<in> set pairs" for var v
    using assms(1) that
    by (auto simp: entries_of_def collectE_Inr_list_all2 import_entry_of_def list_all2_conv_all_nth in_set_conv_nth)
      (metis fst_conv import_entry.select_convs(1,3) nth_mem snd_conv)
  then have "\<exists>key. scoped_key (it_env target) (it_project target) var = Inr key \<and> (overwrite \<or> stored key = None) \<and>
      check_request L cl ''set'' key (Some v) = Inr ()" if "(var, v) \<in> set pairs" for var v
    using that assms(2,3) by blast
  then show ?thesis using assms(4,5) by (auto simp: import_cleared_def)
qed

lemma stored_take:
  assumes "entries_of target pairs entries" and "distinct (map fst pairs)"
  shows "stored_map (take i entries) = map_of (take i (scoped_pairs target pairs))"
proof -
  have kv: "map (\<lambda>e. (ie_key e, ie_value e)) (take i entries) = take i (scoped_pairs target pairs)"
    using arg_cong [OF entries_of_Inr(1) [OF assms(1)], of "take i"] by (simp only: scoped_pairs_def take_map)
  have "map fst (scoped_pairs target pairs) =
      map (\<lambda>var. it_env target @ SLASH # it_project target @ SLASH # var) (map fst pairs)"
    by (simp add: scoped_pairs_def case_prod_unfold)
  then have "distinct (map fst (scoped_pairs target pairs))"
    using assms(2) by (simp only: distinct_map [of _ "map fst pairs"]) (simp add: inj_on_def)
  then have "distinct (map fst (take i (scoped_pairs target pairs)))" by (simp flip: take_map)
  then show ?thesis using map_of_rev unfolding stored_map_def by (metis kv)
qed

definition import_recorded ::
  "yaml_lib \<Rightarrow> import_target \<Rightarrow> key_values \<Rightarrow> served \<Rightarrow> served \<Rightarrow> string \<Rightarrow> bool" where
  "import_recorded Y target pairs d d' text \<longleftrightarrow>
     manifest_with_entries Y (it_text target) (it_project target) (it_env target)
       (map (\<lambda>(var, v). (var, var)) pairs) = Inr text \<and>
     served_view d' = served_view d ++ map_of (scoped_pairs target pairs)"

text \<open>What was done when the run ended: nothing, or a first part of the cleared import.\<close>

definition import_part ::
  "libs \<Rightarrow> system \<Rightarrow> yaml_lib \<Rightarrow> daemon_client \<Rightarrow> bool \<Rightarrow> import_target \<Rightarrow> key_values \<Rightarrow>
   served \<Rightarrow> files \<Rightarrow> served \<Rightarrow> files \<Rightarrow> bool" where
  "import_part L S Y cl overwrite target pairs d fs d' fs' \<longleftrightarrow>
     served_view d' = served_view d \<and> fs' = fs \<or>
     import_cleared L S Y cl overwrite target pairs (served_view d) \<and>
     (\<exists>i. i \<le> length pairs \<and> served_view d' = served_view d ++ map_of (take i (scoped_pairs target pairs)) \<and>
        (fs' = fs \<or> i = length pairs))"

lemma import_run_effect:
  assumes "libs_ok L" and "served_ok L d" and pairs: "distinct (map fst pairs)"
    and run: "import_run L S Y (daemon_peer L (sys_uid S) (dc_token cl)) cl overwrite target pairs d fs outs = (out, d', fs')"
  shows "served_ok L d' \<and> (overwrite \<or> served_view d \<subseteq>\<^sub>m served_view d') \<and>
    import_part L S Y cl overwrite target pairs d fs d' fs' \<and>
    (out = Imported n k m \<longrightarrow> n = length pairs \<and>
       (\<exists>text. import_recorded Y target pairs d d' text \<and>
          (text = it_text target \<and> fs' = fs \<or> fs' (it_write_path target) = Some (complete_file text mode_0644))))"
proof -
  let ?P = "daemon_peer L (sys_uid S) (dc_token cl)"
  obtain r d1 where plan: "import_plan L S Y ?P cl overwrite target pairs d = (r, d1)"
    by (cases "import_plan L S Y ?P cl overwrite target pairs d")
  note eff = import_plan_effect [OF assms(1,2) plan]
  have d1: "served_ok L d1" "served_view d1 = served_view d" using eff by (simp_all add: unchanged_def)
  show ?thesis
  proof (cases r)
    case (Inl what)
    then show ?thesis using run plan d1 by (auto simp: import_run_def import_part_def)
  next
    case (Inr res)
    then obtain entries collisions new_text where r: "r = Inr (entries, collisions, new_text)" by (cases res) auto
    have e: "entries_of target pairs entries" "collisions = [] \<or> overwrite"
      "collisions = filter (\<lambda>k. served_view d k \<noteq> None) (map ie_key entries)"
      "manifest_with_entries Y (it_text target) (it_project target) (it_env target)
         (map (\<lambda>(var, v). (var, var)) pairs) = Inr new_text"
      "\<forall>e \<in> set entries. check_request L cl ''set'' (ie_key e) (Some (ie_value e)) = Inr ()"
      "new_text \<noteq> it_text target \<longrightarrow> require_creatable_manifest_dir S (it_write_path target) = Inr ()"
      using eff r by blast+
    have unstored: "\<forall>e \<in> set entries. overwrite \<or> served_view d (ie_key e) = None"
      using e(2,3) by (auto simp: filter_empty_conv)
    note cleared = entries_cleared [OF e(1) unstored e(5,4,6)]
    have len: "length entries = length pairs"
      using e(1) by (auto simp: entries_of_def collectE_Inr_list_all2 dest: list_all2_lengthD)
    obtain s d2 where st: "import_store L (sys_uid S) ?P cl [] entries d1 = (s, d2)"
      by (cases "import_store L (sys_uid S) ?P cl [] entries d1")
    have keys: "\<forall>e \<in> set entries. ie_key e \<noteq> []" using entries_of_Inr(3) [OF e(1)] by blast
    obtain i where i: "served_ok L d2" "served_view d2 = served_view d ++ stored_map (take i entries)"
      "s = Inr () \<longrightarrow> i = length entries" "i \<le> length entries"
      using import_store_effect [OF assms(1) d1(1) keys st] d1(2) by auto
    have part: "import_part L S Y cl overwrite target pairs d fs d2 fs1" if "fs1 = fs \<or> i = length pairs" for fs1
      using cleared i(2,4) len stored_take [OF e(1) pairs, of i] that by (auto simp: import_part_def)
    have d': "d' = d2" using run plan r st by (auto simp: import_run_def split: sum.splits prod.splits)
    have kept: "overwrite \<or> served_view d \<subseteq>\<^sub>m served_view d2"
    proof (cases overwrite)
      case False
      then have "\<forall>e \<in> set entries. served_view d (ie_key e) = None"
        using e(2,3) by (auto simp: filter_empty_conv)
      then show ?thesis using fresh_keys_kept [of "take i entries" "served_view d"] i(2) by (auto dest: in_set_takeD)
    qed simp
    show ?thesis
    proof (cases s)
      case (Inl what)
      then show ?thesis using run plan r st i(1) kept d' part by (auto simp: import_run_def)
    next
      case Inr2: (Inr u)
      let ?done = "Imported (length pairs) (length collisions) (it_manifest_path target)"
      have w: "write_manifest target new_text ?done fs outs = (out, fs')"
        using run plan r st Inr2 by (auto simp: import_run_def split: prod.splits)
      have "stored_map entries = map_of (scoped_pairs target pairs)"
        using stored_take [OF e(1) pairs, of "length entries"] len by (simp add: scoped_pairs_def)
      then have recorded: "import_recorded Y target pairs d d' new_text"
        using i(2,3) Inr2 e(4) d' by (simp add: import_recorded_def)
      then show ?thesis
        using write_manifest_effect [OF w, of n k m] i(1,3) kept d' part [of fs'] Inr2 len by auto
    qed
  qed
qed

lemma cmd_import_run:
  assumes "cmd_import L S Y paths probe cwd read_file P argv d fs outs = (out, d', fs')"
    and "daemon_client_of paths read_file = Inr cl"
  shows "(\<exists>what. d' = d \<and> fs' = fs \<and> (out = ImportUsage \<or> out = ImportFailed what)) \<or>
    (\<exists>args place target pairs. import_args_of argv no_import_args = Inr args \<and>
       import_place S Y paths cwd (im_scope args) = Inr place \<and>
       import_target_of S Y probe (im_scope args) place = Inr target \<and> import_pairs read_file args = Inr pairs \<and>
       import_run L S Y P cl (im_overwrite args) target pairs d fs outs = (out, d', fs'))"
proof (cases "import_args_of argv no_import_args")
  case (Inl what)
  then show ?thesis using assms by (simp add: cmd_import_def)
next
  case (Inr args)
  let ?plan = "bindE (import_place S Y paths cwd (im_scope args)) (\<lambda>place.
                bindE (import_target_of S Y probe (im_scope args) place) (\<lambda>target.
                bindE (import_pairs read_file args) (\<lambda>pairs.
                bindE (daemon_client_of paths read_file) (\<lambda>cl. Inr (target, pairs, cl)))))"
  show ?thesis
  proof (cases ?plan)
    case Inl2: (Inl what)
    then show ?thesis using assms(1) unfolding cmd_import_def Inr by (auto simp del: bindE_eq_Inl)
  next
    case Inr2: (Inr x)
    then show ?thesis using assms Inr by (auto simp: cmd_import_def)
  qed
qed

lemma import_pairs_distinct: "import_pairs read_file args = Inr pairs \<Longrightarrow> distinct (map fst pairs)"
  by (auto simp: import_pairs_def Let_def split: if_splits) (use parse_dotenv_keys in blast)

end
