(* ===== verification/ImportProps.thy ===== *)
theory ImportProps
  imports Import ManifestProps
begin

text \<open>The properties of \<open>import\<close>, with a run that makes a manifest and stores one secret.\<close>

text \<open>
  C27. What a finished import did: every variable of the dotenv file is stored under the scope's
  key and nothing else changed in the store; and the manifest on disk is the edited text, which
  was checked to map each of them, or needed no edit and was left alone.
\<close>

theorem import_stores:
  assumes "libs_ok L" and "served_ok L d" and "daemon_client_of paths read_file = Inr cl"
    and "cmd_import L S Y paths probe cwd read_file (daemon_peer L (sys_uid S) (dc_token cl)) argv d fs outs =
      (Imported n k manifest, d', fs')"
  shows "\<exists>args place target pairs text. import_args_of argv no_import_args = Inr args \<and>
    import_place S Y paths cwd (im_scope args) = Inr place \<and>
    import_target_of S Y probe (im_scope args) place = Inr target \<and> import_pairs read_file args = Inr pairs \<and>
    n = length pairs \<and> served_ok L d' \<and>
    served_view d' = served_view d ++
      map_of (map (\<lambda>(var, v). (it_env target @ SLASH # it_project target @ SLASH # var, v)) pairs) \<and>
    manifest_with_entries Y (it_text target) (it_project target) (it_env target)
      (map (\<lambda>(var, v). (var, var)) pairs) = Inr text \<and>
    (text = it_text target \<and> fs' = fs \<or> fs' (it_write_path target) = Some (complete_file text mode_0644))"
proof -
  obtain args place target pairs where c: "import_args_of argv no_import_args = Inr args"
    "import_place S Y paths cwd (im_scope args) = Inr place"
    "import_target_of S Y probe (im_scope args) place = Inr target" "import_pairs read_file args = Inr pairs"
    "import_run L S Y (daemon_peer L (sys_uid S) (dc_token cl)) cl (im_overwrite args) target pairs d fs outs =
      (Imported n k manifest, d', fs')"
    using cmd_import_run [OF assms(4,3)] by auto
  note eff = import_run_effect [OF assms(1,2) import_pairs_distinct [OF c(4)] c(5), of n k manifest]
  then obtain edited where edited: "import_recorded Y target pairs d d' edited"
    "edited = it_text target \<and> fs' = fs \<or> fs' (it_write_path target) = Some (complete_file edited mode_0644)"
    by blast
  have "n = length pairs" "served_ok L d'" using eff by simp_all
  then show ?thesis
    using c(1-4) edited
    by (intro exI [of _ args] exI [of _ place] exI [of _ target] exI [of _ pairs] exI [of _ edited])
      (simp add: import_recorded_def scoped_pairs_def)
qed


section \<open>A run\<close>

definition import_system :: system where
  "import_system = toy_system\<lparr>sys_accessible := \<lambda>p. False, sys_exists_nofollow := \<lambda>p. False\<rparr>"

definition import_yaml :: yaml where
  "import_yaml = YMap
     [(YScalar ''name'', YScalar ''b''),
      (YScalar ''env'', YMap [(YScalar ''a'', YMap [(YScalar ''secrets'',
         YMap [(YScalar ''c'', YMap [(YScalar ''env_var_name'', YScalar ''c'')])])])])]"

definition import_lib :: yaml_lib where
  "import_lib = toy_yaml\<lparr>yaml_load := \<lambda>t. Inr import_yaml\<rparr>"

definition import_files :: "string \<Rightarrow> string + string" where
  "import_files path = (if path = ''/c/token'' then Inr toy_token else if path = ''.env'' then Inr (''c=v'' @ [LF]) else Inl ''open'')"

definition import_argv :: "string list" where
  "import_argv = [''-p'', ''b'', ''-e'', ''a'']"

definition import_text :: string where
  "import_text = projr (manifest_with_entries import_lib [] ''b'' ''a'' [(''c'', ''c'')])"

text \<open>One reading of the clock before \<open>toy_world\<close>, whose \<open>set\<close> is known to return.\<close>

definition import_world :: world where
  "import_world = toy_world\<lparr>w_tick := w_tick toy_world - 1\<rparr>"

lemma import_world_next: "import_world\<lparr>w_tick := Suc (w_tick import_world)\<rparr> = toy_world"
proof -
  have "0 < w_tick toy_world" by code_simp
  then show ?thesis by (simp add: import_world_def)
qed

definition import_goal :: import_target where
  "import_goal =
     \<lparr>it_manifest_path = ''/p/.secretov.yaml'', it_write_path = ''/p/.secretov.yaml'', it_text = [],
      it_project = ''b'', it_env = ''a''\<rparr>"

lemma import_lists_none:
  "request toy 7 (daemon_peer toy 7 (dc_token toy_client)) toy_client ''getprefix'' ''a/b/'' None (toy_store, import_world)
     = (Inr (success [(''values'', JObject (map (\<lambda>(k, v). (k, JString v)) []))]), (toy_store, toy_world))"
proof -
  let ?rq = "wire_request toy_client ''getprefix'' ''a/b/'' None"
  have r: "restrict_prefix ''a/b/'' (store_view toy_store) = []" by (simp add: toy_view restrict_prefix_def)
  then have g: "get_prefix toy ''a/b/'' toy_store = Inr []" using get_prefix_spec [OF toy_service] by simp
  have "case ok_values toy [] of Inl e \<Rightarrow> False | Inr t \<Rightarrow> length t \<le> 200" by code_simp
  then obtain t where t: "ok_values toy [] = Inr t" "length t \<le> 200" by (auto split: sum.splits)
  have d: "dispatch toy ?rq (clock toy (w_tick import_world)) toy_store (import_world\<lparr>w_tick := Suc (w_tick import_world)\<rparr>) =
      (Inr t, toy_store, toy_world)"
    using g t unfolding import_world_next by (simp add: dispatch_def wire_request_def bindM_def readM_def liftM_def)
  have "case json_dump toy (JObject (smap_put ''token'' (JString (dc_token toy_client))
      (make_request ''getprefix'' ''a/b/'' None))) of Inl e \<Rightarrow> False | Inr l \<Rightarrow> length l \<le> 200"
    by code_simp
  then have fits: "check_request toy toy_client ''getprefix'' ''a/b/'' None = Inr ()"
    by (auto simp: check_request_def serialize_def kMaxRequestBytes_def split: sum.splits)
  have spec: "fst (kv_spec ?rq (store_view toy_store)) = success [(''values'', JObject [])]"
    using r by (simp add: kv_spec_def wire_request_def)
  then have "answerable ?rq (store_view toy_store)" by (auto simp: answerable_def)
  from request_completes [OF toy_ok toy_service fits d _ this] t spec show ?thesis
    by (simp add: kMaxResponseBytes_def)
qed

lemma import_runs:
  "\<exists>d' fs'. cmd_import toy import_system import_lib toy_paths (\<lambda>p. Inr False) (Inr ''/p'') import_files
     (daemon_peer toy 7 (dc_token toy_client)) import_argv (toy_store, import_world) Map.empty one_write =
   (Imported 1 0 ''/p/.secretov.yaml'', d', fs')"
proof -
  let ?args = "\<lparr>im_scope = \<lparr>sc_project = Some ''b'', sc_env = Some ''a''\<rparr>, im_overwrite = False, im_file = None\<rparr>"
  let ?entry = "\<lparr>ie_key = ''a/b/c'', ie_var = ''c'', ie_value = ''v''\<rparr>"
  have args: "import_args_of import_argv no_import_args = Inr ?args"
    by (simp add: import_argv_def import_args_of.simps take_scope_arg_def no_import_args_def no_scope_def)
  have place: "import_place import_system import_lib toy_paths (Inr ''/p'') (im_scope ?args) = Inr (''/p/.secretov.yaml'', ''b'')"
    by code_simp
  have target: "import_target_of import_system import_lib (\<lambda>p. Inr False) (im_scope ?args) (''/p/.secretov.yaml'', ''b'') =
      Inr import_goal"
    by code_simp
  have pairs: "import_pairs import_files ?args = Inr [(''c'', ''v'')]" by code_simp
  have cl: "daemon_client_of toy_paths import_files = Inr toy_client" by code_simp
  have pre: "scope_prefix (it_env import_goal) (it_project import_goal) = Inr ''a/b/''" by code_simp
  have entries: "collectE (import_entry_of import_goal) [(''c'', ''v'')] = Inr [?entry]" by code_simp
  have edit: "manifest_with_entries import_lib [] ''b'' ''a'' [(''c'', ''c'')] = Inr import_text" "import_text \<noteq> []"
    by code_simp+
  have dir: "require_creatable_manifest_dir import_system ''/p/.secretov.yaml'' = Inr ()" by code_simp
  have wrote: "case fst (fst (write_file_atomic ''/p/.secretov.yaml'' import_text mode_0644 Map.empty one_write)) of
      Returned w \<Rightarrow> True | _ \<Rightarrow> False"
    by code_simp
  have uid: "sys_uid import_system = 7" by (simp add: import_system_def toy_system_def)
  have goal: "it_text import_goal = []" "it_project import_goal = ''b''" "it_env import_goal = ''a''"
    "it_write_path import_goal = ''/p/.secretov.yaml''" "it_manifest_path import_goal = ''/p/.secretov.yaml''"
    by (simp_all add: import_goal_def)
  have checks: "import_checks toy import_system import_lib toy_client False import_goal [(''c'', ''v'')] [] =
      Inr ([?entry], [], import_text)"
    using edit dir toy_fits entries
    by (simp add: import_checks_def Let_def import_collisions_def sendable_def goal)
  have none_stored: "stored_values toy (success [(''values'', JObject [])]) = Inr []"
    using stored_values_success [of toy "[]"] by simp
  have plan: "import_plan toy import_system import_lib (daemon_peer toy 7 (dc_token toy_client)) toy_client False import_goal
      [(''c'', ''v'')] (toy_store, import_world) = (Inr ([?entry], [], import_text), (toy_store, toy_world))"
    using pre import_lists_none checks none_stored by (simp add: import_plan_def uid)
  obtain d' where set: "request toy 7 (daemon_peer toy 7 (dc_token toy_client)) toy_client ''set'' ''a/b/c'' (Some ''v'')
     (toy_store, toy_world) = (Inr (success []), d')"
    using toy_sets by blast
  obtain w fs' rest where "write_file_atomic ''/p/.secretov.yaml'' import_text mode_0644 Map.empty one_write = ((Returned w, fs'), rest)"
    using wrote
    by (cases "write_file_atomic ''/p/.secretov.yaml'' import_text mode_0644 Map.empty one_write") (auto split: wfa_pc.splits)
  then have "import_run toy import_system import_lib (daemon_peer toy 7 (dc_token toy_client)) toy_client False import_goal
      [(''c'', ''v'')] (toy_store, import_world) Map.empty one_write = (Imported 1 0 ''/p/.secretov.yaml'', d', fs')"
    using plan set edit(2) by (simp add: import_run_def uid write_manifest_def goal)
  then show ?thesis by (simp add: cmd_import_def args place [simplified] target [simplified] pairs cl)
qed

abbreviation import_command :: "import_outcome \<times> served \<times> files" where
  "import_command \<equiv> cmd_import toy import_system import_lib toy_paths (\<lambda>p. Inr False) (Inr ''/p'') import_files
     (daemon_peer toy 7 (dc_token toy_client)) import_argv (toy_store, import_world) Map.empty one_write"

lemma import_given:
  "served_ok toy (toy_store, import_world)" "daemon_client_of toy_paths import_files = Inr toy_client"
  "sys_uid import_system = 7"
  "import_args_of import_argv no_import_args =
     Inr \<lparr>im_scope = \<lparr>sc_project = Some ''b'', sc_env = Some ''a''\<rparr>, im_overwrite = False, im_file = None\<rparr>"
proof -
  show "served_ok toy (toy_store, import_world)" using toy_service by (simp add: served_ok_def)
  show "daemon_client_of toy_paths import_files = Inr toy_client" by code_simp
  show "sys_uid import_system = 7" by (simp add: import_system_def toy_system_def)
  show "import_args_of import_argv no_import_args =
     Inr \<lparr>im_scope = \<lparr>sc_project = Some ''b'', sc_env = Some ''a''\<rparr>, im_overwrite = False, im_file = None\<rparr>"
    by (simp add: import_argv_def import_args_of.simps take_scope_arg_def no_import_args_def no_scope_def)
qed

theorem import_stores_witness:
  "\<exists>d' fs' (target :: import_target) pairs. import_command = (Imported 1 0 ''/p/.secretov.yaml'', d', fs') \<and> length pairs = 1 \<and>
     served_view d' = Map.empty ++
       map_of (map (\<lambda>(var, v). (it_env target @ SLASH # it_project target @ SLASH # var, v)) pairs)"
proof -
  obtain d' fs' where run: "import_command = (Imported 1 0 ''/p/.secretov.yaml'', d', fs')" using import_runs by blast
  have none: "served_view (toy_store, import_world) = Map.empty" by (simp add: served_view_def toy_view)
  obtain target :: import_target and pairs :: key_values where "1 = length pairs" "served_view d' = served_view (toy_store, import_world) ++
      map_of (map (\<lambda>(var, v). (it_env target @ SLASH # it_project target @ SLASH # var, v)) pairs)"
    using import_stores [where S = import_system, OF toy_ok import_given(1,2), unfolded import_given(3), OF run] by blast
  then show ?thesis
    using run none by (intro exI [of _ d'] exI [of _ fs'] exI [of _ target] exI [of _ pairs]) simp
qed


end
