(* ===== verification/TuiEdit.thy ===== *)
theory TuiEdit
  imports Prelude
begin

text \<open>
  The text helpers of the terminal UI, src/src/tui_edit.cpp: key names, editing at a cursor,
  fitting text to columns, the rows of the key tree. Cursors and widths are C++ \<open>int\<close>s and are
  modelled by \<open>int\<close>: every text is far shorter than 2^31 bytes, so none of the sums wraps.
\<close>

section \<open>Bytes\<close>

definition is_space :: "char \<Rightarrow> bool" where
  "is_space c \<longleftrightarrow> c = SPC \<or> c = TAB \<or> c = LF \<or> c = CR \<or> c = CHR 0x0B \<or> c = CHR 0x0C"

definition is_word_separator :: "char \<Rightarrow> bool" where
  "is_word_separator c \<longleftrightarrow> is_space c \<or> c = SLASH"

text \<open>\<open>(byte & 0xC0) != 0x80\<close>.\<close>

definition starts_code_point :: "char \<Rightarrow> bool" where
  "starts_code_point c \<longleftrightarrow> byte c div 64 \<noteq> 2"

text \<open>Byte length of the longest prefix that fits, from the number of columns already taken.\<close>

fun prefix_bytes_from :: "int \<Rightarrow> int \<Rightarrow> string \<Rightarrow> nat" where
  "prefix_bytes_from columns width [] = 0"
| "prefix_bytes_from columns width (c # s) =
     (if starts_code_point c
      then if columns = width then 0 else Suc (prefix_bytes_from (columns + 1) width s)
      else Suc (prefix_bytes_from columns width s))"

definition prefix_bytes :: "string \<Rightarrow> int \<Rightarrow> nat" where
  "prefix_bytes s width = prefix_bytes_from 0 width s"

text \<open>A C1 control character at the head of the text.\<close>

fun is_c1_at :: "string \<Rightarrow> bool" where
  "is_c1_at (a # b # s) \<longleftrightarrow> byte a = 0xC2 \<and> 0x80 \<le> byte b \<and> byte b \<le> 0x9F"
| "is_c1_at s \<longleftrightarrow> False"

definition is_c0 :: "char \<Rightarrow> bool" where
  "is_c0 c \<longleftrightarrow> byte c < 0x20 \<or> byte c = 0x7F"

definition clamped :: "string \<Rightarrow> int \<Rightarrow> nat" where
  "clamped s cursor = nat (max 0 (min cursor (int (length s))))"

section \<open>Key names\<close>

definition trim_key_name :: "string \<Rightarrow> string" where
  "trim_key_name name = rev (dropWhile is_space (rev (dropWhile is_space name)))"

fun has_control_char :: "string \<Rightarrow> bool" where
  "has_control_char [] \<longleftrightarrow> False"
| "has_control_char (c # s) \<longleftrightarrow> is_c0 c \<or> is_c1_at (c # s) \<or> has_control_char s"

text \<open>\<open>name.find("//")\<close>.\<close>

fun has_empty_segment :: "string \<Rightarrow> bool" where
  "has_empty_segment (a # b # s) \<longleftrightarrow> a = SLASH \<and> b = SLASH \<or> has_empty_segment (b # s)"
| "has_empty_segment s \<longleftrightarrow> False"

definition key_name_error :: "string \<Rightarrow> string option" where
  "key_name_error name =
     (if name = [] then Some ''name required''
      else if has_control_char name then Some ''name can't contain control characters''
      else if hd name = SLASH then Some (''name can't start with '' @ quoted ''/'')
      else if last name = SLASH then Some (''name can't end with '' @ quoted ''/'' @ '' (add a KEY after the folder)'')
      else if has_empty_segment name then Some (''name can't have an empty segment ('' @ quoted ''//'' @ '')'')
      else None)"

definition folder_prefix :: "string \<Rightarrow> string" where
  "folder_prefix row_id =
     (case rfind_char SLASH row_id of None \<Rightarrow> [] | Some last_slash \<Rightarrow> take (last_slash + 1) row_id)"

text \<open>\<open>std::tolower\<close> in the "C" locale.\<close>

definition tolower :: "char \<Rightarrow> char" where
  "tolower c = (if byte CHR ''A'' \<le> byte c \<and> byte c \<le> byte CHR ''Z'' then char_of (byte c + 32) else c)"

text \<open>\<open>std::search\<close> with the comparison of the source.\<close>

definition same_ignoring_case :: "char \<Rightarrow> char \<Rightarrow> bool" where
  "same_ignoring_case a b \<longleftrightarrow> tolower a = tolower b"

fun search_from :: "string \<Rightarrow> string \<Rightarrow> bool" where
  "search_from [] needle \<longleftrightarrow> needle = []"
| "search_from (c # s) needle \<longleftrightarrow>
     length needle \<le> length (c # s) \<and> list_all2 same_ignoring_case (take (length needle) (c # s)) needle \<or>
     search_from s needle"

definition contains_ignore_case :: "string \<Rightarrow> string \<Rightarrow> bool" where
  "contains_ignore_case s needle \<longleftrightarrow> (if needle = [] then True else search_from s needle)"

text \<open>\<open>sodium_bin2base64\<close> is a parameter; it writes the text and a NUL, which becomes a BEL.\<close>

definition osc52_copy_sequence :: "(string \<Rightarrow> string) \<Rightarrow> string \<Rightarrow> string" where
  "osc52_copy_sequence bin2base64 v = [CHR 0x1B] @ '']52;c;'' @ bin2base64 v @ [CHR 0x07]"

section \<open>Editing at a cursor\<close>

definition insert_at_cursor :: "string \<Rightarrow> int \<Rightarrow> string \<Rightarrow> string \<times> int" where
  "insert_at_cursor s cursor inserted =
     (let position = clamped s cursor in
      (take position s @ inserted @ drop position s, int (position + length inserted)))"

text \<open>On the reversed text: what is dropped from the back.\<close>

fun drop_code_point :: "string \<Rightarrow> string" where
  "drop_code_point [] = []"
| "drop_code_point (removed # s) = (if starts_code_point removed then s else drop_code_point s)"

definition erase_last_code_point :: "string \<Rightarrow> string" where
  "erase_last_code_point s = rev (drop_code_point (rev s))"

text \<open>Walks back from a position while the byte before it satisfies the condition.\<close>

fun back_while :: "(char \<Rightarrow> bool) \<Rightarrow> string \<Rightarrow> nat \<Rightarrow> nat" where
  "back_while p s 0 = 0"
| "back_while p s (Suc position) = (if p (s ! position) then back_while p s position else Suc position)"

definition line_start :: "string \<Rightarrow> int \<Rightarrow> int" where
  "line_start s cursor = int (back_while (\<lambda>c. c \<noteq> LF) s (clamped s cursor))"

definition line_end :: "string \<Rightarrow> int \<Rightarrow> int" where
  "line_end s cursor =
     int (clamped s cursor + length (takeWhile (\<lambda>c. c \<noteq> LF) (drop (clamped s cursor) s)))"

text \<open>\<open>text.erase(start, end - start)\<close>, the cursor put at the start.\<close>

definition erase_range :: "string \<Rightarrow> nat \<Rightarrow> nat \<Rightarrow> string \<times> int" where
  "erase_range s start stop = (take start s @ drop stop s, int start)"

definition erase_to_line_start :: "string \<Rightarrow> int \<Rightarrow> string \<times> int" where
  "erase_to_line_start s cursor = erase_range s (nat (line_start s cursor)) (clamped s cursor)"

definition erase_word_before :: "string \<Rightarrow> int \<Rightarrow> string \<times> int" where
  "erase_word_before s cursor =
     (let stop = clamped s cursor;
          start = back_while is_word_separator s stop;
          start = back_while (\<lambda>c. \<not> is_word_separator c) s start
      in erase_range s start stop)"

section \<open>Fitting text to columns\<close>

definition text_columns :: "string \<Rightarrow> int" where
  "text_columns s = int (length (filter starts_code_point s))"

definition ellipsis :: string where "ellipsis = [CHR 0xE2, CHR 0x80, CHR 0xA6]"

definition ellipsize :: "string \<Rightarrow> int \<Rightarrow> string" where
  "ellipsize s width =
     (if text_columns s \<le> width then s
      else if width \<le> 0 then []
      else take (prefix_bytes s (width - 1)) s @ ellipsis)"

definition ellipsize_middle :: "string \<Rightarrow> int \<Rightarrow> string" where
  "ellipsize_middle s width =
     (let columns = text_columns s in
      if columns \<le> width then s
      else if width \<le> 0 then []
      else let head = (width - 1) div 2; tail = width - 1 - head in
        take (prefix_bytes s head) s @ ellipsis @ drop (prefix_bytes s (columns - tail)) s)"

lemma prefix_bytes_progress:
  "columns < width \<Longrightarrow> s \<noteq> [] \<Longrightarrow> 0 < prefix_bytes_from columns width s"
  by (cases s) auto

lemma prefix_bytes_pos [simp]: "0 < width \<Longrightarrow> s \<noteq> [] \<Longrightarrow> 0 < prefix_bytes s width"
  by (simp add: prefix_bytes_def prefix_bytes_progress)

text \<open>The do-while loop over one line; the width has been clamped to one column at least.\<close>

function line_pieces :: "string \<Rightarrow> int \<Rightarrow> string list" where
  "line_pieces line width =
     (let piece = prefix_bytes line (max width 1) in
      take piece line # (if drop piece line = [] then [] else line_pieces (drop piece line) width))"
  by pat_completeness auto
termination
  by (relation "measure (\<lambda>(line, width). length line)") (auto intro!: diff_less prefix_bytes_pos)

function wrap_lines :: "string \<Rightarrow> int \<Rightarrow> string list" where
  "wrap_lines s width =
     (case find_char LF s of
        None \<Rightarrow> line_pieces s width
      | Some newline \<Rightarrow> line_pieces (take newline s) width @ wrap_lines (drop (newline + 1) s) width)"
  by pat_completeness auto
termination
  by (relation "measure (\<lambda>(s, width). length s)") (auto dest: find_char_split)

declare line_pieces.simps [simp del] wrap_lines.simps [simp del]

text \<open>The inner loop of \<open>word_wrap\<close>: puts one word on the line, or on lines of its own.\<close>

function place_word :: "int \<Rightarrow> string \<Rightarrow> string list \<Rightarrow> string \<Rightarrow> string list \<times> string" where
  "place_word width word lines line =
     (if word = [] then (lines, line) else
      let needed = text_columns line + (if line = [] then 0 else 1) + text_columns word in
      if needed \<le> max width 1 then (lines, (if line \<noteq> [] then line @ [SPC] else line) @ word)
      else if line \<noteq> [] then place_word width word (lines @ [line]) []
      else
        let piece = prefix_bytes word (max width 1) in
        place_word width (drop piece word) (lines @ [take piece word]) line)"
  by pat_completeness auto
termination
  by (relation "measures [\<lambda>(width, word, lines, line). length word, \<lambda>(width, word, lines, line). length line]") auto

function wrap_words :: "int \<Rightarrow> string \<Rightarrow> string list \<Rightarrow> string \<Rightarrow> string list \<times> string" where
  "wrap_words width s lines line =
     (if s = [] then (lines, line) else
      let space = or_else (find_char SPC s) (length s) in
      case place_word width (take space s) lines line of
        (lines, line) \<Rightarrow> wrap_words width (drop (space + 1) s) lines line)"
  by pat_completeness auto
termination
  by (relation "measure (\<lambda>(width, s, lines, line). length s)") auto

declare place_word.simps [simp del] wrap_words.simps [simp del]

definition word_wrap :: "string \<Rightarrow> int \<Rightarrow> string list" where
  "word_wrap s width =
     (case wrap_words width s [] [] of
        (lines, line) \<Rightarrow> if line \<noteq> [] \<or> lines = [] then lines @ [line] else lines)"

definition blanks :: "int \<Rightarrow> string" where
  "blanks n = replicate (nat n) SPC"

definition kMinTextColumns :: int where "kMinTextColumns = 16"

definition help_row_lines :: "string \<Rightarrow> string \<Rightarrow> int \<Rightarrow> int \<Rightarrow> string list" where
  "help_row_lines keys s keys_width width =
     (let text_width = width - 2 - keys_width in
      if text_width \<ge> kMinTextColumns then
        let padding = (if keys = [] then keys_width else max (keys_width - text_columns keys) 1);
            key_cell = ''  '' @ keys @ blanks padding;
            indent = blanks (2 + keys_width)
        in (case word_wrap s text_width of
              [] \<Rightarrow> []
            | piece # pieces \<Rightarrow> (key_cell @ piece) # map (\<lambda>piece. indent @ piece) pieces)
      else
        (if keys \<noteq> [] then [''  '' @ ellipsize keys (width - 2)] else []) @
        map (\<lambda>piece. ''    '' @ piece) (word_wrap s (width - 4)))"

section \<open>What is drawn\<close>

fun printable :: "string \<Rightarrow> string" where
  "printable [] = []"
| "printable (a # s) =
     (if is_c1_at (a # s) then CHR ''?'' # printable (tl s)
      else (if is_c0 a then CHR ''?'' else a) # printable s)"

definition tab_glyph :: string where "tab_glyph = [CHR 0xE2, CHR 0x86, CHR 0x92]"

fun printable_value :: "string \<Rightarrow> string" where
  "printable_value [] = []"
| "printable_value (a # s) =
     (if a = TAB then tab_glyph @ printable_value s
      else if is_c1_at (a # s) then CHR ''?'' # printable_value (tl s)
      else (if byte a < 0x20 \<and> a \<noteq> LF \<or> byte a = 0x7F then CHR ''?'' else a) # printable_value s)"

definition join_hints :: "string list \<Rightarrow> string" where
  "join_hints hints = foldl (\<lambda>line hint. line @ (if line = [] then [] else ''  '') @ hint) [] hints"

text \<open>\<open>kept.erase(kept.end() - 2)\<close> until it fits.\<close>

function fit_kept :: "string list \<Rightarrow> int \<Rightarrow> string list" where
  "fit_kept kept width =
     (if length kept > 1 \<and> text_columns (join_hints kept) > width
      then fit_kept (take (length kept - 2) kept @ [last kept]) width
      else kept)"
  by pat_completeness auto
termination
  by (relation "measure (\<lambda>(kept, width). length kept)") auto

declare fit_kept.simps [simp del]

definition fit_hints :: "string list \<Rightarrow> int \<Rightarrow> string" where
  "fit_hints hints width = join_hints (fit_kept hints width)"

section \<open>The rows of the key tree\<close>

record row =
  row_id :: string
  row_dir :: bool
  row_depth :: nat

definition is_folded :: "string \<Rightarrow> string set \<Rightarrow> string \<Rightarrow> bool" where
  "is_folded flt collapsed folder_id \<longleftrightarrow> flt = [] \<and> folder_id \<in> collapsed"

text \<open>"a/", "a/b/", ... for a key, from the part already passed.\<close>

fun folders_from :: "string \<Rightarrow> string \<Rightarrow> string list" where
  "folders_from passed [] = []"
| "folders_from passed (c # s) =
     (if c = SLASH then (passed @ [c]) # folders_from (passed @ [c]) s else folders_from (passed @ [c]) s)"

definition folders_of :: "string \<Rightarrow> string list" where
  "folders_of key = folders_from [] key"

text \<open>How many folders of the branch the key shares.\<close>

fun shared_count :: "string list \<Rightarrow> string list \<Rightarrow> nat" where
  "shared_count (b # branch) (f # folders) = (if b = f then Suc (shared_count branch folders) else 0)"
| "shared_count branch folders = 0"

text \<open>The loop over the folders not open yet, from a depth and the end of the folder above.\<close>

fun open_folders ::
  "string \<Rightarrow> string set \<Rightarrow> nat \<Rightarrow> nat \<Rightarrow> string list \<Rightarrow> bool \<Rightarrow> (row \<times> string) list \<Rightarrow> bool \<times> (row \<times> string) list" where
  "open_folders flt collapsed depth name_start [] hidden acc = (hidden, acc)"
| "open_folders flt collapsed depth name_start (folder # folders) hidden acc =
     (let acc = (if \<not> hidden
                 then acc @ [(\<lparr>row_id = folder, row_dir = True, row_depth = depth\<rparr>, printable (drop name_start folder))]
                 else acc)
      in open_folders flt collapsed (depth + 1) (length folder) folders (hidden \<or> is_folded flt collapsed folder) acc)"

definition folder_end :: "string list \<Rightarrow> nat \<Rightarrow> nat" where
  "folder_end folders depth = (if depth = 0 then 0 else length (folders ! (depth - 1)))"

text \<open>One key: the branch open after it, and the rows with their labels.\<close>

definition add_key ::
  "string \<Rightarrow> string set \<Rightarrow> string \<Rightarrow> string list \<times> (row \<times> string) list \<Rightarrow> string list \<times> (row \<times> string) list" where
  "add_key flt collapsed key st =
     (case st of (branch, acc) \<Rightarrow>
       if \<not> contains_ignore_case key flt then (branch, acc) else
       let folders = folders_of key;
           shared = shared_count branch folders;
           hidden = list_ex (is_folded flt collapsed) (take shared branch)
       in (case open_folders flt collapsed shared (folder_end folders shared) (drop shared folders) hidden acc of
             (hidden, acc) \<Rightarrow>
               (take shared branch @ drop shared folders,
                if \<not> hidden
                then acc @ [(\<lparr>row_id = key, row_dir = False, row_depth = length folders\<rparr>,
                             printable (drop (folder_end folders (length folders)) key))]
                else acc)))"

definition build_rows :: "string list \<Rightarrow> string \<Rightarrow> string set \<Rightarrow> row list \<times> string list" where
  "build_rows keys flt collapsed =
     (let acc = snd (fold (add_key flt collapsed) keys ([], [])) in (map fst acc, map snd acc))"

section \<open>Where the selection lands after a delete\<close>

text \<open>The first row of the depth among the given ones, up to the first shallower row.\<close>

definition sibling :: "nat \<Rightarrow> row list \<Rightarrow> string list" where
  "sibling depth rows =
     (case find (\<lambda>r. row_depth r = depth) (takeWhile (\<lambda>r. row_depth r \<ge> depth) rows) of
        None \<Rightarrow> [] | Some r \<Rightarrow> [row_id r])"

text \<open>The enclosing folders, innermost first.\<close>

lemma folder_prefix_shorter: "folder_prefix s \<noteq> [] \<Longrightarrow> length (folder_prefix s) \<le> length s"
  by (auto simp: folder_prefix_def split: option.splits)

function enclosing :: "string \<Rightarrow> string list" where
  "enclosing folder =
     (if folder = [] then [] else folder # enclosing (folder_prefix (butlast folder)))"
  by pat_completeness auto
termination
proof (relation "measure length", goal_cases)
  case (2 folder)
  then show ?case
    using folder_prefix_shorter [of "butlast folder"]
    by (cases folder; cases "folder_prefix (butlast folder) = []") auto
qed simp

declare enclosing.simps [simp del]

definition delete_landing :: "row list \<Rightarrow> nat \<Rightarrow> string list" where
  "delete_landing rows selected =
     (let depth = row_depth (rows ! selected);
          deleted = row_id (rows ! selected);
          above = rev (take selected rows)
      in sibling depth (drop (selected + 1) rows) @ sibling depth above @ enclosing (folder_prefix deleted) @
         (case find (\<lambda>r. \<not> has_prefix deleted (row_id r)) above of None \<Rightarrow> [] | Some r \<Rightarrow> [row_id r]))"

end
