(* ===== verification/Tui.thy ===== *)
theory Tui
  imports TuiEdit Commands
begin

text \<open>
  The state of the terminal UI and its operations, the lambdas of \<open>run_ui\<close> in src/src/tui.cpp.
  What they read of the world is the record \<open>tui_env\<close>: the daemon, the clock (one reading per
  call of \<open>Clock::now\<close>, in milliseconds), the terminal, and the FTXUI components.
\<close>

section \<open>State\<close>

datatype tui_mode = Normal | Filter | Help | Add | Edit | ConfirmDelete | ConfirmOverwrite

datatype daemon_state = DaemonOk | DaemonBusy | DaemonAway

record ui =
  ui_keys :: "string list"
  ui_rows :: "row list"
  ui_labels :: "string list"
  ui_collapsed :: "string set"
  ui_selected :: nat
  ui_selection_id :: string
  ui_revealed :: "string option"
  ui_revealed_at :: int
  ui_filter :: string
  ui_add_name :: string
  ui_add_value :: string
  ui_name_cursor :: int
  ui_value_cursor :: int
  ui_value_masked :: bool
  ui_show_problem :: bool
  ui_paste :: string
  ui_pasting :: bool
  ui_held_since :: "int option"
  ui_held_is_tab :: bool
  ui_ignore_until :: int
  ui_help_scroll :: int
  ui_status :: string
  ui_status_is_error :: bool
  ui_status_at :: int
  ui_daemon :: daemon_state
  ui_mode :: tui_mode
  ui_active_tab :: nat
  ui_form_field :: nat
  ui_detail_scroll :: int
  ui_keep_view :: bool
  ui_ticks :: nat       \<comment> \<open>clock readings so far\<close>
  ui_exited :: bool     \<comment> \<open>\<open>screen.Exit()\<close> was called\<close>

definition fresh_ui :: ui where
  "fresh_ui =
     \<lparr>ui_keys = [], ui_rows = [], ui_labels = [], ui_collapsed = {}, ui_selected = 0, ui_selection_id = [],
      ui_revealed = None, ui_revealed_at = 0, ui_filter = [], ui_add_name = [], ui_add_value = [],
      ui_name_cursor = 0, ui_value_cursor = 0, ui_value_masked = True, ui_show_problem = False, ui_paste = [],
      ui_pasting = False, ui_held_since = None, ui_held_is_tab = False, ui_ignore_until = 0, ui_help_scroll = 0,
      ui_status = [], ui_status_is_error = False, ui_status_at = 0, ui_daemon = DaemonOk, ui_mode = Normal,
      ui_active_tab = 0, ui_form_field = 0, ui_detail_scroll = 0, ui_keep_view = False, ui_ticks = 0,
      ui_exited = False\<rparr>"

text \<open>\<open>write\<close> on the terminal: how many bytes were taken.\<close>

datatype tty_write = TtyWrote nat | TtyInterrupted | TtyFailed string

text \<open>The events of FTXUI the program distinguishes.\<close>

datatype mouse_button = LeftButton | WheelUp | WheelDown | OtherButton

datatype ui_event =
    CustomTick
  | Character string
  | ReturnKey | TabKey | EscapeKey | BackspaceKey | F1Key
  | CtrlA | CtrlC | CtrlE | CtrlR | CtrlU | CtrlW | CtrlZ
  | ArrowLeft | ArrowRight | ArrowUp | ArrowDown | PageUp | PageDown
  | PasteStart | PasteEnd
  | MouseEvent mouse_button bool    \<comment> \<open>pressed\<close>
  | OtherKey string

text \<open>The fields of the form, which FTXUI's inputs edit in place.\<close>

record form_fields =
  ff_name :: string
  ff_name_cursor :: int
  ff_value :: string
  ff_value_cursor :: int
  ff_field :: nat

record 'd tui_env =
  te_libs :: libs
  te_uid :: nat
  te_peer :: "'d peer"
  te_client :: daemon_client
  te_clock :: "nat \<Rightarrow> int"
  te_base64 :: "string \<Rightarrow> string"
  te_tty_open :: "string option"                 \<comment> \<open>why \<open>/dev/tty\<close> cannot be opened\<close>
  te_tty :: "tty_write list"
  te_menu :: "ui_event \<Rightarrow> nat \<Rightarrow> nat \<Rightarrow> bool \<times> nat"   \<comment> \<open>the menu: rows, selected; handled, selected\<close>
  te_form :: "ui_event \<Rightarrow> bool \<Rightarrow> form_fields \<Rightarrow> form_fields"   \<comment> \<open>the inputs; whether the name is shown\<close>

definition kRevealFor :: int where "kRevealFor = 60000"
definition kInfoFor :: int where "kInfoFor = 4000"
definition kPasteBurst :: int where "kPasteBurst = 50"
definition kAfterSubmitQuiet :: int where "kAfterSubmitQuiet = 100"

definition now :: "'d tui_env \<Rightarrow> ui \<Rightarrow> int \<times> ui" where
  "now V u = (te_clock V (ui_ticks u), u\<lparr>ui_ticks := Suc (ui_ticks u)\<rparr>)"

section \<open>Messages, selection, rows\<close>

definition say :: "'d tui_env \<Rightarrow> string \<Rightarrow> ui \<Rightarrow> ui" where
  "say V message u =
     (case now V u of (t, u) \<Rightarrow> u\<lparr>ui_status := message, ui_status_is_error := False, ui_status_at := t\<rparr>)"

definition complain :: "string \<Rightarrow> ui \<Rightarrow> ui" where
  "complain message u = u\<lparr>ui_status := message, ui_status_is_error := True\<rparr>"

definition remask :: "ui \<Rightarrow> ui" where
  "remask u = u\<lparr>ui_revealed := None\<rparr>"

definition row_at :: "ui \<Rightarrow> nat \<Rightarrow> row" where
  "row_at u i = ui_rows u ! i"

definition selected_id :: "ui \<Rightarrow> string" where
  "selected_id u = (if ui_rows u = [] then [] else row_id (row_at u (ui_selected u)))"

definition current_key :: "ui \<Rightarrow> string option" where
  "current_key u =
     (if ui_rows u = [] \<or> row_dir (row_at u (ui_selected u)) then None
      else Some (row_id (row_at u (ui_selected u))))"

definition need_key :: "'d tui_env \<Rightarrow> string \<Rightarrow> ui \<Rightarrow> string option \<times> ui" where
  "need_key V action u =
     (case current_key u of
        Some key \<Rightarrow> (Some key, u)
      | None \<Rightarrow> (None, say V ((if ui_rows u = [] then ''no secret to '' else ''select a secret to '') @ action) u))"

definition sync_selection :: "ui \<Rightarrow> ui" where
  "sync_selection u =
     (if selected_id u = ui_selection_id u then u
      else (remask (u\<lparr>ui_selection_id := selected_id u\<rparr>))\<lparr>ui_detail_scroll := 0\<rparr>)"

text \<open>The index of the first element that satisfies the condition.\<close>

fun find_index :: "('a \<Rightarrow> bool) \<Rightarrow> 'a list \<Rightarrow> nat option" where
  "find_index p [] = None"
| "find_index p (x # xs) = (if p x then Some 0 else map_option Suc (find_index p xs))"

definition select_row :: "string \<Rightarrow> ui \<Rightarrow> bool \<times> ui" where
  "select_row rid u =
     (case find_index (\<lambda>r. row_id r = rid) (ui_rows u) of
        Some i \<Rightarrow> (True, u\<lparr>ui_selected := i\<rparr>)
      | None \<Rightarrow> (False, u))"

definition expand_to :: "string \<Rightarrow> ui \<Rightarrow> ui" where
  "expand_to rid u =
     u\<lparr>ui_collapsed := ui_collapsed u - set (filter (\<lambda>f. length f < length rid) (folders_of rid))\<rparr>"

definition rebuild_rows :: "string \<Rightarrow> ui \<Rightarrow> bool \<times> ui" where
  "rebuild_rows select_id u =
     (case build_rows (ui_keys u) (ui_filter u) (ui_collapsed u) of
        (rows, labels) \<Rightarrow>
          let u = u\<lparr>ui_rows := rows, ui_labels := labels\<rparr> in
          (case (if select_id \<noteq> [] then select_row select_id u else (False, u)) of
             (found, u) \<Rightarrow>
               (found, if ui_selected u \<ge> length (ui_rows u) then u\<lparr>ui_selected := length (ui_rows u) - 1\<rparr> else u)))"

section \<open>The daemon\<close>

text \<open>\<open>call\<close>: the indicator follows the last attempt; a daemon not running gets a short reason.\<close>

definition call :: "('d, 'a) remote \<Rightarrow> ui \<Rightarrow> 'd \<Rightarrow> (client_error + 'a) \<times> ui \<times> 'd" where
  "call operation u d =
     (let u = u\<lparr>ui_daemon := DaemonOk\<rparr> in
      case operation d of
        (Inl (BackendFailure e), d) \<Rightarrow>
          if be_kind e \<noteq> UnreachableKind then (Inl (BackendFailure e), u, d) else
          let u = u\<lparr>ui_daemon := (if be_timed_out e then DaemonBusy else DaemonAway)\<rparr> in
          if be_not_running e
          then (Inl (BackendFailure ((backend_error_of (be_kind e)
                 ''daemon not running: start it (scripts/service start), then R'')\<lparr>be_not_running := True\<rparr>)), u, d)
          else (Inl (BackendFailure e), u, d)
      | (r, d) \<Rightarrow> (r, u, d))"

definition fetch_value :: "'d tui_env \<Rightarrow> string \<Rightarrow> ui \<Rightarrow> 'd \<Rightarrow> (client_error + string) \<times> ui \<times> 'd" where
  "fetch_value V key u d =
     (case call (get_many (te_libs V) (te_uid V) (te_peer V) (te_client V) [key]) u d of
        (Inl e, u, d) \<Rightarrow> (Inl e, u, d)
      | (Inr f, u, d) \<Rightarrow>
          (case f_failures f of
             (p, e) # _ \<Rightarrow> (Inl (BackendFailure e), u, d)
           | [] \<Rightarrow>
               (case map_of (f_values f) key of
                  Some v \<Rightarrow> (Inr v, u, d)
                | None \<Rightarrow> (Inl (RuntimeError ''map::at''), u, d))))"

text \<open>\<open>resp.value("keys", std::vector<std::string>{})\<close>.\<close>

definition json_string :: "libs \<Rightarrow> json \<Rightarrow> client_error + string" where
  "json_string L j = (case j of JString s \<Rightarrow> Inr s | _ \<Rightarrow> Inl (JsonError (json_type_error L j)))"

definition listed_keys :: "libs \<Rightarrow> json \<Rightarrow> client_error + string list" where
  "listed_keys L resp =
     (case resp of
        JObject m \<Rightarrow>
          (case map_of m ''keys'' of
             None \<Rightarrow> Inr []
           | Some (JArray js) \<Rightarrow> collectE (json_string L) js
           | Some j \<Rightarrow> Inl (JsonError (json_type_error L j)))
      | j \<Rightarrow> Inl (JsonError (json_type_error L j)))"

definition refresh :: "'d tui_env \<Rightarrow> string \<Rightarrow> ui \<Rightarrow> 'd \<Rightarrow> bool \<times> ui \<times> 'd" where
  "refresh V select_id u d =
     (case call (local_request (te_libs V) (te_uid V) (te_peer V) (te_client V) ''list'' [] None) (remask u) d of
        (r, u, d) \<Rightarrow>
          (case bindE r (listed_keys (te_libs V)) of
             Inl e \<Rightarrow> (False, complain (error_text e) u, d)
           | Inr keys \<Rightarrow> (True, snd (rebuild_rows select_id (u\<lparr>ui_keys := sort keys\<rparr>)), d)))"

definition fail :: "'d tui_env \<Rightarrow> client_error \<Rightarrow> string \<Rightarrow> ui \<Rightarrow> 'd \<Rightarrow> ui \<times> 'd" where
  "fail V e key u d =
     (case e of
        BackendFailure b \<Rightarrow>
          if be_kind b = NotFound \<and> key \<noteq> [] then
            (case refresh V key u d of
               (ok, u, d) \<Rightarrow> (complain (quoted key @ '' was removed elsewhere; list reloaded'') u, d))
          else (complain (be_what b) u, d)
      | _ \<Rightarrow> (complain (error_text e) u, d))"

definition reload :: "'d tui_env \<Rightarrow> ui \<Rightarrow> 'd \<Rightarrow> ui \<times> 'd" where
  "reload V u d =
     (case refresh V (selected_id u) u d of
        (True, u, d) \<Rightarrow> (say V (''reloaded: '' @ decimal (length (ui_keys u)) @ '' key(s)'') u, d)
      | (False, u, d) \<Rightarrow> (u, d))"

section \<open>Folding, filtering\<close>

definition fold_row :: "'d tui_env \<Rightarrow> bool option \<Rightarrow> ui \<Rightarrow> ui" where
  "fold_row V opened u =
     (if ui_rows u = [] \<or> \<not> row_dir (row_at u (ui_selected u)) then u
      else if ui_filter u \<noteq> [] then say V ''folders stay open while filtering; Esc clears the filter'' u
      else
        let rid = row_id (row_at u (ui_selected u));
            folded = (rid \<in> ui_collapsed u);
            want_folded = (case opened of Some b \<Rightarrow> \<not> b | None \<Rightarrow> \<not> folded)
        in if want_folded = folded then u
           else snd (rebuild_rows rid
             (u\<lparr>ui_collapsed := (if want_folded then insert rid (ui_collapsed u) else ui_collapsed u - {rid})\<rparr>)))"

text \<open>The last row above of smaller depth that is a folder.\<close>

definition go_parent :: "ui \<Rightarrow> ui" where
  "go_parent u =
     (if ui_rows u = [] then u else
      let depth = row_depth (row_at u (ui_selected u)) in
      case find (\<lambda>i. row_dir (row_at u i) \<and> row_depth (row_at u i) < depth) (rev [0 ..< ui_selected u]) of
        Some i \<Rightarrow> u\<lparr>ui_selected := i\<rparr>
      | None \<Rightarrow> u)"

definition apply_filter :: "ui \<Rightarrow> ui" where
  "apply_filter u =
     (case rebuild_rows (selected_id u) u of
        (True, u) \<Rightarrow> u
      | (False, u) \<Rightarrow>
          (case find_index (\<lambda>r. \<not> row_dir r) (ui_rows u) of
             Some i \<Rightarrow> u\<lparr>ui_selected := i\<rparr>
           | None \<Rightarrow> u))"

definition clear_filter :: "ui \<Rightarrow> ui" where
  "clear_filter u =
     (if ui_filter u = [] then u else
      let rid = selected_id u in snd (rebuild_rows rid (expand_to rid (u\<lparr>ui_filter := []\<rparr>))))"

section \<open>Showing and copying a value\<close>

definition reveal :: "'d tui_env \<Rightarrow> ui \<Rightarrow> 'd \<Rightarrow> ui \<times> 'd" where
  "reveal V u d =
     (case need_key V ''reveal'' u of
        (None, u) \<Rightarrow> (u, d)
      | (Some key, u) \<Rightarrow>
          (case fetch_value V key (remask u) d of
             (Inr v, u, d) \<Rightarrow>
               (case now V (u\<lparr>ui_revealed := Some v\<rparr>) of
                  (t, u) \<Rightarrow> (u\<lparr>ui_revealed_at := t, ui_keep_view := True\<rparr>, d))
           | (Inl e, u, d) \<Rightarrow> fail V e key (remask u) d))"

definition toggle_reveal :: "'d tui_env \<Rightarrow> ui \<Rightarrow> 'd \<Rightarrow> ui \<times> 'd" where
  "toggle_reveal V u d = (if ui_revealed u \<noteq> None then (remask u, d) else reveal V u d)"

fun write_to_terminal :: "tty_write list \<Rightarrow> string \<Rightarrow> string + unit" where
  "write_to_terminal outs [] = Inr ()"
| "write_to_terminal [] bytes = Inr ()"
| "write_to_terminal (TtyInterrupted # outs) bytes = write_to_terminal outs bytes"
| "write_to_terminal (TtyFailed e # outs) bytes = Inl (''write to terminal: '' @ e)"
| "write_to_terminal (TtyWrote n # outs) bytes = write_to_terminal outs (drop n bytes)"

definition copy_value :: "'d tui_env \<Rightarrow> ui \<Rightarrow> 'd \<Rightarrow> ui \<times> 'd" where
  "copy_value V u d =
     (case need_key V ''copy'' u of
        (None, u) \<Rightarrow> (u, d)
      | (Some key, u) \<Rightarrow>
          (case fetch_value V key u d of
             (Inl e, u, d) \<Rightarrow> fail V e key u d
           | (Inr v, u, d) \<Rightarrow>
               (case (case te_tty_open V of
                        Some e \<Rightarrow> Inl (''open /dev/tty: '' @ e)
                      | None \<Rightarrow> write_to_terminal (te_tty V) (osc52_copy_sequence (te_base64 V) v)) of
                  Inl what \<Rightarrow> fail V (RuntimeError what) key u d
                | Inr _ \<Rightarrow> (say V (''copied (clipboard managers may keep it): '' @ key) u, d))))"

definition expire :: "'d tui_env \<Rightarrow> ui \<Rightarrow> ui" where
  "expire V u =
     (case now V u of
        (t, u) \<Rightarrow>
          let u = (if ui_revealed u \<noteq> None \<and> t - ui_revealed_at u \<ge> kRevealFor
                   then say V ''value re-masked after 60 s'' (remask u) else u)
          in if \<not> ui_status_is_error u \<and> ui_status u \<noteq> [] \<and> t - ui_status_at u \<ge> kInfoFor
             then u\<lparr>ui_status := []\<rparr> else u)"

section \<open>The form\<close>

definition close_form :: "ui \<Rightarrow> ui" where
  "close_form u =
     u\<lparr>ui_add_name := [], ui_add_value := [], ui_name_cursor := 0, ui_value_cursor := 0, ui_value_masked := True,
       ui_show_problem := False, ui_mode := Normal, ui_active_tab := 0, ui_form_field := 0\<rparr>"

definition start_add :: "'d tui_env \<Rightarrow> ui \<Rightarrow> ui" where
  "start_add V u =
     (let u = close_form (remask u);
          u = (if ui_rows u \<noteq> [] then u\<lparr>ui_add_name := folder_prefix (row_id (row_at u (ui_selected u)))\<rparr> else u);
          u = u\<lparr>ui_name_cursor := int (length (ui_add_name u)), ui_mode := Add, ui_active_tab := 1\<rparr>
      in say V ''adding secret'' u)"

definition start_edit :: "'d tui_env \<Rightarrow> ui \<Rightarrow> 'd \<Rightarrow> ui \<times> 'd" where
  "start_edit V u d =
     (case need_key V ''edit'' u of
        (None, u) \<Rightarrow> (u, d)
      | (Some key, u) \<Rightarrow>
          (case fetch_value V key (close_form (remask u)) d of
             (Inl e, u, d) \<Rightarrow> fail V e key (u\<lparr>ui_add_value := []\<rparr>) d
           | (Inr v, u, d) \<Rightarrow>
               (say V ''editing'' (u\<lparr>ui_add_value := v, ui_value_cursor := (if LF \<in> set v then 0 else int (length v)),
                  ui_mode := Edit, ui_active_tab := 1, ui_form_field := 1\<rparr>), d)))"

definition cancel_form :: "'d tui_env \<Rightarrow> ui \<Rightarrow> ui" where
  "cancel_form V u = say V ''cancelled'' (close_form u)"

definition form_problem :: "ui \<Rightarrow> string option" where
  "form_problem u =
     (case (if ui_mode u = Add then key_name_error (trim_key_name (ui_add_name u)) else None) of
        Some e \<Rightarrow> Some e
      | None \<Rightarrow> if ui_add_value u = [] then Some ''value required'' else None)"

text \<open>The keys are sorted, so the binary search is membership.\<close>

definition key_exists :: "ui \<Rightarrow> string \<Rightarrow> bool" where
  "key_exists u key \<longleftrightarrow> key \<in> set (ui_keys u)"

definition no_reply_reason :: "backend_error \<Rightarrow> string" where
  "no_reply_reason e =
     (if be_timed_out e then ''no reply in '' @ decimal (be_timeout_seconds e) @ '' s'' else ''daemon hung up'')"

definition save_form :: "'d tui_env \<Rightarrow> string \<Rightarrow> string \<Rightarrow> ui \<Rightarrow> 'd \<Rightarrow> bool \<times> ui \<times> 'd" where
  "save_form V key verb u d =
     (case call (backend_set (te_libs V) (te_uid V) (te_peer V) (te_client V) key (ui_add_value u)) u d of
        (Inl (BackendFailure e), u, d) \<Rightarrow>
          (False, complain (if be_maybe_applied e
             then no_reply_reason e @ '': '' @ quoted key @ '' may still be saved; Enter retries, Esc cancels''
             else be_what e) u, d)
      | (Inl e, u, d) \<Rightarrow> (False, complain (error_text e) u, d)
      | (Inr _, u, d) \<Rightarrow>
          (let u = expand_to key (say V (verb @ '' '' @ key) (close_form u));
               u = (if \<not> contains_ignore_case key (ui_filter u) then u\<lparr>ui_filter := []\<rparr> else u)
           in case refresh V key u d of (ok, u, d) \<Rightarrow> (True, u, d)))"

definition submit_form :: "'d tui_env \<Rightarrow> ui \<Rightarrow> 'd \<Rightarrow> ui \<times> 'd" where
  "submit_form V u d =
     (case form_problem u of
        Some problem \<Rightarrow> (complain problem (u\<lparr>ui_show_problem := True\<rparr>), d)
      | None \<Rightarrow>
          if ui_mode u = Edit then
            (case save_form V (or_else (current_key u) []) ''updated'' u d of (saved, u, d) \<Rightarrow> (u, d))
          else
            (let name = trim_key_name (ui_add_name u) in
             case refresh V (selected_id u) u d of
               (False, u, d) \<Rightarrow> (u, d)
             | (True, u, d) \<Rightarrow>
                 if key_exists u name then
                   (say V (quoted name @ '' already exists'') (u\<lparr>ui_mode := ConfirmOverwrite\<rparr>), d)
                 else (case save_form V name ''added'' u d of (saved, u, d) \<Rightarrow> (u, d))))"

definition insert_into_value :: "string \<Rightarrow> ui \<Rightarrow> ui" where
  "insert_into_value s u =
     (case insert_at_cursor (ui_add_value u) (ui_value_cursor u) s of
        (v, c) \<Rightarrow> u\<lparr>ui_add_value := v, ui_value_cursor := c\<rparr>)"

definition finish_paste :: "'d tui_env \<Rightarrow> ui \<Rightarrow> ui" where
  "finish_paste V u =
     (let u =
        (if ui_mode u = Filter then
           if has_control_char (ui_paste u) then complain ''paste refused: the filter is one line'' u
           else apply_filter (u\<lparr>ui_filter := ui_filter u @ ui_paste u\<rparr>)
         else if ui_mode u \<noteq> Add \<and> ui_mode u \<noteq> Edit then
           say V (''paste ignored: open a form with '' @ quoted ''a'' @ '' or '' @ quoted ''e'' @ '' first'') u
         else if ui_form_field u = 0 then
           if has_control_char (ui_paste u) then complain ''paste refused: a name is one line'' u
           else (case insert_at_cursor (ui_add_name u) (ui_name_cursor u) (ui_paste u) of
                   (s, c) \<Rightarrow> u\<lparr>ui_add_name := s, ui_name_cursor := c\<rparr>)
         else
           (let pasted = (if ui_paste u \<noteq> [] \<and> last (ui_paste u) = LF then butlast (ui_paste u) else ui_paste u);
                u = insert_into_value pasted (u\<lparr>ui_paste := pasted\<rparr>);
                line_count = length (filter (\<lambda>c. c = LF) pasted) + 1
            in say V (''pasted '' @ decimal line_count @ (if line_count = 1 then '' line'' else '' lines'')) u))
      in u\<lparr>ui_paste := []\<rparr>)"

fun select_first :: "string list \<Rightarrow> ui \<Rightarrow> ui" where
  "select_first [] u = u"
| "select_first (rid # rest) u = (case select_row rid u of (True, u) \<Rightarrow> u | (False, u) \<Rightarrow> select_first rest u)"

definition do_delete :: "'d tui_env \<Rightarrow> ui \<Rightarrow> 'd \<Rightarrow> ui \<times> 'd" where
  "do_delete V u d =
     (let u = u\<lparr>ui_mode := Normal\<rparr>;
          key = or_else (current_key u) [];
          landing = delete_landing (ui_rows u) (ui_selected u)
      in case call (backend_remove (te_libs V) (te_uid V) (te_peer V) (te_client V) key) u d of
           (Inl (BackendFailure e), u, d) \<Rightarrow>
             if be_maybe_applied e
             then (complain (no_reply_reason e @ '': '' @ quoted key @ '' may still be deleted; R reloads to check'') u, d)
             else fail V (BackendFailure e) key u d
         | (Inl e, u, d) \<Rightarrow> fail V e key u d
         | (Inr _, u, d) \<Rightarrow>
             (case refresh V [] (say V (''deleted '' @ key) u) d of
                (False, u, d) \<Rightarrow> (u, d)
              | (True, u, d) \<Rightarrow> (select_first landing u, d)))"

end
