(* ===== verification/CommandLine.thy ===== *)
theory CommandLine
  imports Tui
begin

text \<open>
  The commands of src/src/client.cpp around one request each, and the dispatch of src/src/main.cpp.
  A command ends with the usage (exit code 2), with an exception that \<open>main\<close> prints (exit code
  1), or with the lines it printed (exit code 0).
\<close>

datatype command_result = BadUsage | Failed string | Printed "string list"

definition finish :: "(client_error + string list) \<times> 'd \<Rightarrow> command_result \<times> 'd" where
  "finish r = (case r of (Inl e, d) \<Rightarrow> (Failed (error_text e), d) | (Inr lines, d) \<Rightarrow> (Printed lines, d))"

section \<open>Passphrases\<close>

definition kRecommendedMinPassphraseChars :: nat where "kRecommendedMinPassphraseChars = 12"

text \<open>
  The passphrase is asked for again on a terminal; each prompt has its own terminal state. The
  flag says that the warning about a short passphrase is printed.
\<close>

definition read_new_passphrase ::
  "terminal \<Rightarrow> terminal \<Rightarrow> byte_read list \<Rightarrow> (string + string \<times> bool) \<times> byte_read list" where
  "read_new_passphrase tty again stdin =
     (case read_passphrase tty stdin of
        (Inl e, stdin) \<Rightarrow> (Inl e, stdin)
      | (Inr p, stdin) \<Rightarrow>
          let warned = (length p < kRecommendedMinPassphraseChars) in
          if \<not> on_tty tty then (Inr (p, warned), stdin)
          else
            (case read_passphrase again stdin of
               (Inl e, stdin) \<Rightarrow> (Inl e, stdin)
             | (Inr confirm, stdin) \<Rightarrow>
                 (if confirm \<noteq> p then Inl ''passphrases do not match'' else Inr (p, warned), stdin)))"

section \<open>init\<close>

text \<open>\<open>mkdir\<close> says why a directory cannot be made.\<close>

definition ensure_parent_dir :: "(string \<Rightarrow> string option) \<Rightarrow> string \<Rightarrow> string + unit" where
  "ensure_parent_dir mkdir path =
     (case parent_to_create path of
        None \<Rightarrow> Inr ()
      | Some dir \<Rightarrow> (case mkdir dir of None \<Rightarrow> Inr () | Some e \<Rightarrow> Inl (''mkdir '' @ quoted dir @ '': '' @ e)))"

definition mint_token :: "libs \<Rightarrow> (string \<Rightarrow> string) \<Rightarrow> string \<Rightarrow> unit act" where
  "mint_token L bin2hex path =
     bindA (random_bytes L 32) (\<lambda>raw. write_atomic path (bin2hex raw) mode_0600)"

definition init_files ::
  "libs \<Rightarrow> (string \<Rightarrow> string) \<Rightarrow> (string \<Rightarrow> string option) \<Rightarrow> paths \<Rightarrow> string \<Rightarrow> unit act" where
  "init_files L bin2hex mkdir paths passphrase =
     bindA (liftA (ensure_parent_dir mkdir (p_store paths))) (\<lambda>_.
     bindA (read_clock L) (\<lambda>now.
     bindA (store_create L (p_store paths) passphrase now) (\<lambda>_.
       mint_token L bin2hex (p_token paths))))"

datatype init_outcome = Initialized | InitFailed string | InitKilled

definition cmd_init ::
  "libs \<Rightarrow> (string \<Rightarrow> string) \<Rightarrow> (string \<Rightarrow> string option) \<Rightarrow> paths \<Rightarrow> terminal \<Rightarrow> terminal \<Rightarrow> byte_read list \<Rightarrow> world \<Rightarrow>
   init_outcome \<times> world" where
  "cmd_init L bin2hex mkdir paths tty again stdin w =
     (case fst (read_new_passphrase tty again stdin) of
        Inl e \<Rightarrow> (InitFailed e, w)
      | Inr (passphrase, warned) \<Rightarrow>
          (case init_files L bin2hex mkdir paths passphrase w of
             (Inr _, w) \<Rightarrow> (Initialized, w)
           | (Inl (Throw what), w) \<Rightarrow> (InitFailed what, w)
           | (Inl Killed, w) \<Rightarrow> (InitKilled, w)))"

section \<open>get, set, delete\<close>

definition cmd_get ::
  "libs \<Rightarrow> system \<Rightarrow> yaml_lib \<Rightarrow> paths \<Rightarrow> string + string \<Rightarrow> string + daemon_client \<Rightarrow> 'd peer \<Rightarrow> string list \<Rightarrow> 'd \<Rightarrow>
   command_result \<times> 'd" where
  "cmd_get L S Y paths cwd client P argv d =
     (case parse_entry_args True argv of
        None \<Rightarrow> (BadUsage, d)
      | Some (scope, name) \<Rightarrow>
          finish (bindR (liftR (target_client S Y paths cwd client scope name)) (\<lambda>(cl, path).
            bindR (get_value L (sys_uid S) P cl path) (\<lambda>v. returnR [v])) d))"

text \<open>\<open>typed\<close> is the line read on a terminal, \<open>piped\<close> what a pipe held.\<close>

definition cmd_set ::
  "libs \<Rightarrow> system \<Rightarrow> yaml_lib \<Rightarrow> paths \<Rightarrow> string + string \<Rightarrow> string + daemon_client \<Rightarrow> 'd peer \<Rightarrow>
   (string + string) option \<Rightarrow> string \<Rightarrow> string list \<Rightarrow> 'd \<Rightarrow> command_result \<times> 'd" where
  "cmd_set L S Y paths cwd client P typed piped argv d =
     (case parse_entry_args False argv of
        None \<Rightarrow> (BadUsage, d)
      | Some (scope, name) \<Rightarrow>
          finish (bindR (liftR (target_client S Y paths cwd client scope name)) (\<lambda>(cl, path).
            (case value_to_set typed piped of
               Inl what \<Rightarrow> throwR (RuntimeError what)
             | Inr v \<Rightarrow> bindR (backend_set L (sys_uid S) P cl path v) (\<lambda>_. returnR []))) d))"

definition cmd_delete ::
  "libs \<Rightarrow> system \<Rightarrow> yaml_lib \<Rightarrow> paths \<Rightarrow> string + string \<Rightarrow> string + daemon_client \<Rightarrow> 'd peer \<Rightarrow> string list \<Rightarrow> 'd \<Rightarrow>
   command_result \<times> 'd" where
  "cmd_delete L S Y paths cwd client P argv d =
     (case parse_entry_args True argv of
        None \<Rightarrow> (BadUsage, d)
      | Some (scope, name) \<Rightarrow>
          finish (bindR (liftR (target_client S Y paths cwd client scope name)) (\<lambda>(cl, path).
            bindR (backend_remove L (sys_uid S) P cl path) (\<lambda>_. returnR [])) d))"

section \<open>list\<close>

text \<open>Only scope flags are taken; \<open>take_scope_arg\<close> throws when a value is missing.\<close>

function list_args :: "scope_args \<Rightarrow> string list \<Rightarrow> string + scope_args option" where
  "list_args scope [] = Inr (Some scope)"
| "list_args scope (arg # rest) =
     (case take_scope_arg arg rest scope of
        Inl what \<Rightarrow> Inl what
      | Inr None \<Rightarrow> Inr None
      | Inr (Some (scope', rest')) \<Rightarrow> list_args scope' rest')"
  by pat_completeness auto
termination
  by (relation "measure (\<lambda>(scope, args). length args)") (auto dest: take_scope_arg_shorter)

declare list_args.simps [simp del]

definition entry_line :: "secret_entry \<Rightarrow> string" where
  "entry_line e =
     se_name e @ [TAB] @ (case se_kind e of Kv \<Rightarrow> ''kv'' | _ \<Rightarrow> ''text'') @ [TAB] @ se_path e @ [TAB] @ se_field e"

text \<open>What a cloud scope declares, or the prefix of a local one.\<close>

definition list_scope ::
  "system \<Rightarrow> yaml_lib \<Rightarrow> paths \<Rightarrow> string + string \<Rightarrow> scope_args \<Rightarrow> string + string list + string" where
  "list_scope S Y paths cwd scope =
     (if sc_project scope = None \<and> sc_env scope = None then Inr (Inr []) else
      bindE (resolve_scope S Y paths cwd scope) (\<lambda>resolved.
        if rs_manifest resolved \<noteq> None \<and> bc_type (rs_backend resolved) \<noteq> Local
        then (case rs_manifest resolved of
                None \<Rightarrow> Inr (Inl [])
              | Some m \<Rightarrow> bindE (entries_for m (rs_env resolved)) (\<lambda>entries. Inr (Inl (map entry_line entries))))
        else bindE (scope_prefix (rs_env resolved) (rs_project resolved)) (\<lambda>pre. Inr (Inr pre))))"

definition cmd_list ::
  "libs \<Rightarrow> system \<Rightarrow> yaml_lib \<Rightarrow> paths \<Rightarrow> string + string \<Rightarrow> string + daemon_client \<Rightarrow> 'd peer \<Rightarrow> string list \<Rightarrow> 'd \<Rightarrow>
   command_result \<times> 'd" where
  "cmd_list L S Y paths cwd client P argv d =
     (case list_args no_scope argv of
        Inl what \<Rightarrow> (Failed what, d)
      | Inr None \<Rightarrow> (BadUsage, d)
      | Inr (Some scope) \<Rightarrow>
          (case list_scope S Y paths cwd scope of
             Inl what \<Rightarrow> (Failed what, d)
           | Inr (Inl lines) \<Rightarrow> (Printed lines, d)
           | Inr (Inr pre) \<Rightarrow>
               (case client of
                  Inl what \<Rightarrow> (Failed what, d)
                | Inr cl \<Rightarrow>
                    finish (bindR (request L (sys_uid S) P cl ''list'' [] None) (\<lambda>resp.
                      liftR (bindE (listed_keys L resp) (\<lambda>keys. Inr (filter (\<lambda>key. has_prefix key pre) keys)))) d))))"

section \<open>rotate, passwd\<close>

text \<open>The keys of a request object are sorted.\<close>

definition rotate_request :: "string \<Rightarrow> (string \<times> json) list" where
  "rotate_request pass = smap_put ''old'' (JString pass) (smap_put ''op'' (JString ''rotate'') [])"

definition passwd_request :: "string \<Rightarrow> string \<Rightarrow> (string \<times> json) list" where
  "passwd_request old_pass new_pass =
     smap_put ''new'' (JString new_pass) (smap_put ''old'' (JString old_pass) (smap_put ''op'' (JString ''passwd'') []))"

definition cmd_rotate ::
  "libs \<Rightarrow> nat \<Rightarrow> string + daemon_client \<Rightarrow> 'd peer \<Rightarrow> terminal \<Rightarrow> byte_read list \<Rightarrow> 'd \<Rightarrow> command_result \<times> 'd" where
  "cmd_rotate L uid client P tty stdin d =
     (case fst (read_passphrase tty stdin) of
        Inl what \<Rightarrow> (Failed what, d)
      | Inr pass \<Rightarrow>
          (case client of
             Inl what \<Rightarrow> (Failed what, d)
           | Inr cl \<Rightarrow>
               finish (bindR (request_raw L uid P cl (rotate_request pass)) (\<lambda>_. returnR [''rotated encryption key'']) d)))"

definition cmd_passwd ::
  "libs \<Rightarrow> nat \<Rightarrow> string + daemon_client \<Rightarrow> 'd peer \<Rightarrow> terminal \<Rightarrow> terminal \<Rightarrow> terminal \<Rightarrow> byte_read list \<Rightarrow> 'd \<Rightarrow>
   command_result \<times> 'd" where
  "cmd_passwd L uid client P tty new_tty again stdin d =
     (case read_passphrase tty stdin of
        (Inl what, stdin) \<Rightarrow> (Failed what, d)
      | (Inr old_pass, stdin) \<Rightarrow>
          (case fst (read_new_passphrase new_tty again stdin) of
             Inl what \<Rightarrow> (Failed what, d)
           | Inr (new_pass, warned) \<Rightarrow>
               (case client of
                  Inl what \<Rightarrow> (Failed what, d)
                | Inr cl \<Rightarrow>
                    finish (bindR (request_raw L uid P cl (passwd_request old_pass new_pass))
                      (\<lambda>_. returnR [''passphrase changed'']) d))))"

section \<open>main\<close>

datatype main_choice =
    NotSafe string               \<comment> \<open>\<open>prctl\<close> failed: exit code 1\<close>
  | MainUsage                    \<comment> \<open>exit code 2\<close>
  | MainHelp
  | Init | RunDaemon | List "string list" | ImportFile "string list" | Rotate | Passwd | RunTui
  | Get "string list" | Set "string list" | Delete "string list" | Exec "string list"

text \<open>\<open>not_dumpable\<close> is the error of \<open>prctl(PR_SET_DUMPABLE, 0)\<close>; \<open>argv\<close> has no program name.\<close>

definition main_choice_of :: "string option \<Rightarrow> string list \<Rightarrow> main_choice" where
  "main_choice_of not_dumpable argv =
     (case not_dumpable of
        Some e \<Rightarrow> NotSafe (''secretov: prctl(PR_SET_DUMPABLE) failed: '' @ e)
      | None \<Rightarrow>
          (case argv of
             [] \<Rightarrow> MainUsage
           | cmd # args \<Rightarrow>
               if cmd = ''--help'' \<or> cmd = ''-h'' then MainHelp
               else if cmd = ''init'' then Init
               else if cmd = ''daemon'' then RunDaemon
               else if cmd = ''list'' then List args
               else if cmd = ''import'' then ImportFile args
               else if cmd = ''rotate'' then Rotate
               else if cmd = ''passwd'' then Passwd
               else if cmd = ''tui'' then RunTui
               else if cmd = ''get'' then Get args
               else if cmd = ''set'' then Set args
               else if cmd = ''delete'' then Delete args
               else if cmd = ''exec'' then Exec args
               else MainUsage))"

definition exit_code :: "command_result \<Rightarrow> int" where
  "exit_code r = (case r of BadUsage \<Rightarrow> 2 | Failed what \<Rightarrow> 1 | Printed lines \<Rightarrow> 0)"

end
