(* ===== verification/CommandLineProps.thy ===== *)
theory CommandLineProps
  imports CommandLine ImportProps
begin

text \<open>The properties of the commands around one request and of \<open>init\<close>.\<close>

section \<open>init\<close>

lemma store_create_exists:
  assumes "store_create L path p created w = (r, w')" and "w_files w path \<noteq> None"
  shows "(\<exists>e. r = Inl e) \<and> w_files w' = w_files w"
  using assms
  by (auto simp: store_create_def bindA_def ensure_sodium_def refuse_if_def liftA_def split: if_splits)

lemma write_atomic_frame:
  "write_atomic path contents mode w = (r, w') \<Longrightarrow> p \<noteq> path \<Longrightarrow> p \<noteq> tmp_name path \<Longrightarrow> w_files w' p = w_files w p"
  by (auto simp: write_atomic_def dest: write_frame split: prod.splits)

lemma store_create_mode:
  "store_create L path p created w = (Inr st, w') \<Longrightarrow> \<exists>bytes. w_files w' path = Some (complete_file bytes mode_0600)"
  by (auto simp: store_create_def persist_def bindA_Inr split: prod.splits dest!: write_atomic_Inr)

text \<open>
  C25. \<open>init\<close> makes a new store or leaves the old one: where a store exists it fails and changes
  no file, whatever the passphrase; when it succeeds, the store at the path is new, complete,
  empty and opened by the passphrase typed, and the token file holds 32 random bytes in the
  encoding, both files with mode 0600. The two paths are different, and the store is not where
  the token's temporary file goes.
\<close>

theorem init_creates:
  assumes "libs_ok L" and "p_store paths \<noteq> p_token paths" and "p_store paths \<noteq> tmp_name (p_token paths)"
    and "cmd_init L bin2hex mkdir paths tty again stdin w = (out, w')"
  shows "(w_files w (p_store paths) = None \<or> out \<noteq> Initialized \<and> w_files w' = w_files w) \<and>
    (out = Initialized \<longrightarrow> (\<exists>passphrase warned st raw.
       fst (read_new_passphrase tty again stdin) = Inr (passphrase, warned) \<and>
       wf_store L st \<and> unwraps L passphrase st \<and> st_path st = p_store paths \<and> st_data st = [] \<and> synced L st w' \<and>
       (\<exists>bytes. w_files w' (p_store paths) = Some (complete_file bytes mode_0600)) \<and>
       length raw = 32 \<and> w_files w' (p_token paths) = Some (complete_file (bin2hex raw) mode_0600)))"
proof (cases "fst (read_new_passphrase tty again stdin)")
  case (Inl e)
  then show ?thesis using assms(4) by (auto simp: cmd_init_def)
next
  case (Inr pw)
  obtain passphrase warned where pw: "pw = (passphrase, warned)" by (cases pw)
  obtain r where run: "init_files L bin2hex mkdir paths passphrase w = (r, w')"
    and out: "out = Initialized \<longleftrightarrow> (\<exists>u. r = Inr u)"
    using assms(4) Inr pw by (auto simp: cmd_init_def split: prod.splits sum.splits exn.splits)
  have "(\<exists>e. r = Inl e) \<and> w_files w' = w_files w" if "w_files w (p_store paths) \<noteq> None"
  proof (cases "ensure_parent_dir mkdir (p_store paths)")
    case (Inl what)
    then show ?thesis using run by (auto simp: init_files_def bindA_def liftA_def)
  next
    case Inr2: (Inr u)
    let ?w1 = "snd (read_clock L w)"
    obtain r1 w1 where c: "store_create L (p_store paths) passphrase (clock L (w_tick w)) ?w1 = (r1, w1)"
      by (cases "store_create L (p_store paths) passphrase (clock L (w_tick w)) ?w1")
    have same: "w_files ?w1 = w_files w" by (simp add: read_clock_def ticking_def)
    then have "(\<exists>e. r1 = Inl e) \<and> w_files w1 = w_files w" using store_create_exists [OF c] that by simp
    then show ?thesis using run Inr2 c by (auto simp: init_files_def bindA_def liftA_def read_clock_def ticking_def)
  qed
  moreover have "\<exists>st raw. wf_store L st \<and> unwraps L passphrase st \<and> st_path st = p_store paths \<and> st_data st = [] \<and>
      synced L st w' \<and> (\<exists>bytes. w_files w' (p_store paths) = Some (complete_file bytes mode_0600)) \<and>
      length raw = 32 \<and> w_files w' (p_token paths) = Some (complete_file (bin2hex raw) mode_0600)"
    if ok: "r = Inr u" for u
  proof -
    obtain created w1 st w2 where c: "store_create L (p_store paths) passphrase created w1 = (Inr st, w2)"
      and t: "write_atomic (p_token paths) (bin2hex (randombytes L (w_tick w2) 32)) mode_0600
        (w2\<lparr>w_tick := Suc (w_tick w2)\<rparr>) = (Inr u, w')"
      using run ok by (auto simp: init_files_def mint_token_def bindA_Inr random_bytes_def ticking_def)
    note st = store_create_Inr [OF assms(1) c]
    have "w_files w' (p_store paths) = w_files w2 (p_store paths)"
      using write_atomic_frame [OF t assms(2,3)] by simp
    moreover from this have "synced L st w'" using st synced_files by metis
    ultimately show ?thesis
      using st store_create_mode [OF c] write_atomic_Inr [OF t] libs_random [OF assms(1)] by metis
  qed
  ultimately show ?thesis using Inr pw out by auto
qed

definition piped_terminal :: terminal where
  "piped_terminal = \<lparr>on_tty = False, background = False, echo_off_ok = True, peek_ok = True, draining = []\<rparr>"

definition init_run :: "init_outcome \<times> world" where
  "init_run = cmd_init toy (\<lambda>raw. ''hex'') (\<lambda>dir. None) toy_paths piped_terminal piped_terminal
     (map Byte (''pw'' @ [LF])) toy_start"

theorem init_creates_witness:
  "fst init_run = Initialized \<and> w_files (snd init_run) ''/c/token'' = Some (complete_file ''hex'' mode_0600) \<and>
   (\<exists>bytes. w_files (snd init_run) (p_store toy_paths) = Some (complete_file bytes mode_0600)) \<and>
   (\<exists>st. unwraps toy ''pw'' st \<and> synced toy st (snd init_run))"
proof -
  have typed: "fst (read_new_passphrase piped_terminal piped_terminal (map Byte (''pw'' @ [LF]))) = Inr (''pw'', True)"
    by code_simp
  have "case fst init_run of Initialized \<Rightarrow> True | _ \<Rightarrow> False" by code_simp
  then have fine: "fst init_run = Initialized" by (simp split: init_outcome.splits)
  have run: "cmd_init toy (\<lambda>raw. ''hex'') (\<lambda>dir. None) toy_paths piped_terminal piped_terminal (map Byte (''pw'' @ [LF])) toy_start =
      (fst init_run, snd init_run)"
    by (simp add: init_run_def)
  have paths: "p_store toy_paths \<noteq> p_token toy_paths" "p_store toy_paths \<noteq> tmp_name (p_token toy_paths)"
    "p_token toy_paths = ''/c/token''"
    by code_simp+
  show ?thesis using init_creates [OF toy_ok paths(1,2) run] fine typed paths(3) by auto
qed

section \<open>set and get\<close>

lemma target_client_Inr:
  "target_client S Y paths cwd (Inr cl) scope name = Inr (cl', path) \<Longrightarrow> cl' = cl"
  by (auto simp: target_client_def open_backend_def split: sum.splits prod.splits backend_type.splits)

lemma finish_Printed: "finish r = (Printed lines, d) \<longleftrightarrow> r = (Inr lines, d)"
  by (auto simp: finish_def split: sum.splits prod.splits)

text \<open>
  C26. What is set is what is got: after a successful \<open>set\<close>, \<open>get\<close> with the same scope and name
  prints exactly the value, taken whole from the terminal or the pipe; the value of every other
  key is as it was.
\<close>

theorem set_get_roundtrip:
  assumes "libs_ok L" and "served_ok L d"
    and "parse_entry_args False set_args = parse_entry_args True get_args"
    and "cmd_set L S Y paths cwd (Inr cl) (daemon_peer L (sys_uid S) (dc_token cl)) typed piped set_args d = (Printed out, d1)"
    and "cmd_get L S Y paths cwd (Inr cl) (daemon_peer L (sys_uid S) (dc_token cl)) get_args d1 = (Printed lines, d2)"
  shows "\<exists>v path. value_to_set typed piped = Inr v \<and> out = [] \<and> lines = [v] \<and>
    served_view d2 = (served_view d)(path \<mapsto> v) \<and> served_ok L d2"
proof -
  let ?P = "daemon_peer L (sys_uid S) (dc_token cl)"
  obtain scope name where p: "parse_entry_args False set_args = Some (scope, name)"
    using assms(4) by (cases "parse_entry_args False set_args") (auto simp: cmd_set_def)
  obtain cl1 path where t: "target_client S Y paths cwd (Inr cl) scope name = Inr (cl1, path)"
    using assms(4) p
    by (auto simp: cmd_set_def finish_Printed bindR_Inr liftR_def)
  have cl1: "cl1 = cl" using target_client_Inr [OF t] .
  obtain v u where v: "value_to_set typed piped = Inr v" and out: "out = []"
    and set: "backend_set L (sys_uid S) ?P cl path v d = (Inr u, d1)"
    using assms(4) p t cl1
    by (auto simp: cmd_set_def finish_Printed bindR_Inr liftR_def split: sum.splits)
  have d1: "served_ok L d1" "served_view d1 = (served_view d)(path \<mapsto> v)"
    using backend_set_effect [OF assms(1,2) set] by auto
  obtain v' where get: "get_value L (sys_uid S) ?P cl path d1 = (Inr v', d2)" and lines: "lines = [v']"
    using assms(5) p [unfolded assms(3)] t cl1 by (auto simp: cmd_get_def finish_Printed bindR_Inr liftR_def)
  from get_value_daemon [OF assms(1) d1(1) get] show ?thesis using d1 v out lines by auto
qed

lemma toy_gets:
  assumes "service_ok toy st" and "store_view st ''a/b/c'' = Some ''v''"
  shows "\<exists>w'. request toy 7 (daemon_peer toy 7 (dc_token toy_client)) toy_client ''get'' ''a/b/c'' None (st, w)
     = (Inr (success [(''value'', JString ''v'')]), (st, w'))"
proof -
  let ?rq = "wire_request toy_client ''get'' ''a/b/c'' None" and ?w = "w\<lparr>w_tick := Suc (w_tick w)\<rparr>"
  have "store_get toy ''a/b/c'' st = Inr (Some ''v'')" using kv.fetch_view [OF assms(1)] assms(2) by simp
  moreover have "case ok_value toy ''v'' of Inl e \<Rightarrow> False | Inr t \<Rightarrow> length t \<le> 200" by code_simp
  then obtain t where t: "ok_value toy ''v'' = Inr t" "length t \<le> 200" by (auto split: sum.splits)
  ultimately have d: "dispatch toy ?rq (clock toy (w_tick w)) st ?w = (Inr t, st, ?w)"
    by (simp add: dispatch_def wire_request_def bindM_def readM_def liftM_def)
  have "case json_dump toy (JObject (smap_put ''token'' (JString (dc_token toy_client))
      (make_request ''get'' ''a/b/c'' None))) of Inl e \<Rightarrow> False | Inr l \<Rightarrow> length l \<le> 200"
    by code_simp
  then have fits: "check_request toy toy_client ''get'' ''a/b/c'' None = Inr ()"
    by (auto simp: check_request_def serialize_def kMaxRequestBytes_def split: sum.splits)
  have spec: "fst (kv_spec ?rq (store_view st)) = success [(''value'', JString ''v'')]"
    using assms(2) by (simp add: kv_spec_def wire_request_def)
  then have "answerable ?rq (store_view st)" by (auto simp: answerable_def)
  from request_completes [OF toy_ok assms(1) fits d _ this] t spec show ?thesis
    by (simp add: kMaxResponseBytes_def)
qed

theorem set_get_roundtrip_witness:
  "\<exists>d1 d2. cmd_set toy toy_system toy_yaml toy_paths (Inr ''/p'') (Inr toy_client) (daemon_peer toy 7 (dc_token toy_client))
       None (''v'' @ [LF]) [''a/b/c''] (toy_store, toy_world) = (Printed [], d1) \<and>
     cmd_get toy toy_system toy_yaml toy_paths (Inr ''/p'') (Inr toy_client) (daemon_peer toy 7 (dc_token toy_client))
       [''a/b/c''] d1 = (Printed [''v''], d2)"
proof -
  let ?P = "daemon_peer toy 7 (dc_token toy_client)"
  have uid: "sys_uid toy_system = 7" by (simp add: toy_system_def)
  have ok: "served_ok toy (toy_store, toy_world)" using toy_service by (simp add: served_ok_def)
  have args: "parse_entry_args False [''a/b/c''] = Some (no_scope, ''a/b/c'')" "parse_entry_args True [''a/b/c''] = Some (no_scope, ''a/b/c'')"
    by (simp_all add: parse_entry_args_def entry_args.simps take_scope_arg_def no_scope_def)
  have target: "target_client toy_system toy_yaml toy_paths (Inr ''/p'') (Inr toy_client) no_scope ''a/b/c'' = Inr (toy_client, ''a/b/c'')"
    by (simp add: target_client_def resolve_target_def open_backend_def no_scope_def)
  have v: "value_to_set None (''v'' @ [LF]) = Inr ''v''" by (simp add: value_to_set_def strip_newline_def)
  obtain d1 where "request toy 7 ?P toy_client ''set'' ''a/b/c'' (Some ''v'') (toy_store, toy_world) = (Inr (success []), d1)"
    using toy_sets by blast
  then have set: "backend_set toy 7 ?P toy_client ''a/b/c'' ''v'' (toy_store, toy_world) = (Inr (), d1)"
    by (simp add: backend_set_def local_request_def bindR_def returnR_def)
  then have d1: "served_ok toy d1" "served_view d1 ''a/b/c'' = Some ''v''"
    using backend_set_effect [OF toy_ok ok set] by auto
  obtain w2 where "request toy 7 ?P toy_client ''get'' ''a/b/c'' None d1 =
      (Inr (success [(''value'', JString ''v'')]), (fst d1, w2))"
    using toy_gets [of "fst d1" "snd d1"] d1 by (auto simp: served_ok_def served_view_def)
  moreover have "group_by_prefix [''a/b/c''] = [(''a/b/'', [''a/b/c''])]" by code_simp
  ultimately have get: "get_value toy 7 ?P toy_client ''a/b/c'' d1 = (Inr ''v'', (fst d1, w2))"
    by (simp add: get_value_def get_many_def local_request_def bindR_def liftR_def returnR_def member_success take_string_def
        fetch_one_def smap_emplace_def smap_put_def)
  have cset: "cmd_set toy toy_system toy_yaml toy_paths (Inr ''/p'') (Inr toy_client) (daemon_peer toy (sys_uid toy_system) (dc_token toy_client))
       None (''v'' @ [LF]) [''a/b/c''] (toy_store, toy_world) = (Printed [], d1)"
    using set v by (simp add: cmd_set_def args target uid finish_def bindR_def liftR_def returnR_def)
  have cget: "cmd_get toy toy_system toy_yaml toy_paths (Inr ''/p'') (Inr toy_client) (daemon_peer toy (sys_uid toy_system) (dc_token toy_client))
       [''a/b/c''] d1 = (Printed [''v''], (fst d1, w2))"
    using get by (simp add: cmd_get_def args target uid finish_def bindR_def liftR_def returnR_def)
  have "\<exists>v path. value_to_set None (''v'' @ [LF]) = Inr v \<and> [] = ([] :: string list) \<and> [''v''] = [v] \<and>
      served_view (fst d1, w2) = (served_view (toy_store, toy_world))(path \<mapsto> v) \<and> served_ok toy (fst d1, w2)"
    using set_get_roundtrip [OF toy_ok ok _ cset cget] args by simp
  then show ?thesis using cset cget uid by auto
qed

end
