(* ===== verification/TuiEvents.thy ===== *)
theory TuiEvents
  imports Tui
begin

text \<open>
  The event handler of the terminal UI (the \<open>CatchEvent\<close> lambda of \<open>run_ui\<close>), the part of the
  renderer that changes state, and runs of both. An event the handler does not take goes to the
  FTXUI component in front, a parameter.
\<close>

text \<open>The condition variable that hurries the ticker carries no state of the UI.\<close>

definition release_held_key :: "'d tui_env \<Rightarrow> ui \<Rightarrow> 'd \<Rightarrow> ui \<times> 'd" where
  "release_held_key V u d =
     (let u = u\<lparr>ui_held_since := None\<rparr> in
      if ui_held_is_tab u then ((if ui_mode u = Add then u\<lparr>ui_form_field := 0\<rparr> else u), d)
      else
        (case (if ui_mode u = Add \<or> ui_mode u = Edit then submit_form V u d else (u, d)) of
           (u, d) \<Rightarrow>
             (case now V u of (t, u) \<Rightarrow> (u\<lparr>ui_ignore_until := t + kAfterSubmitQuiet\<rparr>, d))))"

definition is_mouse :: "ui_event \<Rightarrow> bool" where
  "is_mouse e \<longleftrightarrow> (case e of MouseEvent b p \<Rightarrow> True | _ \<Rightarrow> False)"

definition is_mouse_press :: "ui_event \<Rightarrow> bool" where
  "is_mouse_press e \<longleftrightarrow> (case e of MouseEvent b p \<Rightarrow> p | _ \<Rightarrow> False)"

definition is_character :: "ui_event \<Rightarrow> bool" where
  "is_character e \<longleftrightarrow> (case e of Character s \<Rightarrow> True | _ \<Rightarrow> False)"

text \<open>\<open>status.find(ignored) != npos\<close>.\<close>

fun contains :: "string \<Rightarrow> string \<Rightarrow> bool" where
  "contains [] needle \<longleftrightarrow> needle = []"
| "contains (c # s) needle \<longleftrightarrow> has_prefix (c # s) needle \<or> contains s needle"

definition ignored_note :: string where
  "ignored_note = ''input right after Enter ignored''"

definition note_ignored :: "'d tui_env \<Rightarrow> ui \<Rightarrow> ui" where
  "note_ignored V u =
     (if ui_status u = [] then say V ignored_note u
      else if \<not> contains (ui_status u) ignored_note
      then u\<lparr>ui_status := ui_status u @ '' ('' @ ignored_note @ '')''\<rparr>
      else u)"

section \<open>Each mode\<close>

definition paste_event :: "'d tui_env \<Rightarrow> ui_event \<Rightarrow> ui \<Rightarrow> ui" where
  "paste_event V e u =
     (case e of
        PasteEnd \<Rightarrow> finish_paste V (u\<lparr>ui_pasting := False\<rparr>)
      | EscapeKey \<Rightarrow> say V ''paste aborted'' (u\<lparr>ui_pasting := False, ui_paste := []\<rparr>)
      | Character s \<Rightarrow> u\<lparr>ui_paste := ui_paste u @ s\<rparr>
      | ReturnKey \<Rightarrow> u\<lparr>ui_paste := ui_paste u @ [LF]\<rparr>
      | TabKey \<Rightarrow> u\<lparr>ui_paste := ui_paste u @ [TAB]\<rparr>
      | _ \<Rightarrow> u)"

definition help_event :: "ui_event \<Rightarrow> ui \<Rightarrow> ui" where
  "help_event e u =
     (let down = (case e of Character s \<Rightarrow> s = ''j'' \<or> s = ''J'' | ArrowDown \<Rightarrow> True | PageDown \<Rightarrow> True
                  | MouseEvent b p \<Rightarrow> b = WheelDown | _ \<Rightarrow> False);
          up = (case e of Character s \<Rightarrow> s = ''k'' \<or> s = ''K'' | ArrowUp \<Rightarrow> True | PageUp \<Rightarrow> True
                  | MouseEvent b p \<Rightarrow> b = WheelUp | _ \<Rightarrow> False)
      in if down \<or> up then
           (let by = (if e = PageDown \<or> e = PageUp then 10 else 1) in
            u\<lparr>ui_help_scroll := ui_help_scroll u + (if down then by else - by)\<rparr>)
         else if \<not> is_mouse e then u\<lparr>ui_mode := Normal\<rparr> else u)"

definition filter_event :: "'d tui_env \<Rightarrow> ui_event \<Rightarrow> ui \<Rightarrow> bool \<times> ui" where
  "filter_event V e u =
     (case e of
        ReturnKey \<Rightarrow>
          (case now V (u\<lparr>ui_mode := Normal\<rparr>) of (t, u) \<Rightarrow> (True, u\<lparr>ui_ignore_until := t + kAfterSubmitQuiet\<rparr>))
      | EscapeKey \<Rightarrow> (True, (clear_filter u)\<lparr>ui_mode := Normal\<rparr>)
      | BackspaceKey \<Rightarrow> (True, apply_filter (u\<lparr>ui_filter := erase_last_code_point (ui_filter u)\<rparr>))
      | CtrlU \<Rightarrow> (True, apply_filter (u\<lparr>ui_filter := []\<rparr>))
      | Character s \<Rightarrow> (True, apply_filter (u\<lparr>ui_filter := ui_filter u @ s\<rparr>))
      | _ \<Rightarrow> (False, u))"

definition menu_event :: "'d tui_env \<Rightarrow> ui_event \<Rightarrow> ui \<Rightarrow> bool \<times> ui" where
  "menu_event V e u =
     (case te_menu V e (length (ui_rows u)) (ui_selected u) of (on_row, i) \<Rightarrow> (on_row, u\<lparr>ui_selected := i\<rparr>))"

definition selected_row :: "ui \<Rightarrow> row" where
  "selected_row u = row_at u (ui_selected u)"

definition go_left :: "'d tui_env \<Rightarrow> ui \<Rightarrow> ui" where
  "go_left V u =
     (let open_folder = (ui_rows u \<noteq> [] \<and> row_dir (selected_row u) \<and>
            \<not> is_folded (ui_filter u) (ui_collapsed u) (row_id (selected_row u)))
      in if open_folder \<and> ui_filter u = [] then fold_row V (Some False) u else go_parent u)"

definition go_right :: "'d tui_env \<Rightarrow> ui \<Rightarrow> ui" where
  "go_right V u =
     (if ui_rows u = [] \<or> \<not> row_dir (selected_row u) then u else
      let has_child_row = (ui_selected u + 1 < length (ui_rows u) \<and>
            row_depth (row_at u (ui_selected u + 1)) > row_depth (selected_row u))
      in if is_folded (ui_filter u) (ui_collapsed u) (row_id (selected_row u)) then fold_row V (Some True) u
         else if has_child_row then u\<lparr>ui_selected := ui_selected u + 1\<rparr>
         else u)"

definition taken :: "ui \<times> 'd \<Rightarrow> bool \<times> ui \<times> 'd" where
  "taken r = (True, r)"

definition normal_event :: "'d tui_env \<Rightarrow> ui_event \<Rightarrow> ui \<Rightarrow> 'd \<Rightarrow> bool \<times> ui \<times> 'd" where
  "normal_event V e u d =
     (if e = MouseEvent LeftButton True then
        (case menu_event V e u of
           (on_row, u) \<Rightarrow>
             let u = sync_selection u in
             taken (if on_row \<and> ui_rows u \<noteq> [] \<and> row_dir (selected_row u) then fold_row V None u else u, d))
      else if e = Character ''q'' then taken (u\<lparr>ui_exited := True\<rparr>, d)
      else if e = Character ''?'' \<or> e = F1Key then taken (u\<lparr>ui_mode := Help, ui_help_scroll := 0\<rparr>, d)
      else if e = Character ''/'' then taken (u\<lparr>ui_mode := Filter\<rparr>, d)
      else if e = EscapeKey then taken (clear_filter u, d)
      else if e = Character ''R'' then taken (reload V u d)
      else if e = Character ''a'' then taken (start_add V u, d)
      else if e = Character ''e'' then taken (start_edit V u d)
      else if e = Character ''c'' then taken (copy_value V u d)
      else if e = Character ''r'' then taken (toggle_reveal V u d)
      else if e = Character ''d'' then
        (case need_key V ''delete'' u of
           (Some key, u) \<Rightarrow> taken (u\<lparr>ui_mode := ConfirmDelete\<rparr>, d)
         | (None, u) \<Rightarrow> taken (u, d))
      else if e = ReturnKey \<or> e = Character '' '' then
        (if current_key u \<noteq> None then taken (toggle_reveal V u d) else taken (fold_row V None u, d))
      else if e = Character ''g'' then taken (u\<lparr>ui_selected := 0\<rparr>, d)
      else if e = Character ''G'' then taken (u\<lparr>ui_selected := length (ui_rows u) - 1\<rparr>, d)
      else if e = ArrowLeft \<or> e = Character ''h'' then taken (go_left V u, d)
      else if e = ArrowRight \<or> e = Character ''l'' then taken (go_right V u, d)
      else if e = Character ''J'' \<or> e = Character ''K'' then
        taken (u\<lparr>ui_detail_scroll := ui_detail_scroll u + (if e = Character ''J'' then 1 else - 1), ui_keep_view := False\<rparr>, d)
      else (False, u, d))"

text \<open>The field in focus is edited and put back.\<close>

definition edit_in_focus :: "(string \<Rightarrow> int \<Rightarrow> string \<times> int) \<Rightarrow> ui \<Rightarrow> ui" where
  "edit_in_focus f u =
     (if ui_form_field u = 0
      then (case f (ui_add_name u) (ui_name_cursor u) of (s, c) \<Rightarrow> u\<lparr>ui_add_name := s, ui_name_cursor := c\<rparr>)
      else (case f (ui_add_value u) (ui_value_cursor u) of (s, c) \<Rightarrow> u\<lparr>ui_add_value := s, ui_value_cursor := c\<rparr>))"

text \<open>Enter and Tab in the value are held back: more input right behind means a paste.\<close>

definition hold_key :: "'d tui_env \<Rightarrow> bool \<Rightarrow> ui \<Rightarrow> ui" where
  "hold_key V is_tab u =
     (case now V u of (t, u) \<Rightarrow> u\<lparr>ui_held_since := Some t, ui_held_is_tab := is_tab\<rparr>)"

definition form_event :: "'d tui_env \<Rightarrow> ui_event \<Rightarrow> ui \<Rightarrow> bool \<times> ui" where
  "form_event V e u =
     (case e of
        EscapeKey \<Rightarrow> (True, cancel_form V u)
      | ReturnKey \<Rightarrow>
          (True, if ui_mode u = Add \<and> ui_form_field u = 0 then u\<lparr>ui_form_field := 1\<rparr> else hold_key V False u)
      | CtrlR \<Rightarrow> (True, u\<lparr>ui_value_masked := \<not> ui_value_masked u\<rparr>)
      | TabKey \<Rightarrow> if ui_form_field u = 1 then (True, hold_key V True u) else (False, u)
      | CtrlU \<Rightarrow> (True, edit_in_focus erase_to_line_start u)
      | CtrlW \<Rightarrow> (True, edit_in_focus erase_word_before u)
      | CtrlA \<Rightarrow> (True, edit_in_focus (\<lambda>s c. (s, line_start s c)) u)
      | CtrlE \<Rightarrow> (True, edit_in_focus (\<lambda>s c. (s, line_end s c)) u)
      | _ \<Rightarrow> (False, u))"

definition confirm_event :: "'d tui_env \<Rightarrow> ui_event \<Rightarrow> ui \<Rightarrow> 'd \<Rightarrow> ui \<times> 'd" where
  "confirm_event V e u d =
     (if is_mouse e then (u, d) else
      let confirmed = (e = Character ''y'' \<or> e = Character ''Y'') in
      if ui_mode u = ConfirmOverwrite then
        (if confirmed then
           (case save_form V (trim_key_name (ui_add_name u)) ''updated'' u d of
              (True, u, d) \<Rightarrow> (u, d)
            | (False, u, d) \<Rightarrow> (u\<lparr>ui_mode := Add\<rparr>, d))
         else (say V ''not saved; edit the name or Esc'' (u\<lparr>ui_mode := Add\<rparr>), d))
      else if confirmed then do_delete V u d
      else (say V ''cancelled'' (u\<lparr>ui_mode := Normal\<rparr>), d))"

section \<open>The handler\<close>

text \<open>The event in the mode the UI is in.\<close>

definition mode_event :: "'d tui_env \<Rightarrow> ui_event \<Rightarrow> ui \<Rightarrow> 'd \<Rightarrow> bool \<times> ui \<times> 'd" where
  "mode_event V e u d =
     (case ui_mode u of
        Help \<Rightarrow> taken (help_event e u, d)
      | Filter \<Rightarrow> (case filter_event V e u of (handled, u) \<Rightarrow> (handled, u, d))
      | Normal \<Rightarrow> normal_event V e u d
      | Add \<Rightarrow> (case form_event V e u of (handled, u) \<Rightarrow> (handled, u, d))
      | Edit \<Rightarrow> (case form_event V e u of (handled, u) \<Rightarrow> (handled, u, d))
      | _ \<Rightarrow> taken (confirm_event V e u d))"

text \<open>A key that is held back: was it a pasted one, or typed?\<close>

definition settle_held_key :: "'d tui_env \<Rightarrow> ui_event \<Rightarrow> ui \<Rightarrow> 'd \<Rightarrow> ui \<times> 'd" where
  "settle_held_key V e u d =
     (case ui_held_since u of
        None \<Rightarrow> (u, d)
      | Some since \<Rightarrow>
          if is_mouse e then (u, d) else
          (case now V u of
             (t, u) \<Rightarrow>
               if t - since < kPasteBurst \<and> (is_character e \<or> e = ReturnKey \<or> e = TabKey)
               then (insert_into_value [if ui_held_is_tab u then TAB else LF] (u\<lparr>ui_held_since := None\<rparr>), d)
               else release_held_key V u d))"

text \<open>Any key or click ends the previous message.\<close>

definition end_message :: "ui_event \<Rightarrow> ui \<Rightarrow> ui" where
  "end_message e u = (if \<not> is_mouse e \<or> is_mouse_press e then u\<lparr>ui_status := []\<rparr> else u)"

text \<open>What is left of an event once a held key is settled.\<close>

definition key_event :: "'d tui_env \<Rightarrow> ui_event \<Rightarrow> ui \<Rightarrow> 'd \<Rightarrow> bool \<times> ui \<times> 'd" where
  "key_event V e u d =
     (let u = end_message e u in
      if e = CtrlZ then taken (say V ''Ctrl-Z suspend is off in the TUI; q quits'' u, d)
      else if e = PasteStart then taken (u\<lparr>ui_pasting := True, ui_paste := []\<rparr>, d)
      else if ui_pasting u then taken (paste_event V e u, d)
      else mode_event V e u d)"

definition after_held :: "'d tui_env \<Rightarrow> ui_event \<Rightarrow> ui \<Rightarrow> 'd \<Rightarrow> bool \<times> ui \<times> 'd" where
  "after_held V e u d =
     (if e = CtrlC then taken (u\<lparr>ui_exited := True\<rparr>, d)
      else if is_mouse e then key_event V e u d
      else
        (case now V u of
           (t, u) \<Rightarrow>
             if t < ui_ignore_until u then
               (case now V u of
                  (t, u) \<Rightarrow> taken (note_ignored V (u\<lparr>ui_ignore_until := t + kAfterSubmitQuiet\<rparr>), d))
             else key_event V e u d))"

definition tick_event :: "'d tui_env \<Rightarrow> ui \<Rightarrow> 'd \<Rightarrow> ui \<times> 'd" where
  "tick_event V u d =
     (case (case ui_held_since u of
              None \<Rightarrow> (u, d)
            | Some since \<Rightarrow>
                (case now V u of
                   (t, u) \<Rightarrow> if t - since \<ge> kPasteBurst then release_held_key V u d else (u, d))) of
        (u, d) \<Rightarrow> (expire V u, d))"

definition on_event :: "'d tui_env \<Rightarrow> ui_event \<Rightarrow> ui \<Rightarrow> 'd \<Rightarrow> bool \<times> ui \<times> 'd" where
  "on_event V e u d =
     (if e = CustomTick then taken (tick_event V u d)
      else
        (case settle_held_key V e (expire V (sync_selection u)) d of
           (u, d) \<Rightarrow> after_held V e u d))"

text \<open>An event the handler leaves goes to the component in front.\<close>

definition component_event :: "'d tui_env \<Rightarrow> ui_event \<Rightarrow> ui \<Rightarrow> ui" where
  "component_event V e u =
     (if ui_active_tab u = 0 then snd (menu_event V e u)
      else
        (let ff = te_form V e (ui_mode u = Add)
               \<lparr>ff_name = ui_add_name u, ff_name_cursor = ui_name_cursor u, ff_value = ui_add_value u,
                ff_value_cursor = ui_value_cursor u, ff_field = ui_form_field u\<rparr>
         in u\<lparr>ui_add_name := ff_name ff, ui_name_cursor := ff_name_cursor ff, ui_add_value := ff_value ff,
              ui_value_cursor := ff_value_cursor ff, ui_form_field := ff_field ff\<rparr>))"

definition ui_step :: "'d tui_env \<Rightarrow> ui_event \<Rightarrow> ui \<times> 'd \<Rightarrow> ui \<times> 'd" where
  "ui_step V e s =
     (case on_event V e (fst s) (snd s) of
        (handled, u, d) \<Rightarrow> (if handled then u else component_event V e u, d))"

section \<open>Drawing\<close>

text \<open>\<open>std::clamp\<close>, where the bounds are in order.\<close>

definition clamp :: "int \<Rightarrow> int \<Rightarrow> int \<Rightarrow> int" where
  "clamp v lo hi = (if v < lo then lo else if hi < v then hi else v)"

text \<open>The numbers of lines a frame draws, and in how many rows, once the text is wrapped.\<close>

record frame_size =
  fs_detail_lines :: nat
  fs_detail_height :: nat
  fs_value_label :: int      \<comment> \<open>the line of \<open>value:\<close>, or -1\<close>
  fs_help_lines :: nat
  fs_help_height :: nat

definition scroll_detail :: "frame_size \<Rightarrow> ui \<Rightarrow> ui" where
  "scroll_detail F u =
     (let scroll = (if ui_keep_view u \<and> ui_revealed u \<noteq> None \<and>
              fs_value_label F + 2 > ui_detail_scroll u + int (fs_detail_height F)
            then fs_value_label F else ui_detail_scroll u)
      in u\<lparr>ui_detail_scroll := clamp scroll 0 (max 0 (int (fs_detail_lines F) - int (fs_detail_height F)))\<rparr>)"

definition scroll_help :: "frame_size \<Rightarrow> ui \<Rightarrow> ui" where
  "scroll_help F u =
     (if ui_mode u = Help
      then u\<lparr>ui_help_scroll := clamp (ui_help_scroll u) 0 (max 0 (int (fs_help_lines F) - int (fs_help_height F)))\<rparr>
      else u)"

text \<open>The countdown a frame draws is not kept, so its reading of the clock is left out.\<close>

definition draw_frame :: "frame_size \<Rightarrow> ui \<Rightarrow> ui" where
  "draw_frame F u = scroll_help F (scroll_detail F (sync_selection u))"

section \<open>Runs\<close>

datatype ui_input = Event ui_event | Frame frame_size

definition ui_input_step :: "'d tui_env \<Rightarrow> ui_input \<Rightarrow> ui \<times> 'd \<Rightarrow> ui \<times> 'd" where
  "ui_input_step V i s = (case i of Event e \<Rightarrow> ui_step V e s | Frame F \<Rightarrow> (draw_frame F (fst s), snd s))"

text \<open>The loop ends when \<open>Exit\<close> was called; then every buffer is scrubbed.\<close>

fun ui_run :: "'d tui_env \<Rightarrow> ui_input list \<Rightarrow> ui \<times> 'd \<Rightarrow> ui \<times> 'd" where
  "ui_run V [] s = s"
| "ui_run V (i # inputs) s = (if ui_exited (fst s) then s else ui_run V inputs (ui_input_step V i s))"

definition scrub :: "ui \<Rightarrow> ui" where
  "scrub u = (remask u)\<lparr>ui_add_name := [], ui_add_value := [], ui_paste := [], ui_filter := []\<rparr>"

end
