(* ===== verification/TuiStart.thy ===== *)
theory TuiStart
  imports TuiEvents
begin

text \<open>
  What runs before the event loop of the terminal UI: the marks of the project whose manifest is
  found from the current directory (\<open>load_project_marks\<close>), the checks of \<open>run_tui\<close> and the first
  listing of \<open>run_ui\<close>; and what runs after it, the scrubbing of the buffers.
\<close>

section \<open>Project marks\<close>

record project_marks =
  pm_project :: string
  pm_env_vars :: "(string \<times> string list) list"    \<comment> \<open>by store key\<close>
  pm_problem :: string

definition no_marks :: project_marks where
  "no_marks = \<lparr>pm_project = [], pm_env_vars = [], pm_problem = []\<rparr>"

definition mark_entry :: "string \<Rightarrow> secret_entry \<Rightarrow> (string \<times> string list) list \<Rightarrow> (string \<times> string list) list" where
  "mark_entry env entry marks =
     smap_put (se_path entry)
       (or_else (map_of marks (se_path entry)) [] @ [printable (se_env_var entry @ '' ('' @ env @ '')'')]) marks"

definition mark_envs :: "(string \<times> secret_entry list) list \<Rightarrow> (string \<times> string list) list" where
  "mark_envs envs = fold (\<lambda>(env, entries). fold (mark_entry env) entries) envs []"

text \<open>
  Every occurrence of a path is replaced; the search goes on behind the replacement. The path of
  a manifest that was found is not empty.
\<close>

function replace_all :: "string \<Rightarrow> string \<Rightarrow> string \<Rightarrow> string" where
  "replace_all old new s =
     (case s of
        [] \<Rightarrow> []
      | c # rest \<Rightarrow>
          if old \<noteq> [] \<and> has_prefix s old then new @ replace_all old new (drop (length old) s)
          else c # replace_all old new rest)"
  by pat_completeness auto
termination
  by (relation "measure (\<lambda>(old, new, s). length s)") auto

declare replace_all.simps [simp del]

definition marks_problem :: "(string \<Rightarrow> string option) \<Rightarrow> string option \<Rightarrow> string \<Rightarrow> project_marks" where
  "marks_problem relative manifest_path reason =
     (let reason =
        (case manifest_path of
           None \<Rightarrow> reason
         | Some path \<Rightarrow>
             (case relative path of None \<Rightarrow> reason | Some short_path \<Rightarrow> replace_all path short_path reason))
      in no_marks\<lparr>pm_problem := ''nothing marked: '' @ reason\<rparr>)"

definition load_project_marks ::
  "system \<Rightarrow> yaml_lib \<Rightarrow> (string \<Rightarrow> string option) \<Rightarrow> string + string \<Rightarrow> project_marks" where
  "load_project_marks S Y relative current_path =
     (case current_path of
        Inl reason \<Rightarrow> marks_problem relative None reason
      | Inr dir \<Rightarrow>
          (case find_manifest_upward S dir of
             None \<Rightarrow> no_marks
           | Some path \<Rightarrow>
               (case load_manifest S Y path of
                  Inl reason \<Rightarrow> marks_problem relative (Some path) reason
                | Inr m \<Rightarrow>
                    if bc_type (m_backend m) \<noteq> Local then no_marks
                    else \<lparr>pm_project = printable (m_project m), pm_env_vars = mark_envs (m_envs m), pm_problem = []\<rparr>)))"

text \<open>The mark in front of a key, in UTF-8.\<close>

definition diamond :: string where "diamond = [CHR 0xE2, CHR 0x97, CHR 0x86]"

definition is_marked :: "project_marks \<Rightarrow> row \<Rightarrow> bool" where
  "is_marked marks r \<longleftrightarrow> \<not> row_dir r \<and> map_of (pm_env_vars marks) (row_id r) \<noteq> None"

section \<open>Starting\<close>

definition ui_start :: "'d tui_env \<Rightarrow> project_marks \<Rightarrow> 'd \<Rightarrow> ui \<times> 'd" where
  "ui_start V marks d =
     (case refresh V [] fresh_ui d of
        (ok, u, d) \<Rightarrow>
          (if pm_problem marks \<noteq> [] then complain (pm_problem marks) u
           else if pm_project marks \<noteq> []
           then say V (diamond @ '' marks keys used by project '' @ quoted (pm_project marks)) u
           else u, d))"

text \<open>The loop, then every buffer is scrubbed.\<close>

definition run_ui :: "'d tui_env \<Rightarrow> project_marks \<Rightarrow> ui_input list \<Rightarrow> 'd \<Rightarrow> ui \<times> 'd" where
  "run_ui V marks inputs d =
     (case ui_run V inputs (ui_start V marks d) of (u, d) \<Rightarrow> (scrub u, d))"

definition kStartDaemonHint :: string where
  "kStartDaemonHint =
     ''start it with '' @ quoted ''scripts/service start'' @ '' (systemd user unit) or '' @ quoted ''secretov daemon''"

definition kBusyDaemonHint :: string where
  "kBusyDaemonHint =
     ''another client holds its socket: '' @ quoted ''ss -xp | grep secretov.sock'' @ '' shows the peer inode last; '' @
     quoted ''ss -xp | grep <that inode>'' @ '' names the holder; stop it''"

text \<open>How \<open>run_tui\<close> ends: with the lines on stderr, or with the UI it ran.\<close>

datatype tui_outcome = TuiFailed "string list" | TuiRan ui

definition tui_failure :: "paths \<Rightarrow> client_error \<Rightarrow> string list" where
  "tui_failure paths e =
     (''secretov: '' @ error_text e) #
     (case e of
        DaemonUnreachable what at timed_out seconds \<Rightarrow>
          if at = NotRunning then [''  '' @ kStartDaemonHint]
          else if timed_out then [''  '' @ kBusyDaemonHint] else []
      | _ \<Rightarrow>
          if error_text e = kErrInvalidToken
          then [''  '' @ p_token paths @ '' differs from the token the daemon loaded at start; restart the daemon'']
          else [])"

text \<open>
  \<open>env_of\<close> builds the environment of the loop once the client is known; \<open>terminal\<close> says whether
  both standard streams are terminals.
\<close>

definition run_tui ::
  "libs \<Rightarrow> system \<Rightarrow> yaml_lib \<Rightarrow> (string \<Rightarrow> string option) \<Rightarrow> string + string \<Rightarrow> bool \<Rightarrow> paths \<Rightarrow>
   (string \<Rightarrow> string + string) \<Rightarrow> 'd peer \<Rightarrow> (daemon_client \<Rightarrow> 'd tui_env) \<Rightarrow> ui_input list \<Rightarrow> 'd \<Rightarrow> tui_outcome \<times> 'd" where
  "run_tui L S Y relative current_path terminal paths read_file P env_of inputs d =
     (if \<not> terminal then (TuiFailed [''secretov tui: requires a terminal''], d)
      else if \<not> sys_accessible S (p_token paths) then
        (TuiFailed [''secretov: no API token at '' @ p_token paths,
           ''  run '' @ quoted ''secretov init'' @ '' to create the store and token''], d)
      else
        (case daemon_client_of paths read_file of
           Inl what \<Rightarrow> (TuiFailed (tui_failure paths (RuntimeError what)), d)
         | Inr cl \<Rightarrow>
             (case request L (sys_uid S) P cl ''list'' [] None d of
                (Inl e, d) \<Rightarrow> (TuiFailed (tui_failure paths e), d)
              | (Inr resp, d) \<Rightarrow>
                  (case open_backend \<lparr>bc_type = Local, bc_location = []\<rparr> (daemon_client_of paths read_file) of
                     Inl e \<Rightarrow> (TuiFailed (tui_failure paths e), d)
                   | Inr backend \<Rightarrow>
                       (case run_ui (env_of cl) (load_project_marks S Y relative current_path) inputs d of
                          (u, d) \<Rightarrow> (TuiRan u, d))))))"

end
