(* ===== verification/TuiDraw.thy ===== *)
theory TuiDraw
  imports TuiStart
begin

text \<open>
  What a frame of the terminal UI shows, the renderer of \<open>run_ui\<close> in src/src/tui.cpp: the texts
  and the sizes it hands to FTXUI, from the state, the size of the terminal and one reading of the
  clock. Colours and widgets are left out; the two inputs of the form draw their own text.
\<close>

section \<open>UTF-8\<close>

definition bar_cursor :: string where "bar_cursor = [CHR 0xE2, CHR 0x96, CHR 0x8F]"
definition middle_dot :: string where "middle_dot = [CHR 0xC2, CHR 0xB7]"
definition folded_glyph :: string where "folded_glyph = [CHR 0xE2, CHR 0x96, CHR 0xB8]"
definition unfolded_glyph :: string where "unfolded_glyph = [CHR 0xE2, CHR 0x96, CHR 0xBE]"
definition bullet :: string where "bullet = [CHR 0xE2, CHR 0x80, CHR 0xA2]"
definition arrow_left :: string where "arrow_left = [CHR 0xE2, CHR 0x86, CHR 0x90]"
definition arrow_up :: string where "arrow_up = [CHR 0xE2, CHR 0x86, CHR 0x91]"
definition arrow_down :: string where "arrow_down = [CHR 0xE2, CHR 0x86, CHR 0x93]"
definition arrows :: string where "arrows = arrow_up @ ''/'' @ arrow_down"

record terminal_size =
  ts_x :: int
  ts_y :: int

definition kStackedBelowColumns :: int where "kStackedBelowColumns = 80"

definition stacked :: "terminal_size \<Rightarrow> bool" where
  "stacked T \<longleftrightarrow> ts_x T < kStackedBelowColumns"

section \<open>The status bar\<close>

record status_part =
  sp_full :: string
  sp_compact :: string      \<comment> \<open>empty: dropped when short of room\<close>
  sp_compacted :: bool

definition new_part :: "string \<Rightarrow> string \<Rightarrow> status_part" where
  "new_part full compact = \<lparr>sp_full = full, sp_compact = compact, sp_compacted = False\<rparr>"

text \<open>The seconds a shown value has left, rounded up; times are milliseconds.\<close>

definition countdown :: "int \<Rightarrow> ui \<Rightarrow> nat" where
  "countdown t u = nat (- ((- (kRevealFor - (t - ui_revealed_at u))) div 1000))"

definition status_parts :: "string \<Rightarrow> int \<Rightarrow> ui \<Rightarrow> status_part list" where
  "status_parts socket t u =
     (case ui_daemon u of
        DaemonAway \<Rightarrow> [new_part '' daemon unreachable: list stale '' '' stale '']
      | DaemonBusy \<Rightarrow> [new_part '' daemon busy '' '' busy '']
      | DaemonOk \<Rightarrow> []) @
     (if ui_mode u = Filter \<or> ui_filter u \<noteq> []
      then let shown = printable (ui_filter u) @ (if ui_mode u = Filter then bar_cursor else [])
           in [new_part ('' filter: '' @ shown @ '' '') ('' /'' @ ellipsize shown 12 @ '' '')]
      else []) @
     (if ui_revealed u \<noteq> None
      then let seconds = decimal (countdown t u) @ ''s ''
           in [new_part ('' shown, hides in '' @ seconds) ('' '' @ seconds)]
      else []) @
     [new_part ('' keys: '' @ decimal (length (ui_keys u)) @ '' '') [], new_part ('' '' @ socket @ '' '') []]"

definition part_shown :: "status_part \<Rightarrow> string" where
  "part_shown p = (if sp_compacted p then sp_compact p else sp_full p)"

definition parts_columns :: "status_part list \<Rightarrow> int" where
  "parts_columns parts =
     sum_list (map (\<lambda>p. if part_shown p = [] then 0 else text_columns (part_shown p) + 1) parts)"

text \<open>From the last part to the first, until the parts fit.\<close>

fun fit_parts_from :: "nat \<Rightarrow> int \<Rightarrow> status_part list \<Rightarrow> status_part list" where
  "fit_parts_from 0 budget parts = parts"
| "fit_parts_from (Suc i) budget parts =
     (if parts_columns parts > budget
      then fit_parts_from i budget (parts[i := (parts ! i)\<lparr>sp_compacted := True\<rparr>])
      else parts)"

definition fit_parts :: "int \<Rightarrow> status_part list \<Rightarrow> status_part list" where
  "fit_parts budget parts = fit_parts_from (length parts) budget parts"

definition drawn_parts :: "status_part list \<Rightarrow> string list" where
  "drawn_parts parts = filter (\<lambda>s. s \<noteq> []) (map part_shown parts)"

text \<open>Three rows of a long message at most.\<close>

definition message_rows :: "string \<Rightarrow> int \<Rightarrow> string list" where
  "message_rows message width =
     (let lines = word_wrap message width in
      if length lines > 3 then take 2 lines @ [ellipsize (lines ! 2 @ ellipsis) width] else lines)"

text \<open>The rows of a message that does not fit beside the parts, and the texts of the last row.\<close>

record status_bar =
  sb_rows :: "string list"
  sb_last :: "string list"

definition status_bar_of :: "string \<Rightarrow> int \<Rightarrow> terminal_size \<Rightarrow> ui \<Rightarrow> status_bar" where
  "status_bar_of socket t T u =
     (let message = printable (ui_status u);
          message_columns = text_columns message + 2;
          parts = fit_parts (ts_x T - message_columns) (status_parts socket t u)
      in if message_columns + parts_columns parts > ts_x T
         then \<lparr>sb_rows = map (\<lambda>line. '' '' @ line) (message_rows message (ts_x T - 2)),
               sb_last = drawn_parts (fit_parts (ts_x T) (map (\<lambda>p. p\<lparr>sp_compacted := False\<rparr>) parts))\<rparr>
         else \<lparr>sb_rows = [], sb_last = ('' '' @ message @ '' '') # drawn_parts parts\<rparr>)"

definition status_height :: "status_bar \<Rightarrow> int" where
  "status_height b = int (length (sb_rows b)) + 1"

definition rows_below_panes :: "status_bar \<Rightarrow> int" where
  "rows_below_panes b = 1 + status_height b"

section \<open>The panes\<close>

definition framed_title_columns :: "string \<Rightarrow> string list \<Rightarrow> int" where
  "framed_title_columns title tags = text_columns title + 4 + sum_list (map (\<lambda>tag. text_columns tag + 2) tags)"

definition list_title :: string where "list_title = '' secrets ''"

definition list_tags :: "project_marks \<Rightarrow> ui \<Rightarrow> string list" where
  "list_tags marks u =
     (if pm_project marks \<noteq> [] then [diamond @ '' '' @ pm_project marks] else []) @
     (if pm_problem marks \<noteq> [] then [diamond @ '' refused, see ?''] else []) @
     (if ui_daemon u = DaemonAway then [''(stale)''] else [])"

text \<open>Columns of the widest row: marker, uncapped indent, glyph, name.\<close>

definition longest_row :: "ui \<Rightarrow> int" where
  "longest_row u =
     fold (\<lambda>(r, label) longest. max longest (4 + 2 * int (row_depth r) + text_columns label))
       (zip (ui_rows u) (ui_labels u)) 0"

definition widest_list :: "terminal_size \<Rightarrow> int" where
  "widest_list T = ts_x T * 2 div 5"

definition narrowest_list :: "project_marks \<Rightarrow> terminal_size \<Rightarrow> ui \<Rightarrow> int" where
  "narrowest_list marks T u = max 24 (min (framed_title_columns list_title (list_tags marks u)) (widest_list T))"

record layout =
  ly_list_width :: int
  ly_list_height :: int
  ly_detail_width :: int
  ly_detail_height :: int

definition layout_of :: "project_marks \<Rightarrow> terminal_size \<Rightarrow> status_bar \<Rightarrow> ui \<Rightarrow> layout" where
  "layout_of marks T b u =
     (let panes_height = max (ts_y T - 1 - status_height b) 6;
          list_width = (if stacked T then ts_x T
                        else clamp (longest_row u + 3) (narrowest_list marks T u) (widest_list T));
          list_height = (if stacked T then panes_height div 2 else panes_height)
      in \<lparr>ly_list_width = list_width, ly_list_height = list_height,
          ly_detail_width = (if stacked T then ts_x T else ts_x T - list_width),
          ly_detail_height = (if stacked T then panes_height - list_height else panes_height)\<rparr>)"

definition list_text_width :: "layout \<Rightarrow> int" where
  "list_text_width l = ly_list_width l - 3"

definition detail_text_width :: "layout \<Rightarrow> int" where
  "detail_text_width l = ly_detail_width l - 2"

definition detail_text_height :: "layout \<Rightarrow> int" where
  "detail_text_height l = max (ly_detail_height l - 2) 1"

section \<open>The list\<close>

definition kMinLabelColumns :: int where "kMinLabelColumns = 6"

definition row_glyph :: "project_marks \<Rightarrow> ui \<Rightarrow> row \<Rightarrow> string" where
  "row_glyph marks u r =
     (if \<not> row_dir r then (if is_marked marks r then diamond else middle_dot) @ '' ''
      else (if is_folded (ui_filter u) (ui_collapsed u) (row_id r) then folded_glyph else unfolded_glyph) @ '' '')"

definition row_indent :: "int \<Rightarrow> row \<Rightarrow> bool \<Rightarrow> string" where
  "row_indent width r is_selected =
     (if is_selected then ''> '' else ''  '') @ blanks (clamp (width - 4 - kMinLabelColumns) 0 (2 * int (row_depth r)))"

definition row_line :: "project_marks \<Rightarrow> ui \<Rightarrow> int \<Rightarrow> row \<Rightarrow> string \<Rightarrow> bool \<Rightarrow> string" where
  "row_line marks u width r label active =
     (let indent = row_indent width r active; glyph = row_glyph marks u r
      in indent @ glyph @ ellipsize label (width - text_columns indent - text_columns glyph))"

definition list_body :: "project_marks \<Rightarrow> int \<Rightarrow> ui \<Rightarrow> string list" where
  "list_body marks width u =
     (if ui_rows u \<noteq> []
      then map (\<lambda>i. row_line marks u width (row_at u i) (ui_labels u ! i) (i = ui_selected u)) [0 ..< length (ui_rows u)]
      else if ui_filter u \<noteq> [] then [''(no match)''] else [''(empty)''])"

section \<open>The detail pane\<close>

datatype detail_line = Line string | Rule

definition wrapped :: "string \<Rightarrow> int \<Rightarrow> detail_line list" where
  "wrapped s width = map Line (wrap_lines s width)"

definition masked_value :: string where
  "masked_value = concat (replicate 8 bullet)"

text \<open>The lines above \<open>value:\<close> of a key.\<close>

definition key_lines :: "project_marks \<Rightarrow> int \<Rightarrow> string \<Rightarrow> detail_line list" where
  "key_lines marks width key =
     Line ''name:'' # wrapped (printable key) width @
     (case map_of (pm_env_vars marks) key of
        None \<Rightarrow> []
      | Some env_vars \<Rightarrow>
          Line (''env var in '' @ pm_project marks @ [SQUOTE] @ ''s manifest:'') #
          concat (map (\<lambda>env_var. wrapped env_var width) env_vars)) @
     [Rule]"

text \<open>The lines, and the index of \<open>value:\<close> or -1.\<close>

definition detail_lines :: "project_marks \<Rightarrow> int \<Rightarrow> ui \<Rightarrow> detail_line list \<times> int" where
  "detail_lines marks width u =
     (if ui_rows u = [] then
        ([Line (if ui_filter u = [] then ''press '' @ quoted ''a'' @ '' to add a secret'' else ''Esc clears the filter'')], -1)
      else if row_dir (row_at u (ui_selected u)) then
        (let folder = row_id (row_at u (ui_selected u)) in
         (Line ''folder:'' # wrapped (printable folder) width @
          [Rule, Line (decimal (length (filter (\<lambda>key. has_prefix key folder) (ui_keys u))) @ '' secret(s)'')], -1))
      else
        (let above = key_lines marks width (row_id (row_at u (ui_selected u))) in
         (above @ [Line ''value:''] @
          (case ui_revealed u of
             Some v \<Rightarrow> wrapped (printable_value v) width
           | None \<Rightarrow> [Line masked_value, Line ''(Enter or r reveals, c copies)'']), int (length above))))"

definition scroll_tag :: "int \<Rightarrow> int \<Rightarrow> int \<Rightarrow> string \<Rightarrow> string" where
  "scroll_tag first stop count keys =
     decimal (nat (first + 1)) @ ''-'' @ decimal (nat stop) @ ''/'' @ decimal (nat count) @ keys"

record pane_text =
  pt_tags :: "string list"
  pt_lines :: "detail_line list"

text \<open>The lines from the scroll position on; the position is the one \<open>scroll_detail\<close> leaves.\<close>

definition detail_pane :: "detail_line list \<Rightarrow> int \<Rightarrow> int \<Rightarrow> pane_text" where
  "detail_pane lines height scroll =
     (let count = int (length lines); stop = min count (scroll + height) in
      \<lparr>pt_tags = (if count > height then [scroll_tag scroll stop count '' J/K scroll''] else []),
       pt_lines = take (nat (stop - scroll)) (drop (nat scroll) lines)\<rparr>)"

section \<open>The hints\<close>

definition hint :: "string \<Rightarrow> string \<Rightarrow> string" where
  "hint keys what = keys @ [TAB] @ what"

definition hint_items :: "bool \<Rightarrow> ui \<Rightarrow> string list" where
  "hint_items detail_overflows u =
     (case ui_mode u of
        Normal \<Rightarrow>
          if ui_keys u = [] then
            [hint ''a'' ''add'', hint ''R'' (if ui_daemon u \<noteq> DaemonOk then ''retry'' else ''reload''),
             hint ''?'' ''help  q'' @ [TAB] @ ''quit'']
          else
            [hint ''j/k'' ''move''] @
            (if current_key u \<noteq> None
             then [hint ''Enter/r'' (if ui_revealed u \<noteq> None then ''hide'' else ''reveal''), hint ''c'' ''copy''] else []) @
            (if detail_overflows then [hint ''J/K'' ''scroll''] else []) @
            (if ui_daemon u \<noteq> DaemonOk then [hint ''R'' ''retry''] else []) @
            (if ui_filter u \<noteq> [] then [hint ''Esc'' ''clear filter''] else []) @
            [hint ''h/l'' ''fold'', hint ''/'' ''filter'', hint ''a'' ''add'', hint ''e'' ''edit'', hint ''d'' ''delete''] @
            (if ui_daemon u = DaemonOk then [hint ''R'' ''reload''] else []) @
            [hint ''?'' ''help  q'' @ [TAB] @ ''quit'']
      | Filter \<Rightarrow> [''type to narrow'', hint arrows ''move'', hint ''Enter'' ''keep filter'', hint ''Esc'' ''clear'']
      | Help \<Rightarrow> [hint ''j/k'' ''scroll  any other key closes help'']
      | ConfirmDelete \<Rightarrow> [hint ''y'' ''yes  other keys no'']
      | ConfirmOverwrite \<Rightarrow> [hint ''y'' ''yes  other keys no'']
      | _ \<Rightarrow>
          [hint ''Enter'' (if ui_mode u = Add \<and> ui_form_field u = 0 then ''next field'' else ''save''),
           hint ''Ctrl-R'' (if ui_value_masked u then ''show value'' else ''hide value'')] @
          (if ui_mode u = Add then [hint ''Tab'' ''switch field''] else []) @
          [hint ''Ctrl-U/W'' ''erase'', hint ''Ctrl-A/E'' ''line start/end'', hint ''Esc'' ''cancel''])"

text \<open>The index of the first two blanks, or the length.\<close>

fun gap_at :: "string \<Rightarrow> nat" where
  "gap_at (a # b # s) = (if a = SPC \<and> b = SPC then 0 else Suc (gap_at (b # s)))"
| "gap_at s = length s"

text \<open>One hint: its key and what it does, or a text of its own.\<close>

definition drawn_hint :: "string \<Rightarrow> string list" where
  "drawn_hint s =
     (case find_char TAB s of None \<Rightarrow> [s] | Some tab \<Rightarrow> [take tab s, '' '' @ drop (tab + 1) s])"

lemma gap_at_le: "gap_at s \<le> length s"
  by (induction s rule: gap_at.induct) auto

function hint_parts :: "string \<Rightarrow> string list" where
  "hint_parts line =
     drawn_hint (take (gap_at line) line) @
     (if gap_at line < length line then ''  '' # hint_parts (drop (gap_at line + 2) line) else [])"
  by pat_completeness auto
termination
  by (relation "measure length") auto

declare hint_parts.simps [simp del]

definition hints_of :: "bool \<Rightarrow> terminal_size \<Rightarrow> ui \<Rightarrow> string list" where
  "hints_of detail_overflows T u = hint_parts (fit_hints (hint_items detail_overflows u) (ts_x T - 2))"

end
