(* ===== verification/TuiOverlay.thy ===== *)
theory TuiOverlay
  imports TuiDraw
begin

text \<open>
  The dialogs over the panes (the form, the question, the help) and the whole frame, with the
  state it leaves: the renderer of \<open>run_ui\<close> in src/src/tui.cpp.
\<close>

section \<open>The form\<close>

datatype form_line =
    NameInput
  | Labelled string string
  | Note string
  | ValueInput int      \<comment> \<open>rows at most\<close>

definition form_width :: "terminal_size \<Rightarrow> int" where
  "form_width T = (if stacked T then max (ts_x T - 2) 10 else clamp (ts_x T - 4) 20 72)"

definition name_label :: string where "name_label = ''name:  ''"
definition margin :: string where "margin = blanks 7"

text \<open>The name: an input, or the wrapped key that is edited.\<close>

definition form_head :: "terminal_size \<Rightarrow> ui \<Rightarrow> form_line list" where
  "form_head T u =
     (if ui_mode u = Add then
        NameInput #
        (if key_exists u (trim_key_name (ui_add_name u)) then [Note (margin @ ''exists: saving will ask to overwrite'')] else [])
      else
        (case wrap_lines (printable (or_else (current_key u) [])) (max (form_width T - 9) 1) of
           [] \<Rightarrow> []
         | piece # pieces \<Rightarrow> Labelled name_label piece # map (Labelled margin) pieces))"

definition shown_problem :: "ui \<Rightarrow> string option" where
  "shown_problem u = (if ui_show_problem u then form_problem u else None)"

definition value_rows :: "terminal_size \<Rightarrow> int \<Rightarrow> ui \<Rightarrow> int" where
  "value_rows T below u =
     clamp (ts_y T - 2 * below - 4 - (int (length (form_head T u)) + (if shown_problem u \<noteq> None then 1 else 0))) 1 8"

definition form_lines :: "terminal_size \<Rightarrow> int \<Rightarrow> ui \<Rightarrow> form_line list" where
  "form_lines T below u =
     form_head T u @ [ValueInput (value_rows T below u)] @
     (case shown_problem u of None \<Rightarrow> [] | Some problem \<Rightarrow> [Note (margin @ problem)])"

definition form_title :: "ui \<Rightarrow> string" where
  "form_title u = (if ui_mode u = Add then '' add secret: env/project/KEY '' else '' edit secret '')"

text \<open>Which line the cursor is on, when lines are scrolled out.\<close>

definition form_tags :: "terminal_size \<Rightarrow> int \<Rightarrow> ui \<Rightarrow> string list" where
  "form_tags T below u =
     (let value_lines = count_list (ui_add_value u) LF + 1;
          cursor_line = count_list (take (clamped (ui_add_value u) (ui_value_cursor u)) (ui_add_value u)) LF + 1
      in if int value_lines > value_rows T below u
         then [''line '' @ decimal cursor_line @ ''/'' @ decimal value_lines] else [])"

section \<open>The question\<close>

definition kAsk :: string where "kAsk = SQUOTE # ''? [y/N]''"

definition question_name :: "ui \<Rightarrow> string" where
  "question_name u =
     printable (if ui_mode u = ConfirmDelete then or_else (current_key u) [] else trim_key_name (ui_add_name u))"

definition question_verb :: "ui \<Rightarrow> string" where
  "question_verb u = (if ui_mode u = ConfirmDelete then ''Delete '' else ''Overwrite '') @ [SQUOTE]"

definition question_width :: "terminal_size \<Rightarrow> string \<Rightarrow> int" where
  "question_width T question =
     (if stacked T then max (ts_x T - 4) 10 else min (text_columns question) (max (ts_x T - 8) 10))"

definition question_rows :: "terminal_size \<Rightarrow> int \<Rightarrow> int" where
  "question_rows T below = max (ts_y T - 2 * below - 4) 1"

text \<open>A name too long for the rows loses its middle.\<close>

definition question_lines :: "terminal_size \<Rightarrow> int \<Rightarrow> ui \<Rightarrow> string list" where
  "question_lines T below u =
     (let name = question_name u; verb = question_verb u;
          question = verb @ name @ kAsk;
          width = question_width T question; rows = question_rows T below;
          question =
            (if int (length (wrap_lines question width)) > rows
             then verb @ ellipsize_middle name (rows * width - (text_columns verb + text_columns kAsk)) @ kAsk
             else question)
      in wrap_lines question width)"

section \<open>The help\<close>

definition kHelp :: "(string option \<times> string) list" where
  "kHelp =
     [(None, ''tree''),
      (Some (''j/k '' @ arrows @ '' PgUp/PgDn''), ''move''),
      (Some ''g/G Home/End'', ''top / bottom''),
      (Some (''h/l '' @ arrow_left @ ''/'' @ tab_glyph), ''fold or go to parent / unfold or go to first child''),
      (Some ''Enter Space r'', ''reveal or hide (folder: fold); re-masks after 60 s''),
      (Some ''c'', ''copy the value to the clipboard (OSC 52), unrevealed''),
      (Some ''J/K'', ''scroll the detail pane''),
      (Some ''/  Esc'', ''filter keys / clear the filter and the message''),
      (Some ''a  e  d'', ''add, edit, delete''),
      (Some ''R'', ''reload the list from the daemon''),
      (Some ''?  F1'', ''this help (j/k scroll it, any other key closes it)''),
      (Some ''q  Ctrl-C'', ''quit (Ctrl-Z suspend is off: it would turn off safe paste)''),
      (Some ''mouse'', ''click selects (a folder also folds), wheel moves''),
      (Some diamond, ''key used by this directory'' @ [SQUOTE] @ ''s .secretov.yaml''),
      (None, ''filter (/)''),
      (Some ''type  Backspace'', ''narrow to keys containing it (any case) / erase''),
      (Some ''Ctrl-U'', ''erase the whole filter''),
      (Some (arrows @ ''  Enter  Esc''), ''move / keep the filter / clear it''),
      (None, ''add / edit form''),
      (Some ''Enter'', ''next field (add name) or save''),
      (Some ''Tab  Shift-Tab'', ''switch field (add only)''),
      (Some ''Ctrl-R'', ''show or hide the value''),
      (Some ''Ctrl-U  Ctrl-W'', ''erase to line start / previous word or path segment''),
      (Some ''Ctrl-A  Ctrl-E'', ''line start / end''),
      (Some ''Esc'', ''cancel''),
      (None, ''confirm [y/N]''),
      (Some ''y'', ''yes; Enter, Esc or any other key: no'')]"

definition kHelpKeysWidth :: int where "kHelpKeysWidth = 20"

record help_text =
  ht_line :: string
  ht_heading :: bool
  ht_key_bytes :: nat      \<comment> \<open>leading bytes drawn as keys\<close>

definition help_section :: "string \<Rightarrow> help_text list" where
  "help_section heading = [\<lparr>ht_line = heading, ht_heading = True, ht_key_bytes = 0\<rparr>]"

definition help_row :: "int \<Rightarrow> string \<Rightarrow> string \<Rightarrow> help_text list" where
  "help_row help_width keys s =
     (case help_row_lines keys s (if keys = [] then 0 else kHelpKeysWidth) help_width of
        [] \<Rightarrow> []
      | line # lines \<Rightarrow>
          \<lparr>ht_line = line, ht_heading = False,
           ht_key_bytes =
             (if keys = [] then 0
              else if has_prefix line (''  '' @ keys) then length (''  '' @ keys) else length line)\<rparr> #
          map (\<lambda>line. \<lparr>ht_line = line, ht_heading = False, ht_key_bytes = 0\<rparr>) lines)"

definition help_width :: "terminal_size \<Rightarrow> int" where
  "help_width T = clamp (ts_x T - 4) 10 76"

definition help_text_of :: "project_marks \<Rightarrow> string \<Rightarrow> int \<Rightarrow> help_text list" where
  "help_text_of marks socket width =
     concat (map (\<lambda>(keys, s). case keys of None \<Rightarrow> help_section s | Some keys \<Rightarrow> help_row width keys s) kHelp) @
     help_section ''daemon'' @
     help_row width ''socket'' (printable socket) @
     help_row width ''if it stops'' ''start it (scripts/service start), then R'' @
     (if pm_problem marks \<noteq> [] then
        help_section ''project manifest (refused)'' @ help_row width [] (printable (pm_problem marks))
      else if pm_project marks \<noteq> [] then
        help_section ''project manifest'' @ help_row width diamond (''marks keys used by project '' @ quoted (pm_project marks))
      else [])"

definition help_height :: "terminal_size \<Rightarrow> int \<Rightarrow> int" where
  "help_height T below = max (ts_y T - 4 - 2 * below) 1"

text \<open>The texts of one row: a heading, or the keys and what they do.\<close>

definition help_row_texts :: "help_text \<Rightarrow> string list" where
  "help_row_texts h =
     (if ht_heading h then [ht_line h @ '' '', '' '']
      else [take (ht_key_bytes h) (ht_line h), drop (ht_key_bytes h) (ht_line h)])"

definition help_tags :: "help_text list \<Rightarrow> int \<Rightarrow> int \<Rightarrow> string list" where
  "help_tags rows height scroll =
     (let count = int (length rows) in
      if count > height then [scroll_tag scroll (min count (scroll + height)) count '' j/k''] else [])"

definition help_rows :: "help_text list \<Rightarrow> int \<Rightarrow> int \<Rightarrow> string list list" where
  "help_rows rows height scroll =
     map help_row_texts (take (nat (min (int (length rows)) (scroll + height) - scroll)) (drop (nat scroll) rows))"

section \<open>The frame\<close>

datatype overlay =
    FormOverlay int string "string list" "form_line list"
  | QuestionOverlay "string list"
  | HelpOverlay int "string list" "string list list"

record drawn =
  dr_status :: status_bar
  dr_layout :: layout
  dr_list_tags :: "string list"
  dr_list :: "string list"
  dr_detail :: pane_text
  dr_hints :: "string list"
  dr_overlay :: "overlay option"

definition overlay_of :: "project_marks \<Rightarrow> string \<Rightarrow> terminal_size \<Rightarrow> int \<Rightarrow> ui \<Rightarrow> overlay option" where
  "overlay_of marks socket T below u =
     (if ui_mode u = Add \<or> ui_mode u = Edit
      then Some (FormOverlay (form_width T) (form_title u) (form_tags T below u) (form_lines T below u))
      else if ui_mode u = ConfirmDelete \<or> ui_mode u = ConfirmOverwrite then Some (QuestionOverlay (question_lines T below u))
      else if ui_mode u = Help then
        (let rows = help_text_of marks socket (help_width T); height = help_height T below in
         Some (HelpOverlay (help_width T) (help_tags rows height (ui_help_scroll u)) (help_rows rows height (ui_help_scroll u))))
      else None)"

text \<open>The sizes of the frame, of the state in which the selection has been synchronised.\<close>

definition frame_size_of :: "project_marks \<Rightarrow> string \<Rightarrow> int \<Rightarrow> terminal_size \<Rightarrow> ui \<Rightarrow> frame_size" where
  "frame_size_of marks socket t T u =
     (let b = status_bar_of socket t T u; l = layout_of marks T b u in
      case detail_lines marks (detail_text_width l) u of
        (lines, value_label) \<Rightarrow>
          \<lparr>fs_detail_lines = length lines, fs_detail_height = nat (detail_text_height l), fs_value_label = value_label,
           fs_help_lines = length (help_text_of marks socket (help_width T)),
           fs_help_height = nat (help_height T (rows_below_panes b))\<rparr>)"

definition draw :: "project_marks \<Rightarrow> string \<Rightarrow> int \<Rightarrow> terminal_size \<Rightarrow> ui \<Rightarrow> drawn \<times> ui" where
  "draw marks socket t T u =
     (let u = sync_selection u;
          b = status_bar_of socket t T u;
          l = layout_of marks T b u;
          F = frame_size_of marks socket t T u;
          lines = fst (detail_lines marks (detail_text_width l) u);
          u' = scroll_help F (scroll_detail F u)
      in (\<lparr>dr_status = b, dr_layout = l, dr_list_tags = list_tags marks u,
           dr_list = list_body marks (list_text_width l) u,
           dr_detail = detail_pane lines (detail_text_height l) (ui_detail_scroll u'),
           dr_hints = hints_of (int (length lines) > detail_text_height l) T u,
           dr_overlay = overlay_of marks socket T (rows_below_panes b) u'\<rparr>, u'))"

lemma draw_state: "\<exists>F. snd (draw marks socket t T u) = draw_frame F u"
  by (rule exI [of _ "frame_size_of marks socket t T (sync_selection u)"]) (simp add: draw_def draw_frame_def Let_def)

text \<open>Every text a frame hands to FTXUI, but the contents of the form's inputs.\<close>

fun detail_text :: "detail_line \<Rightarrow> string list" where
  "detail_text (Line s) = [s]"
| "detail_text Rule = []"

fun form_text :: "form_line \<Rightarrow> string list" where
  "form_text NameInput = [name_label]"
| "form_text (Labelled label s) = [label, s]"
| "form_text (Note s) = [s]"
| "form_text (ValueInput rows) = [''value: '']"

fun overlay_texts :: "overlay \<Rightarrow> string list" where
  "overlay_texts (FormOverlay width title tags lines) = title # tags @ concat (map form_text lines)"
| "overlay_texts (QuestionOverlay lines) = lines"
| "overlay_texts (HelpOverlay width tags rows) = tags @ concat rows"

definition drawn_texts :: "drawn \<Rightarrow> string list" where
  "drawn_texts f =
     sb_rows (dr_status f) @ sb_last (dr_status f) @ dr_list_tags f @ dr_list f @ pt_tags (dr_detail f) @
     concat (map detail_text (pt_lines (dr_detail f))) @ dr_hints f @
     (case dr_overlay f of None \<Rightarrow> [] | Some overlay \<Rightarrow> overlay_texts overlay)"

end
