(* ===== verification/TuiEditFacts.thy ===== *)
theory TuiEditFacts
  imports TuiEdit
begin

text \<open>
  What the text helpers guarantee: how wide fitted text is, that wrapping loses nothing, that
  nothing drawn holds a control character, what an edit removes.
\<close>

named_theorems columns_simps \<open>the columns of text built from parts\<close>

lemma text_columns_Nil [simp]: "text_columns [] = 0"
  by (simp add: text_columns_def)

lemma text_columns_append [columns_simps]: "text_columns (s @ t) = text_columns s + text_columns t"
  by (simp add: text_columns_def)

lemma text_columns_Cons [columns_simps]:
  "text_columns (c # s) = (if starts_code_point c then 1 else 0) + text_columns s"
  by (simp add: text_columns_def)

lemma text_columns_nonneg [simp]: "0 \<le> text_columns s"
  by (simp add: text_columns_def)

lemma starts_SPC [simp]: "starts_code_point SPC"
  by (simp add: starts_code_point_def byte_def)

lemma text_columns_SPC [simp]: "text_columns [SPC] = 1"
  by (simp add: columns_simps)

lemma ellipsis_columns [simp]: "text_columns ellipsis = 1"
  by (simp add: ellipsis_def columns_simps starts_code_point_def byte_def)

section \<open>Cutting at a column\<close>

lemma prefix_bytes_le: "prefix_bytes_from columns width s \<le> length s"
  by (induction s arbitrary: columns) auto

lemma prefix_columns_from:
  "columns \<le> width \<Longrightarrow>
   text_columns (take (prefix_bytes_from columns width s) s) = min (width - columns) (text_columns s)"
proof (induction s arbitrary: columns)
  case (Cons c s)
  have "0 \<le> text_columns s" by simp
  then show ?case using Cons.prems Cons.IH [of columns] Cons.IH [of "columns + 1"]
    by (auto simp: columns_simps)
qed simp

lemma prefix_columns: "0 \<le> width \<Longrightarrow> text_columns (take (prefix_bytes s width) s) = min width (text_columns s)"
  by (simp add: prefix_bytes_def prefix_columns_from)

lemma suffix_columns:
  assumes "0 \<le> width" and "width \<le> text_columns s"
  shows "text_columns (drop (prefix_bytes s width) s) = text_columns s - width"
  using prefix_columns [OF assms(1), of s] assms(2)
    text_columns_append [of "take (prefix_bytes s width) s" "drop (prefix_bytes s width) s"]
  by simp

lemma ellipsize_columns: "text_columns (ellipsize s width) = (if text_columns s \<le> width then text_columns s else max 0 width)"
  by (auto simp: ellipsize_def columns_simps prefix_columns)

lemma ellipsize_middle_columns:
  "text_columns (ellipsize_middle s width) = (if text_columns s \<le> width then text_columns s else max 0 width)"
proof -
  have "text_columns s - (width - 1 - (width - 1) div 2) \<ge> 0" and "width - 1 - (width - 1) div 2 \<ge> 0"
    if "0 < width" "\<not> text_columns s \<le> width"
    using that by linarith+
  then show ?thesis
    by (auto simp: ellipsize_middle_def columns_simps prefix_columns suffix_columns Let_def)
qed

section \<open>Wrapping\<close>

lemma line_pieces_concat: "concat (line_pieces line width) = line"
proof (induction line width rule: line_pieces.induct)
  case (1 line width)
  show ?case
    using 1 by (subst line_pieces.simps) (auto simp: Let_def)
qed

lemma line_pieces_bounded: "p \<in> set (line_pieces line width) \<Longrightarrow> text_columns p \<le> max width 1"
proof (induction line width rule: line_pieces.induct)
  case (1 line width)
  have "text_columns (take (prefix_bytes line (max width 1)) line) \<le> max width 1"
    by (simp add: prefix_columns)
  then show ?case
    using 1 by (subst (asm) (2) line_pieces.simps) (auto simp: Let_def split: if_splits)
qed

lemma line_pieces_subset: "p \<in> set (line_pieces line width) \<Longrightarrow> set p \<subseteq> set line"
  using line_pieces_concat [of line width] by (auto simp: set_concat [symmetric]) (metis UN_I set_concat)

lemma wrap_lines_None: "find_char LF s = None \<Longrightarrow> wrap_lines s width = line_pieces s width"
  and wrap_lines_Some: "find_char LF s = Some n \<Longrightarrow>
    wrap_lines s width = line_pieces (take n s) width @ wrap_lines (drop (n + 1) s) width"
  by (subst wrap_lines.simps, simp del: find_char_None)+

lemma filter_LF_free: "LF \<notin> set s \<Longrightarrow> filter (\<lambda>c. c \<noteq> LF) s = s"
  by (induction s) auto

lemma wrap_lines_concat: "concat (wrap_lines s width) = filter (\<lambda>c. c \<noteq> LF) s"
proof (induction s width rule: wrap_lines.induct)
  case (1 s width)
  show ?case
  proof (cases "find_char LF s")
    case None
    then show ?thesis using wrap_lines_None [OF None] by (simp add: line_pieces_concat filter_LF_free)
  next
    case (Some n)
    note f = find_char_split [OF Some]
    have "filter (\<lambda>c. c \<noteq> LF) s = filter (\<lambda>c. c \<noteq> LF) (take n s @ LF # drop (Suc n) s)"
      using f by metis
    also have "\<dots> = take n s @ filter (\<lambda>c. c \<noteq> LF) (drop (Suc n) s)"
      using f [THEN conjunct2, THEN conjunct2] by (simp add: filter_LF_free)
    finally show ?thesis
      using 1 [OF Some] wrap_lines_Some [OF Some] by (simp add: line_pieces_concat)
  qed
qed

lemma wrap_lines_pieces:
  "p \<in> set (wrap_lines s width) \<Longrightarrow> text_columns p \<le> max width 1 \<and> LF \<notin> set p"
proof (induction s width rule: wrap_lines.induct)
  case (1 s width)
  show ?case
  proof (cases "find_char LF s")
    case None
    then show ?thesis
      using 1(2) line_pieces_bounded [of p s width] line_pieces_subset [of p s width] wrap_lines_None [OF None] by auto
  next
    case (Some n)
    note f = find_char_split [OF Some]
    show ?thesis
      using 1(1) [OF Some] 1(2) f wrap_lines_Some [OF Some] line_pieces_bounded [of p "take n s" width]
        line_pieces_subset [of p "take n s" width] by auto
  qed
qed

text \<open>Words: the text without its spaces comes out unchanged, on lines that fit.\<close>

abbreviation solid :: "string \<Rightarrow> string" where
  "solid s \<equiv> filter (\<lambda>c. c \<noteq> SPC) s"

definition fits :: "int \<Rightarrow> string list \<Rightarrow> string \<Rightarrow> bool" where
  "fits width lines line \<longleftrightarrow>
     text_columns line \<le> max width 1 \<and> (\<forall>l \<in> set lines. text_columns l \<le> max width 1 \<and> l \<noteq> [])"

lemma place_word_keeps:
  "place_word width word lines line = (lines', line') \<Longrightarrow>
   solid (concat lines' @ line') = solid (concat lines @ line @ word) \<and> (fits width lines line \<longrightarrow> fits width lines' line')"
proof (induction width word lines line rule: place_word.induct)
  case (1 width word lines line)
  let ?needed = "text_columns line + (if line = [] then 0 else 1) + text_columns word"
  consider "word = []" | "word \<noteq> []" "?needed \<le> max width 1"
    | "word \<noteq> []" "\<not> ?needed \<le> max width 1" "line \<noteq> []" | "word \<noteq> []" "\<not> ?needed \<le> max width 1" "line = []"
    by blast
  then show ?case
  proof cases
    case 1
    then show ?thesis using "1.prems" by (simp add: place_word.simps [of width "[]"])
  next
    case 2
    then show ?thesis
      using "1.prems" by (auto simp: place_word.simps [of width word] fits_def columns_simps Let_def)
  next
    case 3
    then have p: "place_word width word (lines @ [line]) [] = (lines', line')"
      using "1.prems" by (simp add: place_word.simps [of width word] Let_def)
    have "fits width (lines @ [line]) []" if "fits width lines line"
      using that 3(3) by (auto simp: fits_def)
    then show ?thesis using "1.IH"(1) [OF 3(1) refl 3(2,3) p] by auto
  next
    case 4
    let ?piece = "prefix_bytes word (max width 1)"
    have p: "place_word width (drop ?piece word) (lines @ [take ?piece word]) line = (lines', line')"
      using "1.prems" 4 by (simp add: place_word.simps [of width word] Let_def)
    have "fits width (lines @ [take ?piece word]) line" if "fits width lines line"
      using that 4(1) by (auto simp: fits_def prefix_columns)
    moreover have "solid (take ?piece word) @ solid (drop ?piece word) = solid word"
      by (metis append_take_drop_id filter_append)
    ultimately show ?thesis using "1.IH"(2) [OF 4(1) refl 4(2) _ refl p] 4(3) by auto
  qed
qed

lemma wrap_words_keep:
  "wrap_words width s lines line = (lines', line') \<Longrightarrow>
   solid (concat lines' @ line') = solid (concat lines @ line @ s) \<and> (fits width lines line \<longrightarrow> fits width lines' line')"
proof (induction width s lines line rule: wrap_words.induct)
  case (1 width s lines line)
  show ?case
  proof (cases "s = []")
    case True
    then show ?thesis using "1.prems" by (simp add: wrap_words.simps [of width "[]"])
  next
    case False
    let ?space = "or_else (find_char SPC s) (length s)"
    obtain ls l where pw: "place_word width (take ?space s) lines line = (ls, l)"
      by (cases "place_word width (take ?space s) lines line") auto
    have w: "wrap_words width (drop (?space + 1) s) ls l = (lines', line')"
      using "1.prems" False pw by (simp add: wrap_words.simps [of width s] Let_def)
    have "solid (take ?space s) @ solid (drop (?space + 1) s) = solid s"
    proof (cases "find_char SPC s")
      case None
      then show ?thesis by (simp del: find_char_None)
    next
      case (Some n)
      have "solid s = solid (take n s @ SPC # drop (Suc n) s)" using find_char_split [OF Some] by metis
      then show ?thesis using Some by simp
    qed
    note keeps = this and rest = "1.IH" [OF False refl pw [symmetric] w] and placed = place_word_keeps [OF pw]
    have "solid (concat lines' @ line') = solid (concat ls @ l) @ solid (drop (?space + 1) s)"
      using rest by simp
    also have "\<dots> = solid (concat lines @ line) @ solid (take ?space s) @ solid (drop (?space + 1) s)"
      using placed by simp
    also have "\<dots> = solid (concat lines @ line @ s)"
      unfolding keeps by simp
    finally show ?thesis using rest placed by simp
  qed
qed

lemma word_wrap_keeps:
  "solid (concat (word_wrap s width)) = solid s \<and> word_wrap s width \<noteq> [] \<and>
   (\<forall>l \<in> set (word_wrap s width). text_columns l \<le> max width 1)"
proof -
  obtain lines line where w: "wrap_words width s [] [] = (lines, line)" by (cases "wrap_words width s [] []")
  have "fits width [] []" by (simp add: fits_def)
  then show ?thesis using wrap_words_keep [OF w] w by (auto simp: word_wrap_def fits_def)
qed

section \<open>What is drawn\<close>

lemma c1_two: "is_c1_at (a # s) \<longleftrightarrow> (\<exists>b t. s = b # t \<and> byte a = 0xC2 \<and> 0x80 \<le> byte b \<and> byte b \<le> 0x9F)"
  by (cases s) auto

lemma printable_hd: "printable (b # t) \<noteq> [] \<and> (hd (printable (b # t)) = CHR ''?'' \<or> hd (printable (b # t)) = b)"
  by (cases t) auto

lemma qmark [simp]: "\<not> is_c0 CHR ''?''" "byte CHR ''?'' = 63"
  by (simp_all add: is_c0_def byte_def)

lemma printable_safe: "\<not> has_control_char (printable s)"
proof (induction s rule: printable.induct)
  case (2 a s)
  show ?case
  proof (cases "is_c1_at (a # s)")
    case True
    then show ?thesis using 2(1) by (auto simp: c1_two)
  next
    case False
    then have IH: "\<not> has_control_char (printable s)" using 2(2) by simp
    have "\<not> is_c1_at (a # printable s)"
    proof (cases s)
      case (Cons b t)
      then show ?thesis using False printable_hd [of b t] by (cases "printable (b # t)") auto
    qed simp
    then show ?thesis using False IH by (auto simp: c1_two)
  qed
qed simp

lemma printable_columns: "text_columns (printable s) = text_columns s"
proof (induction s rule: printable.induct)
  case (2 a s)
  have "starts_code_point a" if "byte a = 0xC2 \<or> is_c0 a"
    using that by (auto simp: starts_code_point_def is_c0_def)
  moreover have "\<not> starts_code_point b" if "0x80 \<le> byte b" "byte b \<le> 0x9F" for b
    using that by (auto simp: starts_code_point_def)
  moreover have "starts_code_point CHR ''?''" by (simp add: starts_code_point_def)
  ultimately show ?case using 2 by (auto simp: columns_simps c1_two)
qed simp

lemma printable_same: "\<not> has_control_char s \<Longrightarrow> printable s = s"
  by (induction s rule: printable.induct) auto

section \<open>Hints\<close>

lemma fit_kept_keeps:
  "hints \<noteq> [] \<Longrightarrow> subseq (fit_kept hints width) hints \<and> fit_kept hints width \<noteq> [] \<and>
   last (fit_kept hints width) = last hints \<and>
   (length (fit_kept hints width) > 1 \<longrightarrow> text_columns (join_hints (fit_kept hints width)) \<le> width)"
proof (induction hints width rule: fit_kept.induct)
  case (1 kept width)
  show ?case
  proof (cases "length kept > 1 \<and> text_columns (join_hints kept) > width")
    case True
    let ?next = "take (length kept - 2) kept @ [last kept]"
    obtain front y z where k: "kept = front @ [y, z]"
      using True by (metis One_nat_def append.assoc append_Cons append_Nil length_Cons less_irrefl list.size(3)
          not_less_zero rev_exhaust)
    then have "subseq ?next kept" by (simp add: list_emb_append_mono)
    then show ?thesis
      using 1(1) [OF True] True by (auto simp: fit_kept.simps [of kept] intro: subseq_order.trans)
  next
    case False
    then show ?thesis using 1(2) by (auto simp: fit_kept.simps [of kept])
  qed
qed

section \<open>Editing\<close>

lemma clamped_le [simp]: "clamped s cursor \<le> length s"
  by (simp add: clamped_def)

lemma back_while_le: "back_while p s n \<le> n"
  by (induction n) auto

lemma back_while_all: "i < n \<Longrightarrow> back_while p s n \<le> i \<Longrightarrow> p (s ! i)"
  by (induction n) (auto simp: less_Suc_eq split: if_splits)

lemma back_while_stop: "0 < back_while p s n \<Longrightarrow> \<not> p (s ! (back_while p s n - 1))"
  by (induction n) auto

lemma drop_code_point_suffix: "suffix (drop_code_point s) s"
  by (induction s) (auto simp: suffix_Cons)

end
