(* ===== verification/TuiRows.thy ===== *)
theory TuiRows
  imports TuiEditFacts
begin

text \<open>
  The rows of the key tree against their specification: the rows are the visible folders and
  keys, in increasing order.
\<close>

section \<open>Prefixes and the order of strings\<close>

lemma prefix_le: "prefix f k \<Longrightarrow> f \<le> (k :: string)"
proof (induction f arbitrary: k)
  case (Cons c f)
  then show ?case by (cases k) auto
qed simp

lemma prefix_less: "strict_prefix f k \<Longrightarrow> f < (k :: string)"
  using prefix_le [of f k] by (auto simp: strict_prefix_def)

lemma prefix_between:
  "prefix f k \<Longrightarrow> f \<le> p \<Longrightarrow> p \<le> k \<Longrightarrow> prefix f (p :: string)"
proof (induction f arbitrary: k p)
  case (Cons c f)
  then obtain k' where k: "k = c # k'" "prefix f k'" using Cons.prems(1) by (cases k) auto
  obtain d p' where p: "p = d # p'" using Cons.prems(2) by (cases p) auto
  have "d = c" "f \<le> p'" "p' \<le> k'" using Cons.prems k p by auto
  then show ?case using Cons.IH k p by auto
qed simp

section \<open>Folders of a key\<close>

lemma folders_from_append: "folders_from passed (s @ t) = folders_from passed s @ folders_from (passed @ s) t"
  by (induction s arbitrary: passed) auto

lemma folders_append: "folders_of (s @ t) = folders_of s @ folders_from s t"
  by (simp add: folders_of_def folders_from_append)

lemma folders_from_iff:
  "f \<in> set (folders_from passed s) \<longleftrightarrow> (\<exists>u. f = passed @ u @ [SLASH] \<and> prefix (u @ [SLASH]) s)"
proof (induction s arbitrary: passed)
  case (Cons c s)
  have *: "(\<exists>u. f = passed @ u @ [SLASH] \<and> prefix (u @ [SLASH]) (c # s)) \<longleftrightarrow>
      f = passed @ [SLASH] \<and> c = SLASH \<or> (\<exists>u. f = passed @ [c] @ u @ [SLASH] \<and> prefix (u @ [SLASH]) s)"
    (is "?l \<longleftrightarrow> ?r")
  proof
    assume ?l
    then obtain u where u: "f = passed @ u @ [SLASH]" "prefix (u @ [SLASH]) (c # s)" by blast
    then show ?r by (cases u) auto
  next
    assume ?r
    then show ?l
    proof
      assume "f = passed @ [SLASH] \<and> c = SLASH"
      then show ?l by (intro exI [of _ "[]"]) simp
    next
      assume "\<exists>u. f = passed @ [c] @ u @ [SLASH] \<and> prefix (u @ [SLASH]) s"
      then obtain u where "f = passed @ [c] @ u @ [SLASH]" "prefix (u @ [SLASH]) s" by blast
      then show ?l by (intro exI [of _ "c # u"]) simp
    qed
  qed
  show ?case using Cons.IH by (auto simp: *)
qed simp

lemma folders_iff: "f \<in> set (folders_of key) \<longleftrightarrow> (\<exists>u. f = u @ [SLASH] \<and> prefix f key)"
  by (auto simp: folders_of_def folders_from_iff)

lemma folders_from_longer: "f \<in> set (folders_from passed s) \<Longrightarrow> length passed < length f"
  by (auto simp: folders_from_iff)

lemma folders_sorted: "sorted_wrt (<) (folders_from passed s)"
proof (induction s arbitrary: passed)
  case (Cons c s)
  have "passed @ [c] < f" if "f \<in> set (folders_from (passed @ [c]) s)" for f
    using that by (intro prefix_less) (auto simp: folders_from_iff strict_prefix_def)
  then show ?case using Cons.IH by auto
qed simp

section \<open>What is visible\<close>

fun open_to :: "(string \<Rightarrow> bool) \<Rightarrow> string list \<Rightarrow> string list" where
  "open_to folded [] = []"
| "open_to folded (f # fs) = f # (if folded f then [] else open_to folded fs)"

lemma open_to_append:
  "open_to folded (xs @ ys) = open_to folded xs @ (if list_ex folded xs then [] else open_to folded ys)"
  by (induction xs) auto

lemma open_to_subset: "set (open_to folded xs) \<subseteq> set xs"
  by (induction xs) auto

lemma open_to_sorted: "sorted_wrt (<) xs \<Longrightarrow> sorted_wrt (<) (open_to folded xs)"
proof (induction xs)
  case (Cons x xs)
  then show ?case using open_to_subset [of folded xs] by auto
qed simp

text \<open>
  The rows of one key: its folders down to the first folded one, then the key if none is. A row is
  its id and whether it is a folder, for a key that ends in a slash has the id of its folder.
\<close>

definition key_rows :: "string \<Rightarrow> string set \<Rightarrow> string \<Rightarrow> (string \<times> bool) list" where
  "key_rows flt collapsed key =
     map (\<lambda>f. (f, True)) (open_to (is_folded flt collapsed) (folders_of key)) @
     (if list_ex (is_folded flt collapsed) (folders_of key) then [] else [(key, False)])"

definition visible_rows :: "string list \<Rightarrow> string \<Rightarrow> string set \<Rightarrow> (string \<times> bool) set" where
  "visible_rows keys flt collapsed =
     (\<Union>key \<in> set (filter (\<lambda>key. contains_ignore_case key flt) keys). set (key_rows flt collapsed key))"

lemma key_rows_prefix: "r \<in> set (key_rows flt collapsed key) \<Longrightarrow> prefix (fst r) key"
  using open_to_subset by (fastforce simp: key_rows_def folders_iff split: if_splits)

lemma key_rows_slash: "(f, True) \<in> set (key_rows flt collapsed key) \<Longrightarrow> last f = SLASH"
  using open_to_subset by (fastforce simp: key_rows_def folders_iff split: if_splits)

text \<open>The order of the rows: by id, and a folder before the key of the same id.\<close>

definition row_before :: "string \<times> bool \<Rightarrow> string \<times> bool \<Rightarrow> bool" where
  "row_before r s \<longleftrightarrow> fst r < fst s \<or> fst r = fst s \<and> snd r \<and> \<not> snd s"

section \<open>One key\<close>

lemma shared_take: "take (shared_count b f) b = take (shared_count b f) f"
  by (induction b f rule: shared_count.induct) auto

lemma shared_common: "length c \<le> shared_count (c @ b) (c @ f)"
  by (induction c) auto

abbreviation ids_of :: "(row \<times> string) list \<Rightarrow> (string \<times> bool) list" where
  "ids_of acc \<equiv> map (\<lambda>e. (row_id (fst e), row_dir (fst e))) acc"

lemma open_folders_ids:
  "open_folders flt collapsed depth start fs hidden acc = (hidden', acc') \<Longrightarrow>
   hidden' = (hidden \<or> list_ex (is_folded flt collapsed) fs) \<and>
   ids_of acc' = ids_of acc @ (if hidden then [] else map (\<lambda>f. (f, True)) (open_to (is_folded flt collapsed) fs))"
  by (induction fs arbitrary: depth start hidden acc) (auto simp: Let_def split: if_splits)

text \<open>The ids a key adds after a branch: those of its own rows that the branch does not share.\<close>

lemma add_key_ids:
  assumes "contains_ignore_case key flt" and "add_key flt collapsed key (folders_of p, acc) = (branch, acc')"
  shows "branch = folders_of key" and
    "\<exists>new. ids_of acc' = ids_of acc @ new \<and> set new \<subseteq> set (key_rows flt collapsed key) \<and>
      set (key_rows flt collapsed key) \<subseteq>
        (\<lambda>f. (f, True)) ` set (open_to (is_folded flt collapsed) (folders_of p)) \<union> set new \<and>
      (\<forall>r \<in> set new. r = (key, False) \<or> (fst r \<in> set (folders_of key) \<and> \<not> prefix (fst r) p)) \<and>
      sorted_wrt row_before new"
proof -
  let ?F = "is_folded flt collapsed" and ?fs = "folders_of key" and ?n = "shared_count (folders_of p) (folders_of key)"
  have take: "take ?n (folders_of p) = take ?n ?fs" by (rule shared_take)
  obtain hidden acc1 where o: "open_folders flt collapsed ?n (folder_end ?fs ?n) (drop ?n ?fs)
      (list_ex ?F (take ?n (folders_of p))) acc = (hidden, acc1)"
    by (cases "open_folders flt collapsed ?n (folder_end ?fs ?n) (drop ?n ?fs) (list_ex ?F (take ?n (folders_of p))) acc") auto
  note i = open_folders_ids [OF o, unfolded take]
  have e: "branch = ?fs" and a: "ids_of acc' = ids_of acc1 @ (if hidden then [] else [(key, False)])"
    using assms o by (auto simp: add_key_def Let_def take)
  show "branch = folders_of key" by (rule e)
  have all: "list_ex ?F ?fs \<longleftrightarrow> list_ex ?F (take ?n ?fs) \<or> list_ex ?F (drop ?n ?fs)"
    by (metis append_take_drop_id list_ex_append)
  have opened: "open_to ?F ?fs = open_to ?F (take ?n ?fs) @ (if list_ex ?F (take ?n ?fs) then [] else open_to ?F (drop ?n ?fs))"
    by (metis append_take_drop_id open_to_append)
  have shared: "set (open_to ?F (take ?n ?fs)) \<subseteq> set (open_to ?F (folders_of p))"
    unfolding take [symmetric] using open_to_append [of ?F "take ?n (folders_of p)" "drop ?n (folders_of p)"] by auto
  let ?opened = "if list_ex ?F (take ?n ?fs) then [] else open_to ?F (drop ?n ?fs)"
  let ?new = "map (\<lambda>f. (f, True)) ?opened @ (if list_ex ?F ?fs then [] else [(key, False)])"
  have sorted: "sorted_wrt (<) ?fs" by (simp add: folders_of_def folders_sorted)
  have fresh: "f \<in> set ?fs \<and> \<not> prefix f p" if "f \<in> set ?opened" for f
  proof -
    have d: "f \<in> set (drop ?n ?fs)" using that open_to_subset by (auto split: if_splits)
    then have m: "f \<in> set ?fs" by (rule in_set_dropD)
    have False if "prefix f p"
    proof -
      obtain x where x: "p = f @ x" using \<open>prefix f p\<close> by (auto simp: prefix_def)
      obtain u where f: "f = u @ [SLASH]" and "prefix f key" using m unfolding folders_iff by blast
      then obtain y where y: "key = f @ y" by (auto simp: prefix_def)
      have "length (folders_of f) \<le> ?n"
        by (simp add: x y folders_append shared_common)
      moreover have "f \<in> set (folders_of f)" using f by (auto simp: folders_iff)
      ultimately have "f \<in> set (take ?n ?fs)" by (auto simp: y folders_append)
      moreover have "distinct ?fs" using sorted by (simp add: strict_sorted_iff)
      ultimately show False using d by (metis append_take_drop_id disjoint_iff distinct_append)
    qed
    then show ?thesis using m by blast
  qed
  have "sorted_wrt row_before ?new"
  proof -
    have "row_before (f, True) (key, False)" if "f \<in> set ?fs" for f
      using that prefix_le [of f key] by (auto simp: folders_iff row_before_def le_less)
    moreover have "sorted_wrt (<) ?opened" using sorted by (auto intro: open_to_sorted sorted_wrt_drop)
    then have "sorted_wrt row_before (map (\<lambda>f. (f, True)) ?opened)"
      by (auto simp: sorted_wrt_map row_before_def elim!: sorted_wrt_mono_rel [rotated])
    ultimately show ?thesis using fresh by (simp add: sorted_wrt_append)
  qed
  then show "\<exists>new. ids_of acc' = ids_of acc @ new \<and> set new \<subseteq> set (key_rows flt collapsed key) \<and>
      set (key_rows flt collapsed key) \<subseteq>
        (\<lambda>f. (f, True)) ` set (open_to (is_folded flt collapsed) (folders_of p)) \<union> set new \<and>
      (\<forall>r \<in> set new. r = (key, False) \<or> (fst r \<in> set (folders_of key) \<and> \<not> prefix (fst r) p)) \<and>
      sorted_wrt row_before new"
    using a i all opened shared fresh
    by (intro exI [of _ ?new]) (auto simp: key_rows_def)
qed

section \<open>All keys\<close>

text \<open>After some keys, the last of which that matched is \<open>p\<close>.\<close>

definition rows_inv :: "string \<Rightarrow> string set \<Rightarrow> string list \<Rightarrow> string list \<Rightarrow> (row \<times> string) list \<Rightarrow> bool" where
  "rows_inv flt collapsed keys branch acc \<longleftrightarrow>
     (let matching = filter (\<lambda>key. contains_ignore_case key flt) keys in
      branch = (if matching = [] then [] else folders_of (last matching)) \<and>
      set (ids_of acc) = visible_rows keys flt collapsed \<and> sorted_wrt row_before (ids_of acc))"

lemma visible_rows_append:
  "visible_rows (keys @ keys') flt collapsed = visible_rows keys flt collapsed \<union> visible_rows keys' flt collapsed"
  by (simp add: visible_rows_def)

lemma rows_inv_step:
  assumes "rows_inv flt collapsed keys branch acc" and "sorted_wrt (<) (keys @ [key])"
    and "add_key flt collapsed key (branch, acc) = (branch', acc')"
  shows "rows_inv flt collapsed (keys @ [key]) branch' acc'"
proof (cases "contains_ignore_case key flt")
  case False
  then show ?thesis using assms by (simp add: add_key_def rows_inv_def visible_rows_def)
next
  case True
  let ?matching = "filter (\<lambda>key. contains_ignore_case key flt) keys"
  let ?p = "if ?matching = [] then [] else last ?matching"
  have inv: "set (ids_of acc) = visible_rows keys flt collapsed" "sorted_wrt row_before (ids_of acc)"
    using assms(1) by (simp_all add: rows_inv_def Let_def)
  have branch: "branch = folders_of ?p"
    using assms(1) by (simp add: rows_inv_def Let_def folders_of_def)
  have below: "k \<le> ?p \<and> ?p < key" if "k \<in> set ?matching" for k
  proof -
    have all: "k < key" and sorted: "sorted_wrt (<) ?matching" if "k \<in> set ?matching" for k
      using assms(2) that by (simp_all add: sorted_wrt_append sorted_wrt_filter)
    have ne: "?matching \<noteq> []" by (metis that empty_iff empty_set)
    then obtain front where m: "?matching = front @ [last ?matching]" by (metis append_butlast_last_id)
    have "k \<le> last ?matching" using sorted [OF that] that m by (metis Un_iff empty_iff insert_iff less_imp_le list.set(1) list.set(2) order_refl set_append sorted_wrt_append)
    moreover have "last ?matching < key" using all [OF last_in_set [OF ne]] .
    ultimately show ?thesis using ne by simp
  qed
  have old: "fst f \<le> ?p \<and> ?matching \<noteq> []" if f: "f \<in> set (ids_of acc)" for f
  proof -
    obtain k where k: "k \<in> set ?matching" "f \<in> set (key_rows flt collapsed k)"
      using f unfolding inv(1) visible_rows_def by auto
    then have "fst f \<le> k" by (intro prefix_le key_rows_prefix)
    then have "fst f \<le> ?p" using below [OF k(1)] by (metis order_trans)
    moreover have "?matching \<noteq> []" using k(1) by (metis empty_iff empty_set)
    ultimately show ?thesis by simp
  qed
  from add_key_ids [OF True assms(3) [unfolded branch]]
  obtain new where new: "ids_of acc' = ids_of acc @ new" "set new \<subseteq> set (key_rows flt collapsed key)"
    "set (key_rows flt collapsed key) \<subseteq>
      (\<lambda>f. (f, True)) ` set (open_to (is_folded flt collapsed) (folders_of ?p)) \<union> set new"
    "\<forall>r \<in> set new. r = (key, False) \<or> (fst r \<in> set (folders_of key) \<and> \<not> prefix (fst r) ?p)"
    "sorted_wrt row_before new"
    and b: "branch' = folders_of key"
    by blast
  have later: "row_before f g" if f: "f \<in> set (ids_of acc)" and g: "g \<in> set new" for f g
  proof -
    have "fst f \<le> ?p" "?matching \<noteq> []" using old [OF f] by auto
    then have p: "fst f \<le> ?p" "?p < key" using below [OF last_in_set] by simp_all
    consider "g = (key, False)" | "prefix (fst g) key" "\<not> prefix (fst g) ?p" using bspec [OF new(4) g] folders_iff by blast
    then show ?thesis
    proof cases
      case 2
      then have "\<not> fst g \<le> ?p" using prefix_between [OF 2(1) _ less_imp_le [OF p(2)]] by blast
      then show ?thesis using p(1) by (auto simp: row_before_def)
    qed (use p in \<open>auto simp: row_before_def\<close>)
  qed
  have "(\<lambda>f. (f, True)) ` set (open_to (is_folded flt collapsed) (folders_of ?p)) \<subseteq> visible_rows keys flt collapsed"
  proof (cases "?matching = []")
    case True
    then show ?thesis by (simp add: folders_of_def)
  next
    case False
    then have "last ?matching \<in> set ?matching" by (rule last_in_set)
    then have "set (key_rows flt collapsed (last ?matching)) \<subseteq> visible_rows keys flt collapsed"
      unfolding visible_rows_def by blast
    then show ?thesis using False by (simp add: key_rows_def)
  qed
  then have "visible_rows keys flt collapsed \<union> set (key_rows flt collapsed key) = set (ids_of acc) \<union> set new"
    using new(2,3) inv(1) by blast
  then show ?thesis
    using new(1,5) inv(2) later b True
    by (simp add: rows_inv_def Let_def visible_rows_append sorted_wrt_append) (simp add: visible_rows_def)
qed

lemma rows_inv_fold:
  assumes "sorted_wrt (<) (front @ keys)"
    and "rows_inv flt collapsed front branch acc" and "fold (add_key flt collapsed) keys (branch, acc) = (branch', acc')"
  shows "rows_inv flt collapsed (front @ keys) branch' acc'"
  using assms
proof (induction keys arbitrary: front branch acc)
  case (Cons key keys)
  obtain b a where s: "add_key flt collapsed key (branch, acc) = (b, a)"
    by (cases "add_key flt collapsed key (branch, acc)") auto
  have "sorted_wrt (<) (front @ [key])" using Cons.prems(1) by (simp add: sorted_wrt_append)
  then have "rows_inv flt collapsed (front @ [key]) b a"
    using rows_inv_step [OF Cons.prems(2) _ s] by simp
  then show ?case using Cons.IH [of "front @ [key]" b a] Cons.prems s by simp
qed simp

text \<open>The rows: the visible folders and keys, each once, in increasing order.\<close>

lemma build_rows_spec:
  assumes "sorted_wrt (<) keys" and "build_rows keys flt collapsed = (rows, labels)"
  shows "(\<lambda>r. (row_id r, row_dir r)) ` set rows = visible_rows keys flt collapsed"
    and "sorted_wrt row_before (map (\<lambda>r. (row_id r, row_dir r)) rows)"
proof -
  obtain branch acc where f: "fold (add_key flt collapsed) keys ([], []) = (branch, acc)"
    by (cases "fold (add_key flt collapsed) keys ([], [])") auto
  have "rows_inv flt collapsed [] [] []" by (simp add: rows_inv_def visible_rows_def)
  from rows_inv_fold [of "[]", OF _ this f] assms(1)
  have "set (ids_of acc) = visible_rows keys flt collapsed" "sorted_wrt row_before (ids_of acc)"
    by (simp_all add: rows_inv_def Let_def)
  moreover have "rows = map fst acc" using assms(2) f by (auto simp: build_rows_def)
  ultimately show "(\<lambda>r. (row_id r, row_dir r)) ` set rows = visible_rows keys flt collapsed"
    "sorted_wrt row_before (map (\<lambda>r. (row_id r, row_dir r)) rows)"
    by (simp_all add: image_image comp_def)
qed

text \<open>When no key ends in a slash, no two rows have the same id.\<close>

lemma visible_rows_ids:
  assumes "\<forall>key \<in> set keys. last key \<noteq> SLASH" and "sorted_wrt row_before rs" and "set rs = visible_rows keys flt collapsed"
  shows "map fst rs = sorted_list_of_set (fst ` visible_rows keys flt collapsed)"
proof -
  have ne: "fst r \<noteq> fst s" if "r \<in> set rs" "s \<in> set rs" "snd r" "\<not> snd s" for r s
  proof -
    have "last (fst r) = SLASH"
      using that(1,3) key_rows_slash unfolding assms(3) visible_rows_def by (cases r) fastforce
    moreover have "fst s \<in> set keys"
      using that(2,4) unfolding assms(3) visible_rows_def key_rows_def by (cases s) (auto split: if_splits)
    ultimately show ?thesis using assms(1) by metis
  qed
  have "sorted_wrt (\<lambda>r s. fst r < fst s) rs"
    by (rule sorted_wrt_mono_rel [OF _ assms(2)]) (use ne in \<open>auto simp: row_before_def\<close>)
  then have "sorted_wrt (<) (map fst rs)" by (simp add: sorted_wrt_map)
  moreover have "set (map fst rs) = fst ` visible_rows keys flt collapsed" by (simp add: assms(3))
  ultimately show ?thesis by (metis sorted_list_of_set.idem_if_sorted_distinct strict_sorted_iff)
qed

section \<open>Each row\<close>

text \<open>A row knows its kind and depth, and its label is drawn safely.\<close>

definition row_ok :: "row \<times> string \<Rightarrow> bool" where
  "row_ok e \<longleftrightarrow>
     (let r = fst e; n = length (folders_of (row_id r)) in
      (if row_dir r then last (row_id r) = SLASH \<and> n = Suc (row_depth r) else n = row_depth r) \<and>
      \<not> has_control_char (snd e))"

lemma folders_from_nth:
  "i < length (folders_from passed s) \<Longrightarrow> length (folders_from passed s ! i) > 0 \<and>
   last (folders_from passed s ! i) = SLASH \<and>
   (\<exists>u. folders_from passed s ! i = passed @ u \<and> length (folders_from passed u) = Suc i)"
proof (induction s arbitrary: passed i)
  case (Cons c s)
  let ?next = "folders_from (passed @ [c]) s"
  show ?case
  proof (cases "c = SLASH \<and> i = 0")
    case True
    then show ?thesis by (auto intro!: exI [of _ "[SLASH]"])
  next
    case False
    define j where "j = (if c = SLASH then i - 1 else i)"
    have j: "j < length ?next" "folders_from passed (c # s) ! i = ?next ! j"
      using Cons.prems False by (auto simp: j_def nth_Cons')
    obtain u where u: "?next ! j = (passed @ [c]) @ u" "length (folders_from (passed @ [c]) u) = Suc j"
      using Cons.IH [OF j(1)] by blast
    then have "length (folders_from passed (c # u)) = Suc i" using False by (auto simp: j_def)
    then show ?thesis using Cons.IH [OF j(1)] u j(2) by (auto intro!: exI [of _ "c # u"])
  qed
qed simp

lemma folders_nth:
  "i < length (folders_of key) \<Longrightarrow>
   last (folders_of key ! i) = SLASH \<and> length (folders_of (folders_of key ! i)) = Suc i"
  using folders_from_nth [of i "[]" key] by (auto simp: folders_of_def)

lemma open_folders_ok:
  assumes "open_folders flt collapsed depth start (drop depth (folders_of key)) hidden acc = (hidden', acc')"
    and "\<forall>e \<in> set acc. row_ok e"
  shows "\<forall>e \<in> set acc'. row_ok e"
  using assms
proof (induction "drop depth (folders_of key)" arbitrary: depth start hidden acc)
  case (Cons f fs)
  let ?all = "folders_of key"
  have i: "depth < length ?all" using Cons.hyps(2) by (metis drop_eq_Nil leI list.distinct(1))
  have "f # fs = ?all ! depth # drop (Suc depth) ?all"
    unfolding Cons.hyps(2) using Cons_nth_drop_Suc [OF i] by simp
  then have f: "f = ?all ! depth" and fs: "fs = drop (Suc depth) ?all" by simp_all
  have "row_ok (\<lparr>row_id = f, row_dir = True, row_depth = depth\<rparr>, printable (drop start f))"
    using folders_nth [OF i] by (simp add: row_ok_def f printable_safe)
  then have ok: "\<forall>e \<in> set (if \<not> hidden
        then acc @ [(\<lparr>row_id = f, row_dir = True, row_depth = depth\<rparr>, printable (drop start f))] else acc). row_ok e"
    using Cons.prems(2) by auto
  have "open_folders flt collapsed (Suc depth) (length f) (drop (Suc depth) ?all) (hidden \<or> is_folded flt collapsed f)
      (if \<not> hidden then acc @ [(\<lparr>row_id = f, row_dir = True, row_depth = depth\<rparr>, printable (drop start f))] else acc) =
      (hidden', acc')"
    using Cons.prems(1) unfolding Cons.hyps(2) [symmetric] by (simp add: Let_def fs)
  from Cons.hyps(1) [OF fs this ok] show ?case .
qed auto

lemma add_key_ok:
  assumes "add_key flt collapsed key (branch, acc) = (branch', acc')" and "\<forall>e \<in> set acc. row_ok e"
  shows "\<forall>e \<in> set acc'. row_ok e"
proof (cases "contains_ignore_case key flt")
  case True
  let ?n = "shared_count branch (folders_of key)"
  obtain hidden acc1 where o: "open_folders flt collapsed ?n (folder_end (folders_of key) ?n) (drop ?n (folders_of key))
      (list_ex (is_folded flt collapsed) (take ?n branch)) acc = (hidden, acc1)"
    by (cases "open_folders flt collapsed ?n (folder_end (folders_of key) ?n) (drop ?n (folders_of key))
      (list_ex (is_folded flt collapsed) (take ?n branch)) acc") auto
  show ?thesis
    using open_folders_ok [OF o assms(2)] assms(1) o True
    by (auto simp: add_key_def Let_def row_ok_def printable_safe split: if_splits)
qed (use assms in \<open>simp add: add_key_def\<close>)

lemma build_rows_ok:
  "build_rows keys flt collapsed = (rows, labels) \<Longrightarrow> length labels = length rows \<and> (\<forall>e \<in> set (zip rows labels). row_ok e)"
proof -
  have all: "\<forall>e \<in> set (snd (fold (add_key flt collapsed) keys (branch, acc))). row_ok e"
    if "\<forall>e \<in> set acc. row_ok e" for branch acc
    using that
  proof (induction keys arbitrary: branch acc)
    case (Cons key keys)
    obtain b a where s: "add_key flt collapsed key (branch, acc) = (b, a)"
      by (cases "add_key flt collapsed key (branch, acc)") auto
    then show ?case using add_key_ok [OF s Cons.prems] Cons.IH [of a b] by simp
  qed simp
  assume "build_rows keys flt collapsed = (rows, labels)"
  then show ?thesis
    using all [of "[]" "[]"] by (auto simp only: build_rows_def Let_def zip_map_fst_snd length_map list.set prod.inject ball_empty)
qed

section \<open>After a delete\<close>

lemma folder_prefix_cases: "folder_prefix t = [] \<or> folder_prefix t \<in> set (folders_of t)"
proof (cases "rfind_char SLASH t")
  case (Some i)
  note f = rfind_char_split [OF Some]
  then have "t ! i = SLASH" by (metis length_take less_imp_le min_absorb2 nth_append_length)
  then have "take (i + 1) t = take i t @ [SLASH]" using f by (simp add: take_Suc_conv_app_nth)
  then show ?thesis
    using Some take_is_prefix [of "i + 1" t] by (auto simp: folder_prefix_def folders_iff)
qed (simp add: folder_prefix_def del: rfind_char_None)

lemma folders_trans: "f \<in> set (folders_of t) \<Longrightarrow> prefix t s \<Longrightarrow> f \<in> set (folders_of s)"
  by (metis folders_iff prefix_order.trans)

lemma enclosing_folders:
  "c \<in> set (enclosing folder) \<Longrightarrow> folder \<in> set (folders_of s) \<Longrightarrow> c \<in> set (folders_of s)"
proof (induction folder rule: enclosing.induct)
  case (1 folder)
  show ?case
  proof (cases "folder = [] \<or> c = folder")
    case True
    then show ?thesis using 1(2,3) by (auto simp: enclosing.simps [of "[]"])
  next
    case False
    let ?up = "folder_prefix (butlast folder)"
    have c: "c \<in> set (enclosing ?up)" using 1(2) False by (simp add: enclosing.simps [of folder])
    then have "?up \<noteq> []" by (auto simp: enclosing.simps [of "[]"])
    then have "?up \<in> set (folders_of (butlast folder))" using folder_prefix_cases by blast
    moreover have "prefix (butlast folder) s"
      using 1(3) prefixeq_butlast by (metis folders_iff prefix_order.trans)
    ultimately show ?thesis using 1(1) [OF _ c] False folders_trans by blast
  qed
qed

lemma find_member: "find p xs = Some x \<Longrightarrow> x \<in> set xs \<and> p x"
  by (auto simp: find_Some_iff)

lemma sibling_among: "c \<in> set (sibling depth rows) \<Longrightarrow> c \<in> row_id ` set rows"
  by (cases "find (\<lambda>r. row_depth r = depth) (takeWhile (\<lambda>r. row_depth r \<ge> depth) rows)")
    (auto simp: sibling_def dest!: find_member set_takeWhileD)

text \<open>After deleting a key: the candidates are other rows or the folders the key was in.\<close>

lemma delete_landing_other:
  assumes "distinct (map row_id rows)" and "selected < length rows" and "last (row_id (rows ! selected)) \<noteq> SLASH"
    and "c \<in> set (delete_landing rows selected)"
  shows "c \<noteq> row_id (rows ! selected) \<and> (c \<in> row_id ` set rows \<or> c \<in> set (folders_of (row_id (rows ! selected))))"
proof -
  let ?id = "row_id (rows ! selected)"
  have split: "rows = take selected rows @ rows ! selected # drop (selected + 1) rows"
    using assms(2) by (simp add: id_take_nth_drop)
  then have others: "x \<noteq> ?id \<and> x \<in> row_id ` set rows"
    if "x \<in> row_id ` (set (take selected rows) \<union> set (drop (selected + 1) rows))" for x
  proof -
    have "distinct (map row_id (take selected rows) @ ?id # map row_id (drop (selected + 1) rows))"
      using assms(1) split by (metis list.simps(9) map_append)
    then have "?id \<notin> row_id ` (set (take selected rows) \<union> set (drop (selected + 1) rows))" by auto
    moreover have "set (take selected rows) \<union> set (drop (selected + 1) rows) \<subseteq> set rows"
      by (auto dest: in_set_takeD in_set_dropD)
    ultimately show ?thesis using that by blast
  qed
  have "c \<in> row_id ` (set (take selected rows) \<union> set (drop (selected + 1) rows)) \<or>
      c \<in> set (enclosing (folder_prefix ?id))"
    using assms(4) sibling_among [of c "row_depth (rows ! selected)" "drop (selected + 1) rows"]
      sibling_among [of c "row_depth (rows ! selected)" "rev (take selected rows)"]
    by (cases "find (\<lambda>r. \<not> has_prefix ?id (row_id r)) (rev (take selected rows))")
      (auto simp: delete_landing_def Let_def dest!: find_member)
  then show ?thesis
  proof
    assume e: "c \<in> set (enclosing (folder_prefix ?id))"
    then have "folder_prefix ?id \<noteq> []" by (auto simp: enclosing.simps [of "[]"])
    then have "c \<in> set (folders_of ?id)" using enclosing_folders [OF e] folder_prefix_cases [of ?id] by blast
    moreover have "c \<noteq> ?id" using calculation assms(3) folders_iff by (metis last_snoc)
    ultimately show ?thesis by blast
  qed (use others in blast)
qed

end
