(* ===== verification/TuiInv.thy ===== *)
theory TuiInv
  imports TuiEvents TuiRows RequestEffects
begin

text \<open>
  What the UI keeps true, operation by operation: the selection is a row, the form's buffers are
  empty outside the form, a key is only held back in a form; a value is shown only after it was
  fetched; the secrets change only where a form is saved or a delete is carried out.
\<close>

section \<open>The invariant\<close>

definition in_form :: "tui_mode \<Rightarrow> bool" where
  "in_form m \<longleftrightarrow> m = Add \<or> m = Edit \<or> m = ConfirmOverwrite"

definition labels_ok :: "string list \<Rightarrow> bool" where
  "labels_ok labels \<longleftrightarrow> (\<forall>l \<in> set labels. \<not> has_control_char l)"

definition sel_ok :: "ui \<Rightarrow> bool" where
  "sel_ok u \<longleftrightarrow>
     (ui_rows u \<noteq> [] \<longrightarrow> ui_selected u < length (ui_rows u)) \<and>
     length (ui_labels u) = length (ui_rows u) \<and> labels_ok (ui_labels u)"

definition buffers_ok :: "ui \<Rightarrow> bool" where
  "buffers_ok u \<longleftrightarrow>
     (\<not> in_form (ui_mode u) \<longrightarrow> ui_add_name u = [] \<and> ui_add_value u = []) \<and>
     (ui_active_tab u = 0 \<longleftrightarrow> \<not> in_form (ui_mode u))"

definition held_ok :: "ui \<Rightarrow> bool" where
  "held_ok u \<longleftrightarrow> (ui_held_since u \<noteq> None \<longrightarrow> ui_mode u = Add \<or> ui_mode u = Edit)"

text \<open>The question whether to overwrite is only asked about a form that could be saved.\<close>

definition confirm_ok :: "ui \<Rightarrow> bool" where
  "confirm_ok u \<longleftrightarrow>
     (ui_mode u = ConfirmOverwrite \<longrightarrow> key_name_error (trim_key_name (ui_add_name u)) = None \<and> ui_add_value u \<noteq> [])"

text \<open>Nothing is shown beside a form.\<close>

definition masked_ok :: "ui \<Rightarrow> bool" where
  "masked_ok u \<longleftrightarrow> (in_form (ui_mode u) \<longrightarrow> ui_revealed u = None)"

definition ui_ok :: "ui \<Rightarrow> bool" where
  "ui_ok u \<longleftrightarrow> sel_ok u \<and> buffers_ok u \<and> held_ok u \<and> confirm_ok u \<and> masked_ok u"

lemmas ui_ok_simps = ui_ok_def sel_ok_def buffers_ok_def held_ok_def confirm_ok_def masked_ok_def in_form_def

text \<open>A value shown after a step was shown before it, for the same row.\<close>

definition hides :: "ui \<Rightarrow> ui \<Rightarrow> bool" where
  "hides u u' \<longleftrightarrow> (\<forall>v. ui_revealed u' = Some v \<longrightarrow> ui_revealed u = Some v \<and> ui_selection_id u' = ui_selection_id u)"

lemma hides_refl [simp]: "hides u u"
  by (simp add: hides_def)

lemma hides_trans: "hides u u' \<Longrightarrow> hides u' u'' \<Longrightarrow> hides u u''"
  by (simp add: hides_def)

text \<open>Parts of the state an operation leaves alone.\<close>

definition same_form :: "ui \<Rightarrow> ui \<Rightarrow> bool" where
  "same_form u u' \<longleftrightarrow>
     ui_mode u' = ui_mode u \<and> ui_active_tab u' = ui_active_tab u \<and> ui_add_name u' = ui_add_name u \<and>
     ui_add_value u' = ui_add_value u \<and> ui_held_since u' = ui_held_since u \<and> ui_form_field u' = ui_form_field u \<and>
     ui_pasting u' = ui_pasting u \<and> ui_paste u' = ui_paste u \<and> ui_held_is_tab u' = ui_held_is_tab u \<and>
     ui_exited u' = ui_exited u"

lemma same_form_refl [simp]: "same_form u u"
  by (simp add: same_form_def)

lemma same_form_trans: "same_form u u' \<Longrightarrow> same_form u' u'' \<Longrightarrow> same_form u u''"
  by (simp add: same_form_def)

lemma same_form_ok: "same_form u u' \<Longrightarrow> ui_ok u \<Longrightarrow> sel_ok u' \<Longrightarrow> hides u u' \<Longrightarrow> ui_ok u'"
proof -
  assume a: "same_form u u'" "ui_ok u" "sel_ok u'" "hides u u'"
  have "masked_ok u'"
    using a(1,2,4) by (cases "ui_revealed u'") (auto simp: same_form_def ui_ok_def masked_ok_def hides_def)
  then show ?thesis
    using a by (simp add: same_form_def ui_ok_def buffers_ok_def held_ok_def confirm_ok_def)
qed

text \<open>\<open>mild u u'\<close>: nothing of the form changed, nothing was shown, the selection is still a row.\<close>

definition mild :: "ui \<Rightarrow> ui \<Rightarrow> bool" where
  "mild u u' \<longleftrightarrow> same_form u u' \<and> hides u u' \<and> (sel_ok u \<longrightarrow> sel_ok u')"

lemma mild_refl [simp]: "mild u u"
  by (simp add: mild_def)

lemma mild_trans: "mild u u' \<Longrightarrow> mild u' u'' \<Longrightarrow> mild u u''"
  unfolding mild_def using same_form_trans hides_trans by blast

lemma mild_ok: "mild u u' \<Longrightarrow> ui_ok u \<Longrightarrow> ui_ok u'"
  unfolding mild_def using same_form_ok by (auto simp: ui_ok_def)

lemmas mild_simps = mild_def same_form_def hides_def sel_ok_def

section \<open>Operations without the daemon\<close>

lemma mild_say: "mild u (say V message u)"
  by (simp add: mild_simps say_def now_def)

lemma mild_complain: "mild u (complain message u)"
  by (simp add: mild_simps complain_def)

lemma mild_remask: "mild u (remask u)"
  by (simp add: mild_simps remask_def)

lemma mild_now: "now V u = (t, u') \<Longrightarrow> mild u u'"
  by (auto simp: mild_simps now_def)

lemma need_key_cases:
  "need_key V action u = (k, u') \<Longrightarrow> mild u u' \<and> k = current_key u \<and> (k \<noteq> None \<longrightarrow> u' = u)"
  using mild_say by (auto simp: need_key_def split: option.splits)

lemma mild_sync: "mild u (sync_selection u)"
  by (simp add: mild_simps sync_selection_def remask_def)

lemma find_index_less: "find_index p xs = Some i \<Longrightarrow> i < length xs \<and> p (xs ! i)"
  by (induction xs arbitrary: i) (auto split: if_splits)

lemma mild_select_row: "select_row rid u = (found, u') \<Longrightarrow> mild u u'"
  by (auto simp: mild_simps select_row_def split: option.splits dest: find_index_less)

lemma mild_expand_to: "mild u (expand_to rid u)"
  by (simp add: mild_simps expand_to_def)

lemma build_rows_labels:
  assumes "build_rows keys flt collapsed = (rows, labels)"
  shows "length labels = length rows \<and> labels_ok labels"
proof -
  note ok = build_rows_ok [OF assms]
  then have "set labels = snd ` set (zip rows labels)" by (metis map_snd_zip set_map)
  then show ?thesis using ok by (auto simp: labels_ok_def row_ok_def Let_def)
qed

lemma rebuild_rows_ok: "rebuild_rows rid u = (found, u') \<Longrightarrow> mild u u' \<and> sel_ok u'"
  by (auto simp: mild_simps rebuild_rows_def Let_def select_row_def dest!: find_index_less build_rows_labels
      split: prod.splits option.splits if_splits)

lemma mild_rebuild: "mild u (snd (rebuild_rows rid u))" "sel_ok (snd (rebuild_rows rid u))"
  using rebuild_rows_ok by (metis prod.collapse)+

lemma mild_update [simp]:
  "mild u (u\<lparr>ui_collapsed := c\<rparr>)" "mild u (u\<lparr>ui_filter := f\<rparr>)" "mild u (u\<lparr>ui_keys := ks\<rparr>)" "mild u (u\<lparr>ui_daemon := x\<rparr>)"
  "mild u (u\<lparr>ui_status := s\<rparr>)" "mild u (u\<lparr>ui_detail_scroll := i\<rparr>)" "mild u (u\<lparr>ui_help_scroll := i\<rparr>)"
  "mild u (u\<lparr>ui_ignore_until := t\<rparr>)" "mild u (u\<lparr>ui_show_problem := b\<rparr>)" "mild u (u\<lparr>ui_value_masked := b\<rparr>)"
  "mild u (u\<lparr>ui_name_cursor := i\<rparr>)" "mild u (u\<lparr>ui_value_cursor := i\<rparr>)"
  by (simp_all add: mild_simps)

lemma mild_after: "mild u (f u) \<Longrightarrow> (\<And>u. mild u (g u)) \<Longrightarrow> mild u (g (f u))"
  using mild_trans by blast

lemma mild_fold_row: "mild u (fold_row V opened u)"
  unfolding fold_row_def Let_def
  by (auto intro: mild_say mild_trans [OF mild_update(1) mild_rebuild(1)])

lemma find_member_rows: "find p xs = Some i \<Longrightarrow> i \<in> set xs \<and> p i"
  by (auto simp: find_Some_iff)

lemma mild_go_parent: "mild u (go_parent u)"
  by (auto simp: go_parent_def Let_def mild_simps dest!: find_member_rows split: option.splits)

lemma mild_apply_filter: "mild u (apply_filter u)"
proof -
  obtain found u1 where r: "rebuild_rows (selected_id u) u = (found, u1)" by (cases "rebuild_rows (selected_id u) u")
  have "mild u1 (u1\<lparr>ui_selected := i\<rparr>)" if "find_index (\<lambda>r. \<not> row_dir r) (ui_rows u1) = Some i" for i
    using find_index_less [OF that] by (auto simp: mild_simps)
  then show ?thesis
    using rebuild_rows_ok [OF r] r
    by (auto simp: apply_filter_def split: bool.splits option.splits intro: mild_trans)
qed

lemma mild_clear_filter: "mild u (clear_filter u)"
  by (auto simp: clear_filter_def Let_def intro: mild_trans [OF mild_trans [OF mild_update(2) mild_expand_to] mild_rebuild(1)])

lemma mild_expire: "mild u (expire V u)"
proof -
  obtain t u1 where n: "now V u = (t, u1)" by (cases "now V u")
  let ?u2 = "if ui_revealed u1 \<noteq> None \<and> t - ui_revealed_at u1 \<ge> kRevealFor
             then say V ''value re-masked after 60 s'' (remask u1) else u1"
  have "mild u ?u2"
    using mild_now [OF n] mild_trans [OF mild_remask mild_say] by (auto intro: mild_trans)
  then show ?thesis
    using mild_trans [OF _ mild_update(5)] by (auto simp: expire_def n Let_def)
qed

lemma mild_note_ignored: "mild u (note_ignored V u)"
  by (auto simp: note_ignored_def intro: mild_say)

lemma mild_go_left: "mild u (go_left V u)"
  by (simp add: go_left_def Let_def mild_fold_row mild_go_parent)

lemma mild_go_right: "mild u (go_right V u)"
  by (auto simp: go_right_def Let_def mild_fold_row) (auto simp: mild_simps)

lemma mild_select_first: "mild u (select_first rids u)"
proof (induction rids arbitrary: u)
  case (Cons i ids)
  then show ?case
    using mild_select_row mild_trans by (auto split: prod.splits bool.splits) blast+
qed simp

section \<open>Operations on the daemon\<close>

lemma call_runs:
  assumes "call m u d = (r, u', d')"
  shows "(\<exists>x. u' = u\<lparr>ui_daemon := x\<rparr>) \<and> (\<exists>r'. m d = (r', d') \<and> (\<forall>y. r = Inr y \<longrightarrow> r' = Inr y))"
  using assms
  by (auto simp: call_def Let_def split: prod.splits sum.splits client_error.splits if_splits)

lemma call_mild: "call m u d = (r, u', d') \<Longrightarrow> mild u u'"
  using call_runs by fastforce

text \<open>The UI's daemon is the modelled one.\<close>

definition tui_daemon :: "served tui_env \<Rightarrow> bool" where
  "tui_daemon V \<longleftrightarrow> libs_ok (te_libs V) \<and> te_peer V = daemon_peer (te_libs V) (te_uid V) (dc_token (te_client V))"

lemma fetch_value_runs:
  assumes "tui_daemon V" and "served_ok (te_libs V) d" and "fetch_value V key u d = (r, u', d')"
  shows "(\<exists>x. u' = u\<lparr>ui_daemon := x\<rparr>) \<and> unchanged (te_libs V) d d' \<and> (\<forall>v. r = Inr v \<longrightarrow> served_view d key = Some v)"
proof -
  let ?L = "te_libs V"
  let ?m = "get_many ?L (te_uid V) (te_peer V) (te_client V) [key]"
  have L: "libs_ok ?L" and P: "te_peer V = daemon_peer ?L (te_uid V) (dc_token (te_client V))"
    using assms(1) by (simp_all add: tui_daemon_def)
  obtain o1 u1 d1 where c: "call ?m u d = (o1, u1, d1)" by (cases "call ?m u d")
  note runs = call_runs [OF c]
  obtain r' where r': "?m d = (r', d1)" "\<forall>y. o1 = Inr y \<longrightarrow> r' = Inr y" using runs by blast
  have same: "u' = u1 \<and> d' = d1"
    using assms(3) c by (auto simp: fetch_value_def split: sum.splits list.splits option.splits)
  have un: "unchanged ?L d d1"
    using reads_only_get_many [OF L] r'(1) assms(2) unfolding P reads_only_def by blast
  have "served_view d key = Some v" if v: "r = Inr v" for v
  proof -
    obtain f where f: "o1 = Inr f" "map_of (f_values f) key = Some v"
      using assms(3) c v by (auto simp: fetch_value_def split: sum.splits list.splits option.splits)
    then have "?m d = (Inr f, d1)" using r' by simp
    from get_many_returns [OF L assms(2) this [unfolded P]] show ?thesis
      using f(2) by (auto simp: fetched_inv_def split: if_splits)
  qed
  then show ?thesis using runs same un by blast
qed

lemma list_runs:
  assumes "tui_daemon V" and "served_ok (te_libs V) d"
    and "call (local_request (te_libs V) (te_uid V) (te_peer V) (te_client V) ''list'' [] None) u d = (r, u', d')"
  shows "unchanged (te_libs V) d d'"
proof -
  have L: "libs_ok (te_libs V)" and P: "te_peer V = daemon_peer (te_libs V) (te_uid V) (dc_token (te_client V))"
    using assms(1) by (simp_all add: tui_daemon_def)
  show ?thesis
    using call_runs [OF assms(3)] reads_only_request [OF L, of "''list''"] assms(2) unfolding P reads_only_def by blast
qed

lemma listed_strings: "collectE (json_string L) (map JString ss) = Inr ss"
  by (induction ss) (simp_all add: json_string_def)

lemma call_returns: "call m u d = (Inr y, u', d') \<Longrightarrow> m d = (Inr y, d')"
  by (auto simp: call_def Let_def split: prod.splits sum.splits client_error.splits if_splits)

text \<open>The keys after a reload are those of the store.\<close>

lemma refresh_keys:
  assumes "tui_daemon V" and "served_ok (te_libs V) d" and "refresh V rid u d = (True, u', d')"
  shows "ui_keys u' = sorted_list_of_set (dom (served_view d)) \<and> finite (dom (served_view d))"
proof -
  let ?m = "local_request (te_libs V) (te_uid V) (te_peer V) (te_client V) ''list'' [] None"
  have L: "libs_ok (te_libs V)" and P: "te_peer V = daemon_peer (te_libs V) (te_uid V) (dc_token (te_client V))"
    using assms(1) by (simp_all add: tui_daemon_def)
  obtain r u1 d1 where c: "call ?m (remask u) d = (r, u1, d1)" by (cases "call ?m (remask u) d")
  obtain resp where r: "r = Inr resp" using assms(3) c by (cases r) (auto simp: refresh_def)
  have "resp = success [(''keys'', JArray (map JString (sorted_list_of_set (dom (served_view d)))))]"
    using local_request_returns [OF L assms(2) call_returns [OF c [unfolded r], unfolded P]]
    by (simp add: kv_spec_def wire_request_def)
  then have keys: "bindE r (listed_keys (te_libs V)) = Inr (sorted_list_of_set (dom (served_view d)))"
    by (simp add: r listed_keys_def success_object smap_find_put listed_strings)
  have fin: "finite (dom (served_view d))"
    using assms(2) kv.keys_are by (auto simp: served_ok_def served_view_def)
  have "ui_keys (snd (rebuild_rows rid w)) = ui_keys w" for w
    by (auto simp: rebuild_rows_def select_row_def Let_def split: prod.splits option.splits)
  moreover have "u' = snd (rebuild_rows rid (u1\<lparr>ui_keys := sort (sorted_list_of_set (dom (served_view d)))\<rparr>))"
    using assms(3) c keys by (simp add: refresh_def)
  ultimately show ?thesis using fin by (simp add: sorted_sort_id)
qed

lemma refresh_runs:
  assumes "tui_daemon V" and "served_ok (te_libs V) d" and "refresh V rid u d = (ok, u', d')"
  shows "mild u u' \<and> unchanged (te_libs V) d d' \<and> ui_revealed u' = None"
proof -
  let ?m = "local_request (te_libs V) (te_uid V) (te_peer V) (te_client V) ''list'' [] None"
  obtain r u1 d1 where c: "call ?m (remask u) d = (r, u1, d1)" by (cases "call ?m (remask u) d")
  have u1: "mild u u1" using mild_trans [OF mild_remask call_mild [OF c]] .
  have hidden: "ui_revealed u1 = None" using call_runs [OF c] by (auto simp: remask_def)
  have un: "unchanged (te_libs V) d d1" by (rule list_runs [OF assms(1,2) c])
  show ?thesis
  proof (cases "bindE r (listed_keys (te_libs V))")
    case (Inl e)
    then have "u' = complain (error_text e) u1" "d' = d1"
      using assms(3) c Inl by (simp_all add: refresh_def del: bindE_eq_Inl)
    then show ?thesis using mild_trans [OF u1 mild_complain] un hidden by (simp add: complain_def)
  next
    case (Inr keys)
    then have u': "u' = snd (rebuild_rows rid (u1\<lparr>ui_keys := sort keys\<rparr>))" "d' = d1"
      using assms(3) c Inr by (simp_all add: refresh_def del: bindE_eq_Inr)
    have m: "mild (u1\<lparr>ui_keys := sort keys\<rparr>) u'" unfolding u'(1) by (rule mild_rebuild(1))
    then have "ui_revealed u' = None" using hidden by (cases "ui_revealed u'") (auto simp: mild_def hides_def)
    then show ?thesis using mild_trans [OF mild_trans [OF u1 mild_update(3)] m] un u'(2) by simp
  qed
qed

lemma fail_runs:
  assumes "tui_daemon V" and "served_ok (te_libs V) d" and "fail V e key u d = (u', d')"
  shows "mild u u' \<and> unchanged (te_libs V) d d'"
proof -
  have self: "unchanged (te_libs V) d d" using assms(2) by (simp add: unchanged_def)
  consider (gone) ok u1 where "refresh V key u d = (ok, u1, d')" "u' = complain (quoted key @ '' was removed elsewhere; list reloaded'') u1"
    | (said) what where "u' = complain what u" "d' = d"
    using assms(3) by (auto simp: fail_def split: client_error.splits if_splits prod.splits)
  then show ?thesis
  proof cases
    case gone
    then show ?thesis using refresh_runs [OF assms(1,2) gone(1)] mild_trans [OF _ mild_complain] by blast
  next
    case said
    then show ?thesis using mild_complain self by simp
  qed
qed

lemma unchanged_trans: "unchanged L d d1 \<Longrightarrow> unchanged L d1 d2 \<Longrightarrow> unchanged L d d2"
  by (simp add: unchanged_def)

lemma unchanged_ok: "unchanged L d d' \<Longrightarrow> served_ok L d'"
  by (simp add: unchanged_def)

lemma reload_runs:
  assumes "tui_daemon V" and "served_ok (te_libs V) d" and "reload V u d = (u', d')"
  shows "mild u u' \<and> unchanged (te_libs V) d d'"
proof -
  obtain ok u1 d1 where r: "refresh V (selected_id u) u d = (ok, u1, d1)" by (cases "refresh V (selected_id u) u d")
  then have "u' = u1 \<or> (\<exists>m. u' = say V m u1)" "d' = d1" using assms(3) by (auto simp: reload_def split: bool.splits)
  then show ?thesis using refresh_runs [OF assms(1,2) r] mild_trans [OF _ mild_say] by auto
qed

text \<open>Copying shows nothing.\<close>

lemma copy_value_runs:
  assumes "tui_daemon V" and "served_ok (te_libs V) d" and "copy_value V u d = (u', d')"
  shows "mild u u' \<and> unchanged (te_libs V) d d'"
proof -
  obtain k u1 where n: "need_key V ''copy'' u = (k, u1)" by (cases "need_key V ''copy'' u")
  note need = need_key_cases [OF n]
  show ?thesis
  proof (cases k)
    case None
    then show ?thesis using assms(2,3) n need by (simp add: copy_value_def unchanged_def)
  next
    case (Some key)
    obtain r u2 d2 where f: "fetch_value V key u1 d = (r, u2, d2)" by (cases "fetch_value V key u1 d")
    note runs = fetch_value_runs [OF assms(1,2) f]
    then have m: "mild u u2" and ok: "served_ok (te_libs V) d2"
      using need mild_trans by (auto intro: unchanged_ok)
    have "(\<exists>e. fail V e key u2 d2 = (u', d')) \<or> (\<exists>w. u' = say V w u2 \<and> d' = d2)"
      using assms(3) n Some f by (auto simp: copy_value_def split: sum.splits option.splits)
    then show ?thesis
    proof
      assume "\<exists>e. fail V e key u2 d2 = (u', d')"
      then obtain e where "fail V e key u2 d2 = (u', d')" by blast
      from fail_runs [OF assms(1) ok this] show ?thesis using m runs mild_trans unchanged_trans by blast
    next
      assume "\<exists>w. u' = say V w u2 \<and> d' = d2"
      then show ?thesis using m runs mild_trans [OF _ mild_say] by auto
    qed
  qed
qed

section \<open>Showing a value\<close>

text \<open>
  What is shown after a step was shown before it for the same row, or is stored under that row's
  id, or the selection has moved on (and the next event or frame hides it).
\<close>

definition moved_on :: "ui \<Rightarrow> bool" where
  "moved_on u \<longleftrightarrow> selected_id u \<noteq> ui_selection_id u"

definition shown_from :: "ui \<Rightarrow> ui \<Rightarrow> served \<Rightarrow> bool" where
  "shown_from u u' d' \<longleftrightarrow>
     (\<forall>v. ui_revealed u' = Some v \<longrightarrow>
       ui_revealed u = Some v \<and> ui_selection_id u' = ui_selection_id u \<or> moved_on u' \<or>
       served_view d' (ui_selection_id u') = Some v)"

lemma hides_shown: "hides u u' \<Longrightarrow> shown_from u u' d'"
  by (simp add: hides_def shown_from_def)

lemma shown_after: "hides u u1 \<Longrightarrow> shown_from u1 u' d' \<Longrightarrow> shown_from u u' d'"
  by (simp add: hides_def shown_from_def) metis

lemma toggle_reveal_runs:
  assumes "tui_daemon V" and "served_ok (te_libs V) d" and "toggle_reveal V u d = (u', d')"
  shows "same_form u u' \<and> (sel_ok u \<longrightarrow> sel_ok u') \<and> shown_from u u' d' \<and> unchanged (te_libs V) d d'"
proof (cases "ui_revealed u")
  case (Some v)
  then show ?thesis
    using assms(2,3) mild_remask [of u] by (auto simp: toggle_reveal_def mild_def unchanged_def intro: hides_shown)
next
  case None
  then have r: "reveal V u d = (u', d')" using assms(3) by (simp add: toggle_reveal_def)
  obtain k u1 where n: "need_key V ''reveal'' u = (k, u1)" by (cases "need_key V ''reveal'' u")
  note need = need_key_cases [OF n]
  show ?thesis
  proof (cases k)
    case None
    then show ?thesis using assms(2) r n need by (auto simp: reveal_def unchanged_def mild_def intro: hides_shown)
  next
    case (Some key)
    then have u1: "u1 = u" and key: "key = selected_id u"
      using need by (auto simp: current_key_def selected_id_def split: if_splits)
    obtain o1 u2 d2 where f: "fetch_value V key (remask u) d = (o1, u2, d2)" by (cases "fetch_value V key (remask u) d")
    note runs = fetch_value_runs [OF assms(1,2) f]
    show ?thesis
    proof (cases o1)
      case (Inr v)
      then have "u' = u2\<lparr>ui_revealed := Some v, ui_ticks := Suc (ui_ticks u2), ui_revealed_at := te_clock V (ui_ticks u2),
          ui_keep_view := True\<rparr>" "d' = d2"
        using r n Some f u1 by (simp_all add: reveal_def now_def)
      then show ?thesis
        using runs Inr key
        by (auto simp: same_form_def sel_ok_def shown_from_def remask_def moved_on_def selected_id_def row_at_def unchanged_def)
    next
      case (Inl e)
      then have fl: "fail V e key (remask u2) d2 = (u', d')" using r n Some f u1 by (simp add: reveal_def)
      have "mild u (remask u2)"
        using runs mild_trans [OF mild_trans [OF mild_remask mild_update(4)] mild_remask] by auto
      then have "mild u u'" "unchanged (te_libs V) d d'"
        using fail_runs [OF assms(1) _ fl] runs unchanged_ok mild_trans unchanged_trans by blast+
      then show ?thesis by (simp add: mild_def hides_shown)
    qed
  qed
qed

end
