(* ===== verification/TuiDrawFacts.thy ===== *)
theory TuiDrawFacts
  imports TuiOverlay TuiInv
begin

text \<open>
  What a frame guarantees: no text handed to FTXUI holds a control character, the panes fill the
  terminal, what is cut and what never is.
\<close>

section \<open>Control characters\<close>

text \<open>A C1 control character across the seam of two texts.\<close>

definition seam :: "string \<Rightarrow> string \<Rightarrow> bool" where
  "seam s t \<longleftrightarrow> s \<noteq> [] \<and> t \<noteq> [] \<and> byte (last s) = 0xC2 \<and> 0x80 \<le> byte (hd t) \<and> byte (hd t) \<le> 0x9F"

lemma seam_simps [simp]:
  "\<not> seam [] t" "\<not> seam s []" "seam s (c # t) \<longleftrightarrow> s \<noteq> [] \<and> byte (last s) = 0xC2 \<and> 0x80 \<le> byte c \<and> byte c \<le> 0x9F"
  by (simp_all add: seam_def)

lemma seam_append [simp]: "t \<noteq> [] \<Longrightarrow> seam s (t @ t') \<longleftrightarrow> seam s t"
  by (simp add: seam_def)

lemma control_append [simp]: "has_control_char (s @ t) \<longleftrightarrow> has_control_char s \<or> has_control_char t \<or> seam s t"
proof (induction s)
  case (Cons c s)
  then show ?case by (cases s; cases t) auto
qed simp

lemma control_sub: "sublist t s \<Longrightarrow> has_control_char t \<Longrightarrow> has_control_char s"
  by (auto simp: sublist_def)

lemma control_take: "\<not> has_control_char s \<Longrightarrow> \<not> has_control_char (take n s)"
  and control_drop: "\<not> has_control_char s \<Longrightarrow> \<not> has_control_char (drop n s)"
  using control_sub by (meson sublist_take, meson sublist_drop)

lemma c1_other [simp]: "byte c \<noteq> 0xC2 \<Longrightarrow> \<not> is_c1_at (c # s)"
  by (cases s) auto

lemma control_blanks [simp]: "\<not> has_control_char (blanks n)" "\<not> seam s (blanks n)" "\<not> seam (blanks n) s"
proof -
  have "\<not> has_control_char (replicate k SPC)" for k
    by (induction k) (auto simp: is_c0_def byte_def)
  then show "\<not> has_control_char (blanks n)" by (simp add: blanks_def)
  show "\<not> seam s (blanks n)" "\<not> seam (blanks n) s"
    by (auto simp: seam_def blanks_def byte_def)
qed

lemma byte_SPC [simp]: "byte SPC = 32"
  by (simp add: byte_def)

lemma control_ellipsis [simp]: "\<not> has_control_char ellipsis" "\<not> seam s ellipsis" "ellipsis \<noteq> []" "\<not> seam ellipsis s"
  by (simp_all add: ellipsis_def seam_def is_c0_def byte_def)

lemma control_ellipsize: "\<not> has_control_char s \<Longrightarrow> \<not> has_control_char (ellipsize s width)"
  by (simp add: ellipsize_def control_take)

lemma control_ellipsize_middle: "\<not> has_control_char s \<Longrightarrow> \<not> has_control_char (ellipsize_middle s width)"
  by (simp add: ellipsize_middle_def control_take control_drop Let_def)

section \<open>Wrapping\<close>

lemma line_pieces_sub: "p \<in> set (line_pieces line width) \<Longrightarrow> sublist p line"
proof (induction line width rule: line_pieces.induct)
  case (1 line width)
  then show ?case
    by (subst (asm) (2) line_pieces.simps)
      (auto simp: Let_def split: if_splits intro: sublist_order.order_trans [OF _ sublist_drop])
qed

lemma wrap_lines_sub: "p \<in> set (wrap_lines s width) \<Longrightarrow> sublist p s"
proof (induction s width rule: wrap_lines.induct)
  case (1 s width)
  show ?case
  proof (cases "find_char LF s")
    case None
    then show ?thesis using 1(2) wrap_lines_None [OF None] by (auto intro: line_pieces_sub)
  next
    case (Some n)
    then show ?thesis
      using 1(1) [OF Some] 1(2) wrap_lines_Some [OF Some]
      by (auto dest: line_pieces_sub intro: sublist_order.order_trans [OF _ sublist_take] sublist_order.order_trans [OF _ sublist_drop])
  qed
qed

lemma control_wrap_lines: "\<not> has_control_char s \<Longrightarrow> p \<in> set (wrap_lines s width) \<Longrightarrow> \<not> has_control_char p"
  using wrap_lines_sub control_sub by blast

text \<open>A shown value keeps its newlines, at which it is wrapped.\<close>

fun control_but_LF :: "string \<Rightarrow> bool" where
  "control_but_LF [] \<longleftrightarrow> False"
| "control_but_LF (c # s) \<longleftrightarrow> is_c0 c \<and> c \<noteq> LF \<or> is_c1_at (c # s) \<or> control_but_LF s"

lemma but_LF_append: "control_but_LF (s @ t) \<longleftrightarrow> control_but_LF s \<or> control_but_LF t \<or> seam s t"
proof (induction s)
  case (Cons c s)
  then show ?case by (cases s; cases t) auto
qed simp

lemma but_LF_free: "LF \<notin> set s \<Longrightarrow> has_control_char s \<longleftrightarrow> control_but_LF s"
  by (induction s) auto

lemma printable_value_hd:
  "printable_value (b # t) \<noteq> [] \<and> (byte (hd (printable_value (b # t))) = 63 \<or> byte (hd (printable_value (b # t))) = 0xE2 \<or>
     hd (printable_value (b # t)) = b)"
  by (cases t) (auto simp: tab_glyph_def byte_def)

lemma printable_value_safe: "\<not> control_but_LF (printable_value s)"
proof (induction s rule: printable_value.induct)
  case (2 a s)
  consider "a = TAB" | "a \<noteq> TAB" "is_c1_at (a # s)" | "a \<noteq> TAB" "\<not> is_c1_at (a # s)" by blast
  then show ?case
  proof cases
    case 1
    then show ?thesis using 2(1) by (auto simp: but_LF_append tab_glyph_def seam_def is_c0_def byte_def)
  next
    case 2
    then show ?thesis using "2.IH"(2) by auto
  next
    case 3
    then have IH: "\<not> control_but_LF (printable_value s)" using "2.IH"(3) by simp
    have "\<not> is_c1_at (a # printable_value s)"
    proof (cases s)
      case (Cons b t)
      then show ?thesis using 3 printable_value_hd [of b t] by (cases "printable_value (b # t)") auto
    qed simp
    then show ?thesis using 3 IH by (auto simp: is_c0_def)
  qed
qed simp

lemma control_shown_value: "p \<in> set (wrap_lines (printable_value v) width) \<Longrightarrow> \<not> has_control_char p"
proof -
  assume p: "p \<in> set (wrap_lines (printable_value v) width)"
  then have "LF \<notin> set p" using wrap_lines_pieces by blast
  then show ?thesis
    using wrap_lines_sub [OF p] printable_value_safe [of v] by (auto simp: but_LF_free sublist_def but_LF_append)
qed

lemma place_word_safe:
  "place_word width word lines line = (lines', line') \<Longrightarrow> \<not> has_control_char word \<Longrightarrow> \<not> has_control_char line \<Longrightarrow>
   \<forall>l \<in> set lines. \<not> has_control_char l \<Longrightarrow> \<not> has_control_char line' \<and> (\<forall>l \<in> set lines'. \<not> has_control_char l)"
proof (induction width word lines line rule: place_word.induct)
  case (1 width word lines line)
  let ?needed = "text_columns line + (if line = [] then 0 else 1) + text_columns word"
  consider "word = []" | "word \<noteq> []" "?needed \<le> max width 1"
    | "word \<noteq> []" "\<not> ?needed \<le> max width 1" "line \<noteq> []" | "word \<noteq> []" "\<not> ?needed \<le> max width 1" "line = []"
    by blast
  then show ?case
  proof cases
    case 1
    then show ?thesis using "1.prems" by (simp add: place_word.simps [of width "[]"])
  next
    case 2
    then have "lines' = lines \<and> line' = (if line \<noteq> [] then line @ [SPC] else line) @ word"
      using "1.prems"(1) by (simp add: place_word.simps [of width word] Let_def)
    then show ?thesis using "1.prems"(2-4) by (auto simp: is_c0_def seam_def)
  next
    case 3
    then have p: "place_word width word (lines @ [line]) [] = (lines', line')"
      using "1.prems"(1) by (simp add: place_word.simps [of width word] Let_def)
    show ?thesis using "1.IH"(1) [OF 3(1) refl 3(2,3) p "1.prems"(2)] "1.prems"(3,4) by simp
  next
    case 4
    let ?piece = "prefix_bytes word (max width 1)"
    have p: "place_word width (drop ?piece word) (lines @ [take ?piece word]) line = (lines', line')"
      using "1.prems"(1) 4 by (simp add: place_word.simps [of width word] Let_def)
    show ?thesis
      using "1.IH"(2) [OF 4(1) refl 4(2) _ refl p] 4(3) "1.prems"(2-4) by (simp add: control_take control_drop)
  qed
qed

lemma wrap_words_safe:
  "wrap_words width s lines line = (lines', line') \<Longrightarrow> \<not> has_control_char s \<Longrightarrow> \<not> has_control_char line \<Longrightarrow>
   \<forall>l \<in> set lines. \<not> has_control_char l \<Longrightarrow> \<not> has_control_char line' \<and> (\<forall>l \<in> set lines'. \<not> has_control_char l)"
proof (induction width s lines line rule: wrap_words.induct)
  case (1 width s lines line)
  show ?case
  proof (cases "s = []")
    case True
    then show ?thesis using "1.prems" by (simp add: wrap_words.simps [of width "[]"])
  next
    case False
    let ?space = "or_else (find_char SPC s) (length s)"
    obtain ls l where pw: "place_word width (take ?space s) lines line = (ls, l)"
      by (cases "place_word width (take ?space s) lines line") auto
    have w: "wrap_words width (drop (?space + 1) s) ls l = (lines', line')"
      using "1.prems"(1) False pw by (simp add: wrap_words.simps [of width s] Let_def)
    have "\<not> has_control_char l" and "\<forall>l \<in> set ls. \<not> has_control_char l"
      using place_word_safe [OF pw control_take [OF "1.prems"(2)] "1.prems"(3,4)] by simp_all
    then show ?thesis using "1.IH" [OF False refl pw [symmetric] w control_drop [OF "1.prems"(2)]] by blast
  qed
qed

lemma control_word_wrap: "\<not> has_control_char s \<Longrightarrow> l \<in> set (word_wrap s width) \<Longrightarrow> \<not> has_control_char l"
proof -
  assume a: "\<not> has_control_char s" "l \<in> set (word_wrap s width)"
  obtain lines line where w: "wrap_words width s [] [] = (lines, line)" by (cases "wrap_words width s [] []")
  show ?thesis using wrap_words_safe [OF w] a w by (auto simp: word_wrap_def split: if_splits)
qed

lemma control_help_row_lines:
  assumes "\<not> has_control_char keys" and "\<not> has_control_char s" and "l \<in> set (help_row_lines keys s keys_width width)"
  shows "\<not> has_control_char l"
proof (cases "kMinTextColumns \<le> width - 2 - keys_width")
  case True
  define cell where "cell = ''  '' @ keys @ blanks (if keys = [] then keys_width else max (keys_width - text_columns keys) 1)"
  have "\<not> seam cell piece" for piece
  proof (cases "keys = [] \<and> blanks keys_width = []")
    case False
    then have "last cell = SPC" by (auto simp: cell_def blanks_def last_append)
    then show ?thesis by (simp add: seam_def)
  qed (auto simp: seam_def cell_def)
  moreover have "\<not> has_control_char cell" using assms(1) by (auto simp: cell_def is_c0_def)
  ultimately have with_cell: "\<not> has_control_char (cell @ piece)" if "piece \<in> set (word_wrap s (width - 2 - keys_width))" for piece
    using control_word_wrap [OF assms(2) that] unfolding control_append [of cell] by blast
  have indent: "\<not> has_control_char (blanks (2 + keys_width) @ piece)" if "piece \<in> set (word_wrap s (width - 2 - keys_width))" for piece
    using control_word_wrap [OF assms(2) that] by simp
  obtain piece pieces where w: "word_wrap s (width - 2 - keys_width) = piece # pieces"
    using word_wrap_keeps by (meson list.exhaust)
  have "help_row_lines keys s keys_width width =
      (cell @ piece) # map (\<lambda>piece. blanks (2 + keys_width) @ piece) pieces"
    using True by (simp add: help_row_lines_def w cell_def)
  then show ?thesis using assms(3) with_cell indent unfolding w by (auto simp del: control_append)
next
  case False
  have "\<not> has_control_char (ellipsize keys (width - 2))" using control_ellipsize [OF assms(1)] .
  then show ?thesis
    using assms False control_word_wrap [OF assms(2)] by (auto simp: help_row_lines_def Let_def is_c0_def split: if_splits)
qed

lemma decimal_digits: "decimal n \<noteq> [] \<and> (\<forall>c \<in> set (decimal n). 48 \<le> byte c \<and> byte c \<le> 57)"
proof (induction n rule: decimal.induct)
  case (1 n)
  then show ?case by (subst (1 2) decimal.simps) (auto simp: byte_def)
qed

lemma control_digits: "\<forall>c \<in> set s. 48 \<le> byte c \<and> byte c \<le> 57 \<Longrightarrow> \<not> has_control_char s"
  by (induction s) (auto simp: is_c0_def)

lemma control_decimal [simp]: "\<not> has_control_char (decimal n)" "\<not> seam s (decimal n)" "\<not> seam (decimal n) s" "decimal n \<noteq> []"
proof -
  show "\<not> has_control_char (decimal n)" using decimal_digits control_digits by blast
  show d: "decimal n \<noteq> []" using decimal_digits by blast
  show "\<not> seam s (decimal n)" "\<not> seam (decimal n) s"
    using decimal_digits [of n] hd_in_set [OF d] last_in_set [OF d] by (fastforce simp: seam_def)+
qed

section \<open>The parts of a frame\<close>

text \<open>What the marks of a project hold comes from \<open>printable\<close>, but for the reason of a refusal.\<close>

definition env_vars_ok :: "(string \<times> string list) list \<Rightarrow> bool" where
  "env_vars_ok m \<longleftrightarrow> (\<forall>k vs. map_of m k = Some vs \<longrightarrow> (\<forall>v \<in> set vs. \<not> has_control_char v))"

definition marks_ok :: "project_marks \<Rightarrow> bool" where
  "marks_ok marks \<longleftrightarrow> \<not> has_control_char (pm_project marks) \<and> env_vars_ok (pm_env_vars marks)"

lemma mark_entry_ok: "env_vars_ok marks \<Longrightarrow> env_vars_ok (mark_entry env entry marks)"
  by (cases "map_of marks (se_path entry)")
    (auto simp: env_vars_ok_def mark_entry_def smap_find_put printable_safe split: if_splits)

lemma load_marks_ok: "marks_ok (load_project_marks S Y relative cwd)"
proof -
  have entries: "env_vars_ok marks \<Longrightarrow> env_vars_ok (fold (mark_entry env) entries marks)" for env entries marks
    by (induction entries arbitrary: marks) (simp_all add: mark_entry_ok)
  have "env_vars_ok marks \<Longrightarrow> env_vars_ok (fold (\<lambda>(env, entries). fold (mark_entry env) entries) envs marks)" for envs marks
    by (induction envs arbitrary: marks) (auto simp: entries)
  moreover have "env_vars_ok []" by (simp add: env_vars_ok_def)
  ultimately have "env_vars_ok (mark_envs envs)" for envs by (simp add: mark_envs_def)
  then show ?thesis
    by (auto simp: load_project_marks_def marks_ok_def marks_problem_def no_marks_def Let_def printable_safe
        env_vars_ok_def [of "[]"] split: sum.splits option.splits)
qed

lemma fit_parts_same:
  "(\<forall>p \<in> set parts. P (sp_full p) \<and> P (sp_compact p)) \<Longrightarrow>
   \<forall>p \<in> set (fit_parts_from i budget parts). P (sp_full p) \<and> P (sp_compact p)"
proof (induction i budget parts rule: fit_parts_from.induct)
  case (2 i budget parts)
  have "\<forall>p \<in> set (parts[i := (parts ! i)\<lparr>sp_compacted := True\<rparr>]). P (sp_full p) \<and> P (sp_compact p)"
  proof (cases "i < length parts")
    case True
    then show ?thesis using "2.prems" nth_mem [OF True] by (auto dest!: subsetD [OF set_update_subset_insert])
  qed (use "2.prems" in \<open>simp add: list_update_beyond\<close>)
  then show ?case using 2 by simp
qed simp

lemma control_parts:
  assumes "\<not> has_control_char socket"
  shows "\<forall>p \<in> set (status_parts socket t u). \<not> has_control_char (sp_full p) \<and> \<not> has_control_char (sp_compact p)"
  using assms control_ellipsize [of "printable (ui_filter u)"]
    control_ellipsize [of "printable (ui_filter u) @ bar_cursor"]
  by (auto simp: status_parts_def new_part_def Let_def printable_safe is_c0_def byte_def bar_cursor_def
      split: daemon_state.splits)

lemma drawn_parts_in: "s \<in> set (drawn_parts parts) \<Longrightarrow> \<exists>p \<in> set parts. s = sp_full p \<or> s = sp_compact p"
  by (auto simp: drawn_parts_def part_shown_def)

lemma control_message_rows: "\<not> has_control_char s \<Longrightarrow> l \<in> set (message_rows s width) \<Longrightarrow> \<not> has_control_char l"
proof -
  assume s: "\<not> has_control_char s" and l: "l \<in> set (message_rows s width)"
  note all = control_word_wrap [OF s, of _ width]
  show ?thesis
  proof (cases "length (word_wrap s width) > 3")
    case True
    then have "\<not> has_control_char (ellipsize (word_wrap s width ! 2 @ ellipsis) width)"
      using all [of "word_wrap s width ! 2"] by (intro control_ellipsize) simp
    then show ?thesis using l True all by (auto simp: message_rows_def Let_def dest: in_set_takeD)
  qed (use l all in \<open>simp add: message_rows_def Let_def\<close>)
qed

lemma control_status:
  assumes "\<not> has_control_char socket" and "s \<in> set (sb_rows (status_bar_of socket t T u)) \<union> set (sb_last (status_bar_of socket t T u))"
  shows "\<not> has_control_char s"
proof -
  let ?ok = "\<lambda>ps. \<forall>p \<in> set ps. \<not> has_control_char (sp_full p) \<and> \<not> has_control_char (sp_compact p)"
  let ?message = "printable (ui_status u)"
  let ?parts = "fit_parts (ts_x T - (text_columns ?message + 2)) (status_parts socket t u)"
  have fit: "?ok ps \<Longrightarrow> ?ok (fit_parts b ps)" for b ps
    unfolding fit_parts_def by (rule fit_parts_same)
  have "?ok ?parts" using fit control_parts [OF assms(1)] by blast
  then have "?ok (fit_parts (ts_x T) (map (\<lambda>p. p\<lparr>sp_compacted := False\<rparr>) ?parts))"
    by (intro fit) auto
  moreover have "\<not> has_control_char ('' '' @ line)" if "line \<in> set (message_rows ?message (ts_x T - 2))" for line
    using control_message_rows [OF printable_safe that] by (simp add: is_c0_def)
  moreover have "\<not> has_control_char ('' '' @ ?message @ '' '')" by (simp add: printable_safe is_c0_def)
  ultimately show ?thesis
    using assms(2) \<open>?ok ?parts\<close> drawn_parts_in by (auto simp: status_bar_of_def Let_def split: if_splits) (blast)+
qed

lemma control_list_tags: "marks_ok marks \<Longrightarrow> s \<in> set (list_tags marks u) \<Longrightarrow> \<not> has_control_char s"
  by (auto simp: list_tags_def marks_ok_def diamond_def is_c0_def byte_def split: if_splits)

lemma control_row_line:
  assumes "\<not> has_control_char label"
  shows "\<not> has_control_char (row_line marks u width r label active)"
proof -
  have glyph: "\<exists>a b c. row_glyph marks u r = [a, b, SPC] \<or> row_glyph marks u r = [a, b, c, SPC]"
    by (auto simp: row_glyph_def diamond_def middle_dot_def folded_glyph_def unfolded_glyph_def)
  have "\<not> has_control_char (row_glyph marks u r)"
    by (auto simp: row_glyph_def diamond_def middle_dot_def folded_glyph_def unfolded_glyph_def is_c0_def byte_def)
  moreover have "\<not> seam (row_glyph marks u r) s" for s
    using glyph by (auto simp: seam_def)
  moreover have "\<not> has_control_char (row_indent w r active)" for w
    by (auto simp: row_indent_def is_c0_def byte_def)
  moreover have "\<not> seam (row_indent w r active) s" for w s
    by (auto simp: row_indent_def byte_def seam_def blanks_def)
  ultimately show ?thesis
    using control_ellipsize [OF assms] by (simp add: row_line_def Let_def)
qed

lemma control_list:
  assumes "sel_ok u" and "s \<in> set (list_body marks width u)"
  shows "\<not> has_control_char s"
  using assms
  by (auto simp: list_body_def sel_ok_def labels_ok_def is_c0_def byte_def intro!: control_row_line split: if_splits)

lemma wrapped_texts: "concat (map detail_text (wrapped s width)) = wrap_lines s width"
  by (simp add: wrapped_def comp_def)

definition detail_safe :: "detail_line list \<Rightarrow> bool" where
  "detail_safe lines \<longleftrightarrow> (\<forall>l \<in> set lines. \<forall>s \<in> set (detail_text l). \<not> has_control_char s)"

lemma detail_safe_simps [simp]:
  "detail_safe []" "detail_safe (l # ls) \<longleftrightarrow> (\<forall>s \<in> set (detail_text l). \<not> has_control_char s) \<and> detail_safe ls"
  "detail_safe (ls @ ms) \<longleftrightarrow> detail_safe ls \<and> detail_safe ms"
  by (auto simp: detail_safe_def)

lemma detail_safe_wrapped: "\<not> has_control_char s \<Longrightarrow> detail_safe (wrapped s width)"
  by (auto simp: detail_safe_def wrapped_def control_wrap_lines)

lemma detail_safe_concat: "\<forall>v \<in> set vs. \<not> has_control_char v \<Longrightarrow> detail_safe (concat (map (\<lambda>v. wrapped v width) vs))"
  by (induction vs) (auto simp: detail_safe_wrapped)

lemma control_key_lines:
  assumes "marks_ok marks"
  shows "detail_safe (key_lines marks width key)"
  using assms
  by (auto simp: key_lines_def marks_ok_def env_vars_ok_def detail_safe_wrapped detail_safe_concat printable_safe
      is_c0_def byte_def split: option.splits)

lemma control_detail:
  assumes "marks_ok marks"
  shows "detail_safe (fst (detail_lines marks width u))"
proof -
  have shown: "detail_safe (wrapped (printable_value v) width)" for v
    by (auto simp: detail_safe_def wrapped_def control_shown_value)
  have "\<not> has_control_char masked_value"
    by (simp add: masked_value_def bullet_def is_c0_def byte_def numeral_eq_Suc)
  then show ?thesis
    using control_key_lines [OF assms] shown
    by (auto simp: detail_lines_def Let_def detail_safe_wrapped printable_safe is_c0_def byte_def quoted_def split: option.splits)
qed

lemma control_scroll_tag: "\<not> has_control_char s \<Longrightarrow> s = [] \<or> hd s = SPC \<Longrightarrow> \<not> has_control_char (scroll_tag first stop count s)"
  by (cases s) (auto simp: scroll_tag_def is_c0_def byte_def)

lemma control_detail_pane:
  assumes "detail_safe lines" and "s \<in> set (pt_tags (detail_pane lines height scroll)) \<union>
    set (concat (map detail_text (pt_lines (detail_pane lines height scroll))))"
  shows "\<not> has_control_char s"
proof -
  have "\<not> has_control_char (scroll_tag scroll stop count '' J/K scroll'')" for stop count
    by (rule control_scroll_tag) (auto simp: is_c0_def byte_def)
  then show ?thesis
    using assms by (auto simp: detail_pane_def Let_def detail_safe_def dest!: in_set_takeD in_set_dropD split: if_splits)
qed

section \<open>Hints\<close>

text \<open>A hint ends in no blank, so that joining hints with two blanks and splitting gives the parts of each.\<close>

lemma gap_at_two: "gap_at s < length s \<Longrightarrow> gap_at s + 2 \<le> length s"
  by (induction s rule: gap_at.induct) auto

lemma gap_at_join: "s = [] \<or> last s \<noteq> SPC \<Longrightarrow> gap_at (s @ SPC # SPC # t) = gap_at s"
  by (induction s rule: gap_at.induct) auto

lemma hint_parts_join: "s = [] \<or> last s \<noteq> SPC \<Longrightarrow> hint_parts (s @ SPC # SPC # t) = hint_parts s @ ''  '' # hint_parts t"
proof (induction s rule: hint_parts.induct)
  case (1 s)
  note gap = gap_at_join [OF 1(2), of t] gap_at_le [of s]
  show ?case
  proof (cases "gap_at s < length s")
    case True
    then have "drop (gap_at s + 2) s = [] \<or> last (drop (gap_at s + 2) s) \<noteq> SPC"
      using 1(2) by (cases "gap_at s + 2 < length s") auto
    moreover have "gap_at s + 2 \<le> length s"
      using True by (rule gap_at_two)
    ultimately show ?thesis
      using 1(1) [OF True] True gap
      by (subst (1 2) hint_parts.simps) simp
  next
    case False
    then show ?thesis using gap by (subst (1 2) hint_parts.simps) simp
  qed
qed

definition good_hint :: "string \<Rightarrow> bool" where
  "good_hint s \<longleftrightarrow> s \<noteq> [] \<and> last s \<noteq> SPC \<and> list_all (\<lambda>p. \<not> has_control_char p) (hint_parts s)"

lemma join_hints_snoc: "join_hints (hs @ [h]) = join_hints hs @ (if join_hints hs = [] then [] else ''  '') @ h"
  by (simp add: join_hints_def)

lemma join_good_hints: "\<forall>h \<in> set hs. good_hint h \<Longrightarrow> join_hints hs = [] \<or> good_hint (join_hints hs)"
proof (induction hs rule: rev_induct)
  case (snoc h hs)
  then show ?case by (auto simp: join_hints_snoc good_hint_def hint_parts_join is_c0_def byte_def)
qed (simp add: join_hints_def)

lemma good_hints:
  "list_all good_hint
     [hint ''a'' ''add'', hint ''R'' ''retry'', hint ''R'' ''reload'', hint ''?'' ''help  q'' @ [TAB] @ ''quit'',
      hint ''j/k'' ''move'', hint ''Enter/r'' ''hide'', hint ''Enter/r'' ''reveal'', hint ''c'' ''copy'', hint ''J/K'' ''scroll'',
      hint ''Esc'' ''clear filter'', hint ''h/l'' ''fold'', hint ''/'' ''filter'', hint ''e'' ''edit'', hint ''d'' ''delete'',
      ''type to narrow'', hint arrows ''move'', hint ''Enter'' ''keep filter'', hint ''Esc'' ''clear'',
      hint ''j/k'' ''scroll  any other key closes help'', hint ''y'' ''yes  other keys no'', hint ''Enter'' ''next field'',
      hint ''Enter'' ''save'', hint ''Ctrl-R'' ''show value'', hint ''Ctrl-R'' ''hide value'', hint ''Tab'' ''switch field'',
      hint ''Ctrl-U/W'' ''erase'', hint ''Ctrl-A/E'' ''line start/end'', hint ''Esc'' ''cancel'']"
  by code_simp

lemma hint_if:
  "hint k (if c then x else y) = (if c then hint k x else hint k y)"
  "good_hint (if c then x else y) \<longleftrightarrow> (if c then good_hint x else good_hint y)"
  by simp_all

lemma good_hint_items: "list_all good_hint (hint_items overflows u)"
proof -
  note each = good_hints [unfolded list.pred_inject]
  show ?thesis
    by (cases "ui_mode u"; simp only: hint_items_def tui_mode.case list.pred_inject list_all_append each hint_if
        if_split simp_thms tui_mode.distinct)
qed

lemma fit_kept_subset: "set (fit_kept hints width) \<subseteq> set hints"
proof (cases "hints = []")
  case False
  then have "subseq (fit_kept hints width) hints" using fit_kept_keeps by blast
  then show ?thesis by (auto dest: list_emb_set)
qed (simp add: fit_kept.simps [of "[]"])

lemma control_hints: "s \<in> set (hints_of overflows T u) \<Longrightarrow> \<not> has_control_char s"
proof -
  let ?line = "fit_hints (hint_items overflows u) (ts_x T - 2)"
  assume s: "s \<in> set (hints_of overflows T u)"
  have "?line = [] \<or> good_hint ?line"
    unfolding fit_hints_def using good_hint_items [of overflows u] fit_kept_subset by (intro join_good_hints) (auto simp: list_all_iff)
  moreover have "hint_parts [] = [[]]" by (simp add: hint_parts.simps [of "[]"] drawn_hint_def)
  ultimately show ?thesis using s by (auto simp: hints_of_def good_hint_def list_all_iff)
qed

section \<open>Dialogs\<close>

lemma control_form_problem: "form_problem u = Some e \<Longrightarrow> \<not> has_control_char e"
  by (auto simp: form_problem_def key_name_error_def quoted_def is_c0_def byte_def split: if_splits option.splits)

lemma control_margin [simp]: "\<not> has_control_char margin" "\<not> seam margin s" "\<not> has_control_char name_label"
  by (simp_all add: margin_def name_label_def is_c0_def byte_def)

lemma control_form:
  assumes "s \<in> set (concat (map form_text (form_lines T below u)))"
  shows "\<not> has_control_char s"
proof -
  have name: "\<not> has_control_char p" if "p \<in> set (wrap_lines (printable k) w)" for p k w
    using control_wrap_lines [OF printable_safe that] .
  let ?pieces = "wrap_lines (printable (or_else (current_key u) [])) (max (form_width T - 9) 1)"
  have "\<not> has_control_char s" if s: "s \<in> set (concat (map form_text (form_head T u)))"
  proof (cases "ui_mode u = Add")
    case False
    then show ?thesis
      using s name [of _ "or_else (current_key u) []" "max (form_width T - 9) 1"]
      by (cases ?pieces) (auto simp: form_head_def split: if_splits)
  qed (use s in \<open>auto simp: form_head_def is_c0_def byte_def split: if_splits\<close>)
  moreover have "\<not> has_control_char (margin @ problem)" if "shown_problem u = Some problem" for problem
    using that by (auto simp: shown_problem_def dest: control_form_problem split: if_splits)
  ultimately show ?thesis
    using assms by (auto simp: form_lines_def is_c0_def byte_def split: option.splits)
qed

lemma control_question:
  assumes "s \<in> set (question_lines T below u)"
  shows "\<not> has_control_char s"
proof -
  let ?name = "question_name u"
  have name: "\<not> has_control_char ?name" by (simp add: question_name_def printable_safe)
  have ask: "\<not> has_control_char kAsk" "\<not> seam x kAsk" for x
    by (auto simp: kAsk_def is_c0_def byte_def)
  have verb: "\<not> has_control_char (question_verb u)" "\<not> seam (question_verb u) x" for x
    by (auto simp: question_verb_def is_c0_def byte_def seam_def)
  have "\<not> has_control_char (question_verb u @ n @ kAsk)" if "\<not> has_control_char n" for n
    using that ask verb by simp
  moreover obtain n w where "n = ?name \<or> (\<exists>k. n = ellipsize_middle ?name k)" and "s \<in> set (wrap_lines (question_verb u @ n @ kAsk) w)"
    using assms by (auto simp: question_lines_def Let_def simp del: control_append split: if_splits)
  ultimately show ?thesis
    using name control_ellipsize_middle [OF name] control_wrap_lines [of "question_verb u @ n @ kAsk"] by blast
qed

definition help_safe :: "help_text list \<Rightarrow> bool" where
  "help_safe rows \<longleftrightarrow> (\<forall>h \<in> set rows. \<not> has_control_char (ht_line h))"

lemma help_safe_append [simp]: "help_safe [] \<and> (help_safe (xs @ ys) \<longleftrightarrow> help_safe xs \<and> help_safe ys)"
  by (auto simp: help_safe_def)

lemma help_safe_row: "\<not> has_control_char keys \<Longrightarrow> \<not> has_control_char s \<Longrightarrow> help_safe (help_row width keys s)"
  using control_help_row_lines [of keys s _ "if keys = [] then 0 else kHelpKeysWidth" width]
  by (cases "help_row_lines keys s (if keys = [] then 0 else kHelpKeysWidth) width") (auto simp: help_row_def help_safe_def)

lemma help_safe_section: "\<not> has_control_char s \<Longrightarrow> help_safe (help_section s)"
  by (simp add: help_section_def help_safe_def)

lemma kHelp_safe: "list_all (\<lambda>(keys, s). \<not> has_control_char (or_else keys []) \<and> \<not> has_control_char s) kHelp"
  by code_simp

lemma help_safe_concat: "\<forall>x \<in> set xs. help_safe (f x) \<Longrightarrow> help_safe (concat (map f xs))"
  by (induction xs) auto

lemma control_help_text:
  assumes "marks_ok marks"
  shows "help_safe (help_text_of marks socket width)"
proof -
  have "help_safe (case keys of None \<Rightarrow> help_section s | Some keys \<Rightarrow> help_row width keys s)"
    if "(keys, s) \<in> set kHelp" for keys s
    using kHelp_safe that by (auto simp: list_all_iff intro!: help_safe_row help_safe_section split: option.splits)
  then have "help_safe (concat (map (\<lambda>(keys, s). case keys of None \<Rightarrow> help_section s | Some keys \<Rightarrow> help_row width keys s) kHelp))"
    by (intro help_safe_concat) auto
  moreover have "\<not> has_control_char (''marks keys used by project '' @ quoted (pm_project marks))" and "\<not> has_control_char diamond"
    using assms by (auto simp: marks_ok_def quoted_def diamond_def is_c0_def byte_def)
  ultimately show ?thesis
    by (auto simp: help_text_of_def printable_safe is_c0_def byte_def intro!: help_safe_row help_safe_section)
qed

lemma control_help:
  assumes "help_safe rows" and "s \<in> set (help_tags rows height scroll) \<union> set (concat (help_rows rows height scroll))"
  shows "\<not> has_control_char s"
proof -
  have "\<not> has_control_char (scroll_tag scroll stop count '' j/k'')" for stop count
    by (rule control_scroll_tag) (auto simp: is_c0_def byte_def)
  then show ?thesis
    using assms
    by (auto simp: help_tags_def help_rows_def help_row_texts_def help_safe_def Let_def is_c0_def byte_def
        dest!: in_set_takeD in_set_dropD dest: control_sub [OF sublist_take] control_sub [OF sublist_drop] split: if_splits)
qed

lemma control_overlay:
  assumes "marks_ok marks" and "overlay_of marks socket T below u = Some overlay" and "s \<in> set (overlay_texts overlay)"
  shows "\<not> has_control_char s"
proof -
  have title: "\<not> has_control_char (form_title u)" by (simp add: form_title_def is_c0_def byte_def)
  have tags: "\<not> has_control_char t" if "t \<in> set (form_tags T below u)" for t
    using that by (auto simp: form_tags_def Let_def is_c0_def byte_def split: if_splits)
  consider "overlay = FormOverlay (form_width T) (form_title u) (form_tags T below u) (form_lines T below u)"
    | "overlay = QuestionOverlay (question_lines T below u)"
    | rows height where "rows = help_text_of marks socket (help_width T)"
        "overlay = HelpOverlay (help_width T) (help_tags rows height (ui_help_scroll u)) (help_rows rows height (ui_help_scroll u))"
    using assms(2) by (auto simp: overlay_of_def Let_def split: if_splits)
  then show ?thesis
  proof cases
    case 1
    then show ?thesis using assms(3) title tags control_form [of s T below u] by auto
  next
    case 2
    then show ?thesis using assms(3) control_question by simp
  next
    case (3 rows height)
    then show ?thesis using assms(3) control_help [OF control_help_text [OF assms(1)], of s] by auto
  qed
qed

lemma drawn_safe:
  assumes "marks_ok marks" and "sel_ok u" and "\<not> has_control_char socket"
    and "s \<in> set (drawn_texts (fst (draw marks socket t T u)))"
  shows "\<not> has_control_char s"
proof -
  have ok: "sel_ok (sync_selection u)" using mild_sync assms(2) by (auto simp: mild_def)
  let ?f = "fst (draw marks socket t T u)"
  note parts = draw_def Let_def
  consider "s \<in> set (sb_rows (dr_status ?f)) \<union> set (sb_last (dr_status ?f))" | "s \<in> set (dr_list_tags ?f)" | "s \<in> set (dr_list ?f)"
    | "s \<in> set (pt_tags (dr_detail ?f)) \<union> set (concat (map detail_text (pt_lines (dr_detail ?f))))" | "s \<in> set (dr_hints ?f)"
    | overlay where "dr_overlay ?f = Some overlay" "s \<in> set (overlay_texts overlay)"
    using assms(4) unfolding drawn_texts_def by (cases "dr_overlay ?f") auto
  then show ?thesis
  proof cases
    case 1
    then show ?thesis using control_status [OF assms(3), of s] by (simp add: parts)
  next
    case 2
    then show ?thesis using control_list_tags [OF assms(1)] by (simp add: parts)
  next
    case 3
    then show ?thesis using control_list [OF ok] by (simp add: parts)
  next
    case 4
    then show ?thesis using control_detail_pane [OF control_detail [OF assms(1)], of s] by (simp add: parts)
  next
    case 5
    then show ?thesis using control_hints by (simp add: parts)
  next
    case (6 overlay)
    then show ?thesis using control_overlay [OF assms(1)] by (simp add: parts)
  qed
qed

end
