(* ===== verification/TuiFit.thy ===== *)
theory TuiFit
  imports TuiDrawFacts
begin

text \<open>
  How a frame fits the terminal: the rows a wrapped text takes, the question whose [y/N] stays
  visible, the panes and the status bar.
\<close>

section \<open>How many lines\<close>

lemma prefix_stop:
  "prefix_bytes_from columns width s < length s \<Longrightarrow> columns \<le> width \<Longrightarrow>
   starts_code_point (s ! prefix_bytes_from columns width s) \<and>
   text_columns (take (prefix_bytes_from columns width s) s) = width - columns"
proof (induction s arbitrary: columns)
  case (Cons c s)
  then show ?case
    by (cases "starts_code_point c"; cases "columns = width") (auto simp: columns_simps)
qed simp

lemma rest_columns:
  assumes "drop (prefix_bytes s width) s \<noteq> []" and "0 \<le> width"
  shows "text_columns s = width + text_columns (drop (prefix_bytes s width) s)"
    and "0 < text_columns (drop (prefix_bytes s width) s)"
proof -
  let ?n = "prefix_bytes s width"
  have n: "?n < length s" using assms(1) by simp
  have stop: "starts_code_point (s ! ?n)" "text_columns (take ?n s) = width"
    using prefix_stop [of 0 width s] n assms(2) by (simp_all add: prefix_bytes_def)
  show "text_columns s = width + text_columns (drop ?n s)"
    using text_columns_append [of "take ?n s" "drop ?n s"] stop(2) by simp
  have "text_columns (drop ?n s) = 1 + text_columns (drop (Suc ?n) s)"
    using Cons_nth_drop_Suc [OF n] stop(1) by (metis text_columns_Cons)
  then show "0 < text_columns (drop ?n s)"
    using text_columns_nonneg [of "drop (Suc ?n) s"] by linarith
qed

lemma line_pieces_count:
  "length (line_pieces line width) = 1 \<or>
   (int (length (line_pieces line width)) - 1) * max width 1 < text_columns line"
proof (induction line width rule: line_pieces.induct)
  case (1 line width)
  let ?rest = "drop (prefix_bytes line (max width 1)) line"
  show ?case
  proof (cases "?rest = []")
    case True
    then show ?thesis by (subst line_pieces.simps) (simp add: Let_def)
  next
    case False
    have n: "length (line_pieces line width) = Suc (length (line_pieces ?rest width))"
      using False by (subst line_pieces.simps) (simp add: Let_def)
    have c: "text_columns line = max width 1 + text_columns ?rest" "0 < text_columns ?rest"
      using rest_columns [OF False] by simp_all
    show ?thesis
      using 1 [OF refl False] c unfolding n by (auto simp: algebra_simps)
  qed
qed

lemma wrap_count:
  assumes "LF \<notin> set s" and "text_columns s \<le> rows * max width 1" and "1 \<le> rows"
  shows "int (length (wrap_lines s width)) \<le> rows"
proof -
  have w: "wrap_lines s width = line_pieces s width"
    using assms(1) by (intro wrap_lines_None) simp
  consider "length (line_pieces s width) = 1"
    | "(int (length (line_pieces s width)) - 1) * max width 1 < rows * max width 1"
    using line_pieces_count [of s width] assms(2) by linarith
  then show ?thesis
  proof cases
    case 2
    have "int (length (line_pieces s width)) - 1 < rows" by (rule mult_right_less_imp_less [OF 2]) simp
    then show ?thesis unfolding w by simp
  qed (use assms(3) w in simp)
qed

section \<open>The question\<close>

lemma LF_printable: "LF \<notin> set (printable s)"
proof -
  have "LF \<in> set t \<Longrightarrow> has_control_char t" for t
    by (induction t) (auto simp: is_c0_def byte_def)
  then show ?thesis using printable_safe by blast
qed

lemma LF_ellipsize_middle: "LF \<notin> set s \<Longrightarrow> LF \<notin> set (ellipsize_middle s width)"
  by (auto simp: ellipsize_middle_def Let_def ellipsis_def dest: in_set_takeD in_set_dropD)

lemma LF_question: "LF \<notin> set n \<Longrightarrow> LF \<notin> set (question_verb u @ n @ kAsk)"
  by (auto simp: question_verb_def kAsk_def)

text \<open>The question, whole or with a name cut in its middle, takes the rows there are.\<close>

lemma question_fits:
  assumes lines: "question_lines T below u = lines"
    and "width = question_width T (question_verb u @ question_name u @ kAsk)" and "rows = question_rows T below"
    and room: "text_columns (question_verb u) + text_columns kAsk \<le> rows * width"
  shows "\<exists>shown. concat lines = question_verb u @ shown @ kAsk \<and>
      (shown = question_name u \<or> shown = ellipsize_middle (question_name u) (text_columns shown) \<and>
         int (length (wrap_lines (question_verb u @ question_name u @ kAsk) width)) > rows) \<and>
      int (length lines) \<le> rows \<and> (\<forall>l \<in> set lines. text_columns l \<le> max width 1)"
proof -
  let ?name = "question_name u" and ?q = "\<lambda>n. question_verb u @ n @ kAsk"
  let ?fixed = "text_columns (question_verb u) + text_columns kAsk"
  let ?cut = "ellipsize_middle ?name (rows * width - ?fixed)"
  have LF: "LF \<notin> set ?name" by (simp add: question_name_def LF_printable)
  have whole: "concat (wrap_lines (?q n) width) = ?q n" if "LF \<notin> set n" for n
    by (subst wrap_lines_concat) (rule filter_LF_free [OF LF_question [OF that]])
  have piece: "\<forall>l \<in> set (wrap_lines s width). text_columns l \<le> max width 1" for s
    using wrap_lines_pieces by blast
  show ?thesis
  proof (cases "int (length (wrap_lines (?q ?name) width)) > rows")
    case False
    then have "lines = wrap_lines (?q ?name) width"
      using lines assms(2,3) by (simp add: question_lines_def Let_def)
    then show ?thesis using whole [OF LF] piece False by auto
  next
    case True
    then have l: "lines = wrap_lines (?q ?cut) width"
      using lines assms(2,3) by (simp add: question_lines_def Let_def)
    have rows: "1 \<le> rows" by (simp add: assms(3) question_rows_def)
    have grow: "rows * width \<le> rows * max width 1" by (rule mult_left_mono) (use rows in auto)
    have cols: "text_columns ?cut = (if text_columns ?name \<le> rows * width - ?fixed then text_columns ?name else rows * width - ?fixed)"
      using room by (simp add: ellipsize_middle_columns)
    have "\<not> text_columns ?name \<le> rows * width - ?fixed"
    proof
      assume "text_columns ?name \<le> rows * width - ?fixed"
      then have "text_columns (?q ?name) \<le> rows * max width 1"
        using grow by (simp add: columns_simps)
      then show False using wrap_count [OF LF_question [OF LF] _ rows, of u width] True by simp
    qed
    then have cut: "text_columns ?cut = rows * width - ?fixed" using cols by simp
    have "text_columns (?q ?cut) \<le> rows * max width 1"
      using cut grow by (simp add: columns_simps)
    then have "int (length lines) \<le> rows"
      unfolding l using wrap_count [OF LF_question [OF LF_ellipsize_middle [OF LF]] _ rows] by blast
    moreover have "?cut = ellipsize_middle ?name (text_columns ?cut)" by (simp only: cut)
    ultimately show ?thesis
      using whole [OF LF_ellipsize_middle [OF LF]] piece True unfolding l by blast
  qed
qed

section \<open>Panes\<close>

lemma clamp_between: "lo \<le> hi \<Longrightarrow> lo \<le> clamp v lo hi \<and> clamp v lo hi \<le> hi"
  by (simp add: clamp_def)

text \<open>The bounds \<open>std::clamp\<close> is given are in order.\<close>

lemma list_bounds: "\<not> stacked T \<Longrightarrow> 24 \<le> narrowest_list marks T u \<and> narrowest_list marks T u \<le> widest_list T"
  by (auto simp: stacked_def kStackedBelowColumns_def narrowest_list_def widest_list_def)

lemma layout_fills:
  assumes "layout_of marks T b u = l"
  shows "if stacked T
    then ly_list_width l = ts_x T \<and> ly_detail_width l = ts_x T \<and>
      ly_list_height l + ly_detail_height l = max (ts_y T - 1 - status_height b) 6 \<and> 3 \<le> ly_list_height l \<and> 3 \<le> ly_detail_height l
    else 24 \<le> ly_list_width l \<and> ly_list_width l \<le> widest_list T \<and> ly_list_width l + ly_detail_width l = ts_x T \<and>
      48 \<le> ly_detail_width l \<and>
      ly_list_height l = max (ts_y T - 1 - status_height b) 6 \<and> ly_detail_height l = ly_list_height l"
proof (cases "stacked T")
  case True
  then show ?thesis using assms by (auto simp: layout_of_def Let_def)
next
  case False
  have "24 \<le> ly_list_width l \<and> ly_list_width l \<le> widest_list T"
    using assms False list_bounds [OF False, of marks u] clamp_between [of "narrowest_list marks T u" "widest_list T" "longest_row u + 3"]
    by (auto simp: layout_of_def Let_def)
  moreover have "widest_list T + 48 \<le> ts_x T"
    using False by (simp add: widest_list_def stacked_def kStackedBelowColumns_def)
  moreover have "ly_detail_width l = ts_x T - ly_list_width l \<and> ly_list_height l = max (ts_y T - 1 - status_height b) 6 \<and>
      ly_detail_height l = ly_list_height l"
    using assms False by (auto simp: layout_of_def Let_def)
  ultimately show ?thesis using False by simp
qed

lemma blanks_columns [simp]: "text_columns (blanks n) = max n 0"
proof -
  have "text_columns (replicate k SPC) = int k" for k
    by (induction k) (simp_all add: columns_simps)
  then show ?thesis by (simp add: blanks_def)
qed

lemma row_line_fits:
  assumes "4 \<le> width"
  shows "text_columns (row_line marks u width r label active) \<le> width"
proof -
  have glyph: "text_columns (row_glyph marks u r) = 2"
    by (simp add: row_glyph_def diamond_def middle_dot_def folded_glyph_def unfolded_glyph_def text_columns_def
        starts_code_point_def byte_def)
  have "text_columns (row_indent width r active) = 2 + clamp (width - 4 - kMinLabelColumns) 0 (2 * int (row_depth r))"
    by (simp add: row_indent_def columns_simps clamp_def text_columns_def starts_code_point_def byte_def blanks_def)
  moreover have "2 + clamp (width - 4 - kMinLabelColumns) 0 (2 * int (row_depth r)) \<le> width - 2"
    using assms by (simp add: clamp_def kMinLabelColumns_def)
  ultimately show ?thesis
    using glyph by (simp add: row_line_def Let_def columns_simps ellipsize_columns)
qed

section \<open>The status bar\<close>

lemma parts_columns_nonneg: "0 \<le> parts_columns parts"
  by (auto simp: parts_columns_def intro!: sum_list_nonneg)

lemma message_rows_fit:
  "\<forall>l \<in> set (message_rows s width). text_columns l \<le> max width 1" "length (message_rows s width) \<le> 3"
  "message_rows s width \<noteq> []"
  using word_wrap_keeps [of s width]
  by (auto simp: message_rows_def Let_def ellipsize_columns dest: in_set_takeD)

text \<open>
  The parts of the last row are the same parts, in order, each whole, compact or dropped; and they
  are made compact from the last one on until they fit, or all are.
\<close>

definition same_parts :: "status_part list \<Rightarrow> status_part list \<Rightarrow> bool" where
  "same_parts ps qs \<longleftrightarrow> map (\<lambda>p. (sp_full p, sp_compact p)) ps = map (\<lambda>p. (sp_full p, sp_compact p)) qs"

lemma fit_parts_from_same: "same_parts (fit_parts_from i budget ps) ps"
proof (induction i budget ps rule: fit_parts_from.induct)
  case (2 i budget ps)
  have "map (\<lambda>p. (sp_full p, sp_compact p)) (ps[i := (ps ! i)\<lparr>sp_compacted := True\<rparr>]) =
      map (\<lambda>p. (sp_full p, sp_compact p)) ps"
    by (cases "i < length ps") (auto intro!: nth_equalityI simp: nth_list_update)
  then show ?case using 2 by (auto simp: same_parts_def)
qed (simp add: same_parts_def)

lemma fit_parts_from_fits:
  "\<forall>j. i \<le> j \<and> j < length ps \<longrightarrow> sp_compacted (ps ! j) \<Longrightarrow>
   parts_columns (fit_parts_from i budget ps) \<le> budget \<or> (\<forall>p \<in> set (fit_parts_from i budget ps). sp_compacted p)"
proof (induction i budget ps rule: fit_parts_from.induct)
  case (1 budget ps)
  then show ?case by (auto simp: in_set_conv_nth)
next
  case (2 i budget ps)
  show ?case
  proof (cases "parts_columns ps > budget")
    case True
    have "\<forall>j. i \<le> j \<and> j < length (ps[i := (ps ! i)\<lparr>sp_compacted := True\<rparr>]) \<longrightarrow>
        sp_compacted (ps[i := (ps ! i)\<lparr>sp_compacted := True\<rparr>] ! j)"
      using 2(2) by (auto simp: nth_list_update not_less_eq_eq)
    then show ?thesis using 2(1) [OF True] True by simp
  qed simp
qed

text \<open>All made compact they take few columns: the state of the daemon, the filter, the countdown.\<close>

definition compact_columns :: "int \<Rightarrow> ui \<Rightarrow> int" where
  "compact_columns t u = 28 + text_columns (decimal (countdown t u))"

definition compact_cost :: "status_part list \<Rightarrow> int" where
  "compact_cost ps = sum_list (map (\<lambda>p. if sp_compact p = [] then 0 else text_columns (sp_compact p) + 1) ps)"

lemma compact_cost_same: "same_parts ps qs \<Longrightarrow> compact_cost ps = compact_cost qs"
proof -
  have c: "compact_cost ps = sum_list (map (\<lambda>(f, c). if c = [] then 0 else text_columns c + 1)
      (map (\<lambda>p. (sp_full p, sp_compact p)) ps))" for ps
    unfolding compact_cost_def by (induction ps) auto
  show "same_parts ps qs \<Longrightarrow> ?thesis" unfolding c by (simp only: same_parts_def)
qed

lemma status_parts_cost: "compact_cost (status_parts socket t u) \<le> compact_columns t u"
proof -
  have cost: "compact_cost (as @ bs) = compact_cost as + compact_cost bs" "compact_cost [] = 0"
    "compact_cost [new_part full c] = (if c = [] then 0 else text_columns c + 1)" for as bs full c
    by (simp_all add: compact_cost_def new_part_def)
  have label: "text_columns '' stale '' = 7" "text_columns '' busy '' = 6" "text_columns '' /'' = 2"
    "text_columns '' '' = 1" "text_columns ''s '' = 2" by code_simp+
  have daemon: "compact_cost (case ui_daemon u of
        DaemonAway \<Rightarrow> [new_part '' daemon unreachable: list stale '' '' stale '']
      | DaemonBusy \<Rightarrow> [new_part '' daemon busy '' '' busy '']
      | DaemonOk \<Rightarrow> []) \<le> 8"
    using label by (cases "ui_daemon u") (simp_all add: cost)
  have "text_columns ('' /'' @ ellipsize s 12 @ '' '') \<le> 15" for s
    using label by (simp only: text_columns_append ellipsize_columns) auto
  then have filt: "compact_cost (if b then [new_part full ('' /'' @ ellipsize s 12 @ '' '')] else []) \<le> 16" for b full s
    unfolding cost(2,3) if_distrib [of compact_cost] by auto
  have dec: "0 \<le> text_columns (decimal (countdown t u))" by (rule text_columns_nonneg)
  have "text_columns ('' '' @ decimal (countdown t u) @ ''s '') = text_columns (decimal (countdown t u)) + 3"
    using label by (simp only: text_columns_append)
  then have shown: "compact_cost (if b then [new_part full ('' '' @ decimal (countdown t u) @ ''s '')] else [])
      \<le> text_columns (decimal (countdown t u)) + 4" for b full
    using dec unfolding cost(2,3) if_distrib [of compact_cost] by auto
  have rest: "compact_cost [new_part k [], new_part s []] = 0" for k s
    by (simp add: compact_cost_def new_part_def)
  show ?thesis
    unfolding status_parts_def Let_def cost(1) compact_columns_def rest
    using daemon filt shown by (smt (verit, best))
qed

lemma compact_parts_columns:
  assumes "same_parts ps (status_parts socket t u)" and "\<forall>p \<in> set ps. sp_compacted p"
  shows "parts_columns ps \<le> compact_columns t u"
proof -
  have "parts_columns ps = compact_cost ps"
    using assms(2) unfolding parts_columns_def compact_cost_def by (induction ps) (auto simp: part_shown_def)
  then show ?thesis using compact_cost_same [OF assms(1)] status_parts_cost by simp
qed

lemma fit_parts_fits:
  assumes "same_parts ps (status_parts socket t u)"
  shows "same_parts (fit_parts budget ps) (status_parts socket t u)"
    and "parts_columns (fit_parts budget ps) \<le> max budget (compact_columns t u)"
proof -
  show same: "same_parts (fit_parts budget ps) (status_parts socket t u)"
    using fit_parts_from_same [of "length ps" budget ps] assms by (simp add: same_parts_def fit_parts_def)
  show "parts_columns (fit_parts budget ps) \<le> max budget (compact_columns t u)"
  proof -
    have "parts_columns (fit_parts budget ps) \<le> budget \<or> (\<forall>p \<in> set (fit_parts budget ps). sp_compacted p)"
      unfolding fit_parts_def by (rule fit_parts_from_fits) auto
    then show ?thesis using compact_parts_columns [OF same] by (auto simp: le_max_iff_disj)
  qed
qed

text \<open>The message is whole beside the parts, or on rows of its own above them.\<close>

lemma status_fits:
  assumes "3 \<le> ts_x T" and "status_bar_of socket t T u = b"
  shows "\<exists>parts. same_parts parts (status_parts socket t u) \<and>
    (if sb_rows b = []
     then sb_last b = ('' '' @ printable (ui_status u) @ '' '') # drawn_parts parts \<and>
       text_columns (printable (ui_status u)) + 2 + parts_columns parts \<le> ts_x T
     else sb_last b = drawn_parts parts \<and> parts_columns parts \<le> max (ts_x T) (compact_columns t u) \<and>
       (\<forall>l \<in> set (sb_rows b). text_columns l \<le> ts_x T) \<and> length (sb_rows b) \<le> 3 \<and>
       (length (word_wrap (printable (ui_status u)) (ts_x T - 2)) > 3 \<or>
        solid (concat (sb_rows b)) = solid (printable (ui_status u))))"
proof -
  let ?message = "printable (ui_status u)"
  let ?parts = "fit_parts (ts_x T - (text_columns ?message + 2)) (status_parts socket t u)"
  let ?whole = "map (\<lambda>p. p\<lparr>sp_compacted := False\<rparr>) ?parts"
  have same: "same_parts ?parts (status_parts socket t u)" by (rule fit_parts_fits) (simp add: same_parts_def)
  then have whole: "same_parts ?whole (status_parts socket t u)" by (simp add: same_parts_def comp_def)
  show ?thesis
  proof (cases "text_columns ?message + 2 + parts_columns ?parts > ts_x T")
    case True
    then have rows: "sb_rows b = map (\<lambda>line. '' '' @ line) (message_rows ?message (ts_x T - 2))"
      and last: "sb_last b = drawn_parts (fit_parts (ts_x T) ?whole)"
      using assms(2) by (auto simp: status_bar_of_def Let_def)
    have blank: "solid (concat (map (\<lambda>line. '' '' @ line) ls)) = solid (concat ls)" for ls
      by (induction ls) auto
    have "solid (concat (sb_rows b)) = solid ?message" if "length (word_wrap ?message (ts_x T - 2)) \<le> 3"
      using that word_wrap_keeps [of ?message "ts_x T - 2"] unfolding rows blank by (simp add: message_rows_def Let_def)
    moreover have "\<forall>l \<in> set (sb_rows b). text_columns l \<le> ts_x T"
      using message_rows_fit(1) [of ?message "ts_x T - 2"] assms(1) unfolding rows by (fastforce simp: columns_simps)
    moreover have "sb_rows b \<noteq> []" "length (sb_rows b) \<le> 3"
      using message_rows_fit(2,3) [where s = ?message and width = "ts_x T - 2"] unfolding rows by simp_all
    ultimately show ?thesis
      using fit_parts_fits [OF whole, of "ts_x T"] last
      by (intro exI [of _ "fit_parts (ts_x T) ?whole"]) (cases "length (word_wrap ?message (ts_x T - 2)) \<le> 3"; simp)
  next
    case False
    then show ?thesis using assms(2) same by (auto simp: status_bar_of_def Let_def)
  qed
qed

section \<open>The detail pane\<close>

text \<open>The lines that are not wrapped: the labels and the two hints.\<close>

definition detail_label :: "project_marks \<Rightarrow> string \<Rightarrow> bool" where
  "detail_label marks s \<longleftrightarrow>
     s \<in> {''name:'', ''folder:'', ''value:'', masked_value, ''(Enter or r reveals, c copies)'',
           ''press '' @ quoted ''a'' @ '' to add a secret'', ''Esc clears the filter'',
           ''env var in '' @ pm_project marks @ [SQUOTE] @ ''s manifest:''} \<or>
     (\<exists>n. s = decimal n @ '' secret(s)'')"

definition detail_fits :: "project_marks \<Rightarrow> int \<Rightarrow> detail_line \<Rightarrow> bool" where
  "detail_fits marks width l \<longleftrightarrow>
     (case l of Rule \<Rightarrow> True | Line s \<Rightarrow> text_columns s \<le> max width 1 \<or> detail_label marks s)"

lemma wrapped_fits: "l \<in> set (wrapped s width) \<Longrightarrow> detail_fits marks width l"
  using wrap_lines_pieces [of _ s width] by (auto simp: wrapped_def detail_fits_def)

lemma detail_lines_fit: "l \<in> set (fst (detail_lines marks width u)) \<Longrightarrow> detail_fits marks width l"
proof -
  have label: "detail_label marks s \<Longrightarrow> detail_fits marks width (Line s)" "detail_fits marks width Rule" for s
    by (simp_all add: detail_fits_def)
  show "l \<in> set (fst (detail_lines marks width u)) \<Longrightarrow> detail_fits marks width l"
    using wrapped_fits
    by (auto simp: detail_lines_def key_lines_def Let_def split: if_splits option.splits
        intro!: label simp: detail_label_def)
qed

end
