(* ===== verification/TuiSafety.thy ===== *)
theory TuiSafety
  imports TuiInv
begin

text \<open>
  The safety of the UI, event by event: which events may change the secrets, and to what; that
  the invariant holds in every reachable state; that only fetched values are shown.
\<close>

section \<open>Saving and deleting\<close>

text \<open>What a save of the form may do to the secrets.\<close>

definition saves :: "libs \<Rightarrow> string \<Rightarrow> string \<Rightarrow> served \<Rightarrow> served \<Rightarrow> bool" where
  "saves L key v d d' \<longleftrightarrow>
     served_ok L d' \<and> (served_view d' = served_view d \<or> key \<noteq> [] \<and> served_view d' = (served_view d)(key \<mapsto> v))"

lemma saves_unchanged: "saves L key v d d1 \<Longrightarrow> unchanged L d1 d' \<Longrightarrow> saves L key v d d'"
  by (auto simp: saves_def unchanged_def)

lemma mild_out:
  "mild u u' \<Longrightarrow> ui_ok u \<Longrightarrow>
   ui_ok u' \<and> hides u u' \<and> ui_held_since u' = ui_held_since u \<and> ui_mode u' = ui_mode u \<and> same_form u u'"
  using mild_ok by (simp add: mild_def same_form_def)

lemma close_form_ok: "sel_ok u \<Longrightarrow> ui_held_since u = None \<Longrightarrow> ui_ok (close_form u)"
  by (simp add: close_form_def ui_ok_simps)

lemma hides_close: "hides u (close_form u)"
  by (simp add: close_form_def hides_def)

lemma save_form_runs:
  assumes V: "tui_daemon V" and d: "served_ok (te_libs V) d" and u: "ui_ok u" "ui_held_since u = None"
    and run: "save_form V key verb u d = (saved, u', d')"
  shows "ui_ok u' \<and> hides u u' \<and> ui_held_since u' = None \<and> saves (te_libs V) key (ui_add_value u) d d' \<and>
    (\<not> saved \<longrightarrow> same_form u u') \<and> (saved \<longrightarrow> ui_mode u' = Normal)"
proof -
  let ?L = "te_libs V"
  let ?m = "backend_set ?L (te_uid V) (te_peer V) (te_client V) key (ui_add_value u)"
  have L: "libs_ok ?L" and P: "te_peer V = daemon_peer ?L (te_uid V) (dc_token (te_client V))"
    using V by (simp_all add: tui_daemon_def)
  obtain r u1 d1 where c: "call ?m u d = (r, u1, d1)" by (cases "call ?m u d")
  have s: "saves ?L key (ui_add_value u) d d1"
    using call_runs [OF c] backend_set_effect [OF L d] unfolding P saves_def by blast
  have m: "mild u u1" by (rule call_mild [OF c])
  show ?thesis
  proof (cases r)
    case (Inl e)
    then obtain what where "u' = complain what u1" "d' = d1" "saved = False"
      using run c by (auto simp: save_form_def split: client_error.splits)
    moreover note mild_out [OF mild_trans [OF m mild_complain [of u1 what]] u(1)]
    ultimately show ?thesis using u s by simp
  next
    case (Inr y)
    let ?u2 = "expand_to key (say V (verb @ SPC # key) (close_form u1))"
    let ?u3 = "if \<not> contains_ignore_case key (ui_filter ?u2) then ?u2\<lparr>ui_filter := []\<rparr> else ?u2"
    obtain ok where r: "refresh V key ?u3 d1 = (ok, u', d')" and saved: "saved = True"
      using run c Inr by (auto simp: save_form_def Let_def split: prod.splits)
    have d1: "served_ok ?L d1" using s by (simp add: saves_def)
    note rr = refresh_runs [OF V d1 r]
    have m3: "mild (close_form u1) ?u3"
      by (simp add: mild_trans [OF mild_trans [OF mild_say mild_expand_to] mild_update(2)] mild_trans [OF mild_say mild_expand_to])
    then have mc: "mild (close_form u1) u'" using rr mild_trans by blast
    have "ui_ok (close_form u1)"
      using close_form_ok m u by (auto simp: mild_def same_form_def ui_ok_def)
    then have "ui_ok u'" using mild_ok [OF mc] by simp
    moreover have "hides u u'"
      using m mc hides_trans [OF hides_trans [OF _ hides_close]] by (auto simp: mild_def)
    moreover have "ui_mode u' = Normal" "ui_held_since u' = None"
      using mc m u by (auto simp: mild_def same_form_def close_form_def)
    ultimately show ?thesis using s rr saves_unchanged saved by blast
  qed
qed

text \<open>Where a form is saved: under which key, and when.\<close>

definition form_key :: "ui \<Rightarrow> string" where
  "form_key u = (if ui_mode u = Edit then or_else (current_key u) [] else trim_key_name (ui_add_name u))"

definition form_saved :: "libs \<Rightarrow> ui \<Rightarrow> served \<Rightarrow> served \<Rightarrow> bool" where
  "form_saved L u d d' \<longleftrightarrow>
     served_ok L d' \<and>
     (served_view d' = served_view d \<or>
      (ui_mode u = Add \<or> ui_mode u = Edit) \<and> ui_held_since u \<noteq> None \<and> \<not> ui_held_is_tab u \<and>
      form_problem u = None \<and> (ui_mode u = Add \<longrightarrow> served_view d (form_key u) = None) \<and>
      served_view d' = (served_view d)(form_key u \<mapsto> ui_add_value u))"

lemma submit_form_runs:
  assumes V: "tui_daemon V" and d: "served_ok (te_libs V) d" and u: "ui_ok u" "ui_held_since u = None"
    and mode: "ui_mode u = Add \<or> ui_mode u = Edit"
    and run: "submit_form V u d = (u', d')"
  shows "ui_ok u' \<and> hides u u' \<and> ui_held_since u' = None \<and> served_ok (te_libs V) d' \<and>
    (served_view d' = served_view d \<or>
     form_problem u = None \<and> (ui_mode u = Add \<longrightarrow> served_view d (form_key u) = None) \<and>
     served_view d' = (served_view d)(form_key u \<mapsto> ui_add_value u))"
proof (cases "form_problem u")
  case (Some p)
  then have "u' = complain p (u\<lparr>ui_show_problem := True\<rparr>)" "d' = d"
    using run by (simp_all add: submit_form_def)
  moreover note mild_out [OF mild_trans [OF mild_update(9) [of u True] mild_complain [of _ p]] u(1)]
  ultimately show ?thesis using u d by simp
next
  case none: None
  show ?thesis
  proof (cases "ui_mode u = Edit")
    case True
    then obtain saved where "save_form V (form_key u) ''updated'' u d = (saved, u', d')"
      using run none by (auto simp: submit_form_def form_key_def split: prod.splits)
    from save_form_runs [OF V d u this] show ?thesis using none True by (auto simp: saves_def)
  next
    case False
    then have add: "ui_mode u = Add" using mode by simp
    obtain ok u1 d1 where r: "refresh V (selected_id u) u d = (ok, u1, d1)" by (cases "refresh V (selected_id u) u d")
    note rr = refresh_runs [OF V d r]
    have d1: "served_ok (te_libs V) d1" and view: "served_view d1 = served_view d" using rr by (simp_all add: unchanged_def)
    have ok1: "ui_ok u1" using rr u mild_ok by blast
    have same: "ui_mode u1 = Add" "ui_add_name u1 = ui_add_name u" "ui_add_value u1 = ui_add_value u" "ui_held_since u1 = None"
      using rr add u by (auto simp: mild_def same_form_def)
    show ?thesis
    proof (cases "ok \<and> \<not> key_exists u1 (trim_key_name (ui_add_name u))")
      case False
      then have "d' = d1 \<and> (u' = u1 \<or> u' = say V (quoted (trim_key_name (ui_add_name u)) @ '' already exists'')
          (u1\<lparr>ui_mode := ConfirmOverwrite\<rparr>))"
        using run none add r by (auto simp: submit_form_def Let_def split: bool.splits if_splits)
      moreover have "ui_ok (say V w (u1\<lparr>ui_mode := ConfirmOverwrite\<rparr>))" for w
        using ok1 same none add
        by (intro mild_ok [OF mild_say]) (auto simp: ui_ok_simps
            form_problem_def split: option.splits if_splits)
      moreover have "hides u (say V w (u1\<lparr>ui_mode := ConfirmOverwrite\<rparr>))" for w
        using rr by (simp add: hides_def say_def now_def)
      ultimately show ?thesis
        using ok1 rr same view d1 by (auto simp: mild_def say_def now_def)
    next
      case True
      then obtain saved where s: "save_form V (form_key u) ''added'' u1 d1 = (saved, u', d')"
        using run none add r by (auto simp: submit_form_def form_key_def Let_def split: prod.splits)
      have "served_view d (form_key u) = None"
        using True refresh_keys [OF V d] r add
        by (auto simp: key_exists_def form_key_def dom_def)
      then show ?thesis
        using save_form_runs [OF V d1 ok1 same(4) s] rr same view none hides_trans by (auto simp: saves_def mild_def)
    qed
  qed
qed

lemma release_held_key_runs:
  assumes V: "tui_daemon V" and d: "served_ok (te_libs V) d" and u: "ui_ok u" "ui_held_since u \<noteq> None"
    and run: "release_held_key V u d = (u', d')"
  shows "ui_ok u' \<and> hides u u' \<and> ui_held_since u' = None \<and> form_saved (te_libs V) u d d'"
proof -
  let ?u = "u\<lparr>ui_held_since := None\<rparr>"
  have mode: "ui_mode u = Add \<or> ui_mode u = Edit" using u by (auto simp: ui_ok_def held_ok_def)
  have ok: "ui_ok ?u" using u by (simp add: ui_ok_simps)
  show ?thesis
  proof (cases "ui_held_is_tab u")
    case True
    then have "d' = d" "u' = (if ui_mode u = Add then ?u\<lparr>ui_form_field := 0\<rparr> else ?u)"
      using run by (auto simp: release_held_key_def Let_def)
    then show ?thesis
      using ok d by (auto simp: hides_def form_saved_def ui_ok_simps)
  next
    case False
    obtain u1 d1 where s: "submit_form V ?u d = (u1, d1)" by (cases "submit_form V ?u d")
    then have e: "u' = u1\<lparr>ui_ticks := Suc (ui_ticks u1), ui_ignore_until := te_clock V (ui_ticks u1) + kAfterSubmitQuiet\<rparr>" "d' = d1"
      using run False mode by (auto simp: release_held_key_def Let_def now_def)
    have "ui_held_since ?u = None" "ui_mode ?u = Add \<or> ui_mode ?u = Edit" using mode by simp_all
    note sub = submit_form_runs [OF V d ok this s]
    have same: "form_problem ?u = form_problem u" "form_key ?u = form_key u"
      by (simp_all add: form_problem_def form_key_def current_key_def row_at_def)
    have "ui_ok u'" using sub by (simp add: e ui_ok_simps)
    moreover have "hides u u'" using sub by (simp add: e hides_def)
    ultimately show ?thesis using sub same mode u(2) False by (auto simp: e form_saved_def)
  qed
qed

lemma do_delete_runs:
  assumes V: "tui_daemon V" and d: "served_ok (te_libs V) d" and u: "ui_ok u" "ui_mode u = ConfirmDelete"
    and run: "do_delete V u d = (u', d')"
  shows "ui_ok u' \<and> hides u u' \<and> served_ok (te_libs V) d' \<and>
    (served_view d' = served_view d \<or> (\<exists>k. current_key u = Some k \<and> served_view d' = (served_view d)(k := None)))"
proof -
  let ?L = "te_libs V" and ?u = "u\<lparr>ui_mode := Normal\<rparr>" and ?key = "or_else (current_key u) []"
  let ?m = "backend_remove ?L (te_uid V) (te_peer V) (te_client V) ?key"
  have L: "libs_ok ?L" and P: "te_peer V = daemon_peer ?L (te_uid V) (dc_token (te_client V))"
    using V by (simp_all add: tui_daemon_def)
  have key: "current_key ?u = current_key u" by (simp add: current_key_def row_at_def)
  obtain r u1 d1 where c: "call ?m ?u d = (r, u1, d1)" by (cases "call ?m ?u d")
  have eff: "served_ok ?L d1" "served_view d1 = served_view d \<or> ?key \<noteq> [] \<and> served_view d1 = (served_view d)(?key := None)"
    using call_runs [OF c] backend_remove_effect [OF L d] unfolding P by blast+
  have some: "\<exists>k. current_key u = Some k \<and> ?key = k" if "?key \<noteq> []"
    using that by (cases "current_key u") auto
  have ok: "ui_ok ?u" "hides u ?u"
    using u by (auto simp: ui_ok_simps hides_def)
  have "mild ?u u' \<and> unchanged ?L d1 d'"
  proof (cases r)
    case (Inl e)
    have "(\<exists>w. u' = complain w u1 \<and> d' = d1) \<or> (\<exists>e. fail V e ?key u1 d1 = (u', d'))"
      using run c Inl key by (auto simp: do_delete_def Let_def split: client_error.splits if_splits)
    then show ?thesis
    proof
      assume "\<exists>w. u' = complain w u1 \<and> d' = d1"
      then show ?thesis using mild_trans [OF call_mild [OF c] mild_complain] eff(1) by (auto simp: unchanged_def)
    next
      assume "\<exists>e. fail V e ?key u1 d1 = (u', d')"
      then show ?thesis using fail_runs [OF V eff(1)] mild_trans [OF call_mild [OF c]] by blast
    qed
  next
    case (Inr y)
    let ?u2 = "say V (''deleted '' @ ?key) u1"
    obtain ok2 u3 d3 where r3: "refresh V [] ?u2 d1 = (ok2, u3, d3)" by (cases "refresh V [] ?u2 d1")
    then have "d' = d3 \<and> (u' = u3 \<or> (\<exists>ids. u' = select_first ids u3))"
      using run c Inr key by (auto simp: do_delete_def Let_def split: bool.splits)
    then show ?thesis
      using refresh_runs [OF V eff(1) r3] mild_trans [OF mild_trans [OF call_mild [OF c] mild_say]] mild_select_first mild_trans
      by blast
  qed
  then show ?thesis
    using ok mild_out [of ?u u'] eff some hides_trans by (auto simp: unchanged_def)
qed

end
