(* ===== verification/TuiRuns.thy ===== *)
theory TuiRuns
  imports TuiSafety
begin

text \<open>
  The event handler and runs of the UI: the invariant in every state, the only events that
  change the secrets, and where a value on the screen comes from.
\<close>

section \<open>Events outside the daemon\<close>

text \<open>The FTXUI menu selects one of its rows.\<close>

definition menu_ok :: "'d tui_env \<Rightarrow> bool" where
  "menu_ok V \<longleftrightarrow> (\<forall>e n i. i < n \<longrightarrow> snd (te_menu V e n i) < n)"

text \<open>\<open>tame u u'\<close>: the invariant is kept and nothing is newly shown.\<close>

definition tame :: "ui \<Rightarrow> ui \<Rightarrow> bool" where
  "tame u u' \<longleftrightarrow> (ui_ok u \<longrightarrow> ui_ok u') \<and> hides u u'"

lemma tame_refl [simp]: "tame u u"
  by (simp add: tame_def)

lemma tame_trans: "tame u u' \<Longrightarrow> tame u' u'' \<Longrightarrow> tame u u''"
  using hides_trans by (auto simp: tame_def)

lemma mild_tame: "mild u u' \<Longrightarrow> tame u u'"
  using mild_ok by (auto simp: tame_def mild_def)

lemma tame_menu: "menu_ok V \<Longrightarrow> menu_event V e u = (handled, u') \<Longrightarrow> mild u u'"
  by (auto simp: menu_event_def mild_simps menu_ok_def split: prod.splits) (metis snd_conv)

lemma tame_plain [simp]:
  "tame u (u\<lparr>ui_pasting := b\<rparr>)" "tame u (u\<lparr>ui_paste := s\<rparr>)" "tame u (u\<lparr>ui_exited := b\<rparr>)" "tame u (u\<lparr>ui_keep_view := b\<rparr>)"
  "tame u (u\<lparr>ui_form_field := n\<rparr>)"
  by (simp_all add: tame_def hides_def ui_ok_simps)

text \<open>Between modes without a form.\<close>

lemma tame_mode: "\<not> in_form (ui_mode u) \<Longrightarrow> \<not> in_form m \<Longrightarrow> tame u (u\<lparr>ui_mode := m\<rparr>)"
  by (auto simp: tame_def hides_def ui_ok_simps)

text \<open>Inside a form whose fields change.\<close>

definition editing :: "ui \<Rightarrow> bool" where
  "editing u \<longleftrightarrow> ui_mode u = Add \<or> ui_mode u = Edit"

lemma tame_fields:
  "editing u \<Longrightarrow> tame u (u\<lparr>ui_add_name := s, ui_name_cursor := c\<rparr>)"
  "editing u \<Longrightarrow> tame u (u\<lparr>ui_add_value := s, ui_value_cursor := c\<rparr>)"
  by (auto simp: tame_def hides_def ui_ok_simps editing_def)

lemma tame_insert: "editing u \<Longrightarrow> tame u (insert_into_value s u)"
  by (simp add: insert_into_value_def insert_at_cursor_def Let_def tame_fields)

lemma tame_finish_paste: "tame u (finish_paste V u)"
proof -
  let ?v = "finish_paste V u"
  obtain w where w: "?v = w\<lparr>ui_paste := []\<rparr>" and t: "tame u w"
  proof (cases "ui_mode u = Filter")
    case True
    then show thesis
      using that mild_tame [OF mild_complain] mild_tame [OF mild_trans [OF mild_update(2) mild_apply_filter]]
      by (cases "has_control_char (ui_paste u)") (auto simp: finish_paste_def Let_def)
  next
    case nf: False
    show thesis
    proof (cases "editing u")
      case False
      then show thesis
        using that nf mild_tame [OF mild_say] by (auto simp: finish_paste_def Let_def editing_def)
    next
      case ed: True
      then have e: "\<not> (ui_mode u \<noteq> Add \<and> ui_mode u \<noteq> Edit)" by (auto simp: editing_def)
      show thesis
      proof (cases "ui_form_field u = 0")
        case True
        then show thesis
          using that nf e ed mild_tame [OF mild_complain] tame_fields
          by (cases "has_control_char (ui_paste u)") (auto simp: finish_paste_def Let_def insert_at_cursor_def)
      next
        case False
        let ?p = "if ui_paste u \<noteq> [] \<and> last (ui_paste u) = LF then butlast (ui_paste u) else ui_paste u"
        have "editing (u\<lparr>ui_paste := ?p\<rparr>)" using ed by (simp add: editing_def)
        then have "tame u (insert_into_value ?p (u\<lparr>ui_paste := ?p\<rparr>))"
          using tame_trans [OF tame_plain(2) tame_insert] by blast
        then have "tame u (say V msg (insert_into_value ?p (u\<lparr>ui_paste := ?p\<rparr>)))" for msg
          using tame_trans [OF _ mild_tame [OF mild_say]] by blast
        then show thesis
          using that nf e False by (simp add: finish_paste_def Let_def)
      qed
    qed
  qed
  show ?thesis unfolding w using tame_trans [OF t tame_plain(2)] .
qed

lemma tame_paste_event: "tame u (paste_event V e u)"
proof -
  have "tame u (finish_paste V (u\<lparr>ui_pasting := False\<rparr>))" by (rule tame_trans [OF tame_plain(1) tame_finish_paste])
  moreover have "tame u (say V m (u\<lparr>ui_pasting := False, ui_paste := []\<rparr>))" for m
    by (rule tame_trans [OF tame_trans [OF tame_plain(1) tame_plain(2)] mild_tame [OF mild_say]])
  ultimately show ?thesis by (cases e) (simp_all add: paste_event_def)
qed

lemma tame_help_event: "ui_mode u = Help \<Longrightarrow> tame u (help_event e u)"
  using mild_tame [OF mild_update(7)] tame_mode [of u Normal]
  by (simp add: help_event_def Let_def in_form_def)

lemma tame_filter_event:
  assumes "ui_mode u = Filter" and "filter_event V e u = (handled, u')"
  shows "tame u u'"
proof -
  have mode: "tame u (u\<lparr>ui_mode := Normal\<rparr>)" using assms(1) by (simp add: tame_mode in_form_def)
  have "ui_mode (clear_filter u) = Filter" using mild_clear_filter [of u] assms(1) by (simp add: mild_def same_form_def)
  then have "tame (clear_filter u) ((clear_filter u)\<lparr>ui_mode := Normal\<rparr>)" by (simp add: tame_mode in_form_def)
  then have "tame u ((clear_filter u)\<lparr>ui_mode := Normal\<rparr>)" using tame_trans [OF mild_tame [OF mild_clear_filter]] by blast
  moreover have "tame u (apply_filter (u\<lparr>ui_filter := f\<rparr>))" for f
    by (rule mild_tame [OF mild_trans [OF mild_update(2) mild_apply_filter]])
  moreover have timed: "tame u (u\<lparr>ui_mode := Normal, ui_ticks := n, ui_ignore_until := t\<rparr>)" for n t
  proof (rule tame_trans [OF mode mild_tame])
    show "mild (u\<lparr>ui_mode := Normal\<rparr>) (u\<lparr>ui_mode := Normal, ui_ticks := n, ui_ignore_until := t\<rparr>)"
      by (simp add: mild_simps)
  qed
  moreover have "u' = u \<or> u' = (clear_filter u)\<lparr>ui_mode := Normal\<rparr> \<or> (\<exists>f. u' = apply_filter (u\<lparr>ui_filter := f\<rparr>)) \<or>
      (\<exists>n t. u' = u\<lparr>ui_mode := Normal, ui_ticks := n, ui_ignore_until := t\<rparr>)"
    using assms(2) by (cases e) (auto simp: filter_event_def now_def)
  ultimately show ?thesis by (elim disjE exE) simp_all
qed

lemma tame_form_event:
  assumes "editing u" and "\<not> is_mouse e \<longrightarrow> ui_held_since u = None" and "form_event V e u = (handled, u')"
  shows "tame u u'"
proof -
  have hold: "tame u (hold_key V b u)" for b
    using assms(1) by (auto simp: hold_key_def now_def tame_def hides_def ui_ok_simps editing_def)
  have focus: "tame u (edit_in_focus f u)" for f
    using tame_fields [OF assms(1)] by (auto simp: edit_in_focus_def split: prod.splits)
  have cancel: "tame u (cancel_form V u)" if "ui_held_since u = None"
  proof -
    have "tame u (close_form u)" using that close_form_ok hides_close by (auto simp: tame_def ui_ok_def)
    then show ?thesis unfolding cancel_form_def using tame_trans [OF _ mild_tame [OF mild_say]] by blast
  qed
  have cursors: "edit_in_focus (\<lambda>s c. (s, f s c)) u = u\<lparr>ui_name_cursor := n\<rparr> \<Longrightarrow> tame u (u\<lparr>ui_name_cursor := n\<rparr>)" for f n
    using mild_tame [OF mild_update(11)] by simp
  show ?thesis
    using assms(2,3) hold focus cancel mild_tame [OF mild_update(10)]
    by (cases e) (auto simp: form_event_def is_mouse_def split: if_splits)
qed

section \<open>Events that reach the daemon\<close>

definition is_yes :: "ui_event \<Rightarrow> bool" where
  "is_yes e \<longleftrightarrow> e = Character ''y'' \<or> e = Character ''Y''"

text \<open>What an event may do to the secrets once no key is held back.\<close>

definition confirmed :: "libs \<Rightarrow> ui_event \<Rightarrow> ui \<Rightarrow> served \<Rightarrow> served \<Rightarrow> bool" where
  "confirmed L e u d d' \<longleftrightarrow>
     served_ok L d' \<and>
     (served_view d' = served_view d \<or>
      is_yes e \<and> ui_mode u = ConfirmDelete \<and> (\<exists>k. current_key u = Some k \<and> served_view d' = (served_view d)(k := None)) \<or>
      is_yes e \<and> ui_mode u = ConfirmOverwrite \<and> key_name_error (trim_key_name (ui_add_name u)) = None \<and> ui_add_value u \<noteq> [] \<and>
        served_view d' = (served_view d)(trim_key_name (ui_add_name u) \<mapsto> ui_add_value u))"

definition safe_step :: "libs \<Rightarrow> ui_event \<Rightarrow> ui \<Rightarrow> served \<Rightarrow> ui \<Rightarrow> served \<Rightarrow> bool" where
  "safe_step L e u d u' d' \<longleftrightarrow> ui_ok u' \<and> shown_from u u' d' \<and> confirmed L e u d d'"

lemma safe_unchanged:
  "ui_ok u' \<Longrightarrow> shown_from u u' d' \<Longrightarrow> unchanged L d d' \<Longrightarrow> safe_step L e u d u' d'"
  by (simp add: safe_step_def confirmed_def unchanged_def)

lemma safe_tame: "ui_ok u \<Longrightarrow> tame u u' \<Longrightarrow> unchanged L d d' \<Longrightarrow> safe_step L e u d u' d'"
  by (simp add: safe_unchanged tame_def hides_shown)

lemma safe_mild: "ui_ok u \<Longrightarrow> mild u u' \<and> unchanged L d d' \<Longrightarrow> safe_step L e u d u' d'"
  using safe_tame mild_tame by blast

lemma start_add_safe: "ui_ok u \<Longrightarrow> ui_mode u = Normal \<Longrightarrow> tame u (start_add V u)"
  by (auto simp: start_add_def Let_def say_def now_def close_form_def remask_def tame_def hides_def ui_ok_simps)

lemma edit_opens:
  "sel_ok w \<Longrightarrow> ui_held_since w = None \<Longrightarrow> ui_revealed w = None \<Longrightarrow>
   ui_ok (w\<lparr>ui_add_value := v, ui_value_cursor := c, ui_mode := Edit, ui_active_tab := 1, ui_form_field := 1\<rparr>)"
  by (simp add: ui_ok_simps)

lemma start_edit_runs:
  assumes V: "tui_daemon V" and d: "served_ok (te_libs V) d" and u: "ui_ok u" "ui_mode u = Normal"
    and run: "start_edit V u d = (u', d')"
  shows "tame u u' \<and> unchanged (te_libs V) d d'"
proof -
  obtain k u1 where n: "need_key V ''edit'' u = (k, u1)" by (cases "need_key V ''edit'' u")
  note need = need_key_cases [OF n]
  show ?thesis
  proof (cases k)
    case None
    then show ?thesis using run n need mild_tame d by (auto simp: start_edit_def unchanged_def)
  next
    case (Some key)
    let ?u1 = "close_form (remask u)"
    have "u1 = u" using need Some by auto
    obtain r u2 d2 where f: "fetch_value V key ?u1 d = (r, u2, d2)" by (cases "fetch_value V key ?u1 d")
    note runs = fetch_value_runs [OF V d f]
    have held: "ui_held_since u = None" using u by (auto simp: ui_ok_simps)
    have u1: "ui_ok ?u1" "hides u ?u1" "ui_revealed ?u1 = None" "ui_held_since ?u1 = None"
      using u held close_form_ok [of "remask u"] mild_remask [of u]
      by (auto simp: mild_def same_form_def ui_ok_def hides_def close_form_def remask_def)
    obtain x where u2: "u2 = ?u1\<lparr>ui_daemon := x\<rparr>" using runs by blast
    show ?thesis
    proof (cases r)
      case (Inl e)
      then have fl: "fail V e key (u2\<lparr>ui_add_value := []\<rparr>) d2 = (u', d')" using run n Some f \<open>u1 = u\<close> by (simp add: start_edit_def)
      have "tame u (u2\<lparr>ui_add_value := []\<rparr>)"
        using u1 unfolding u2 by (auto simp: tame_def hides_def ui_ok_simps close_form_def)
      then show ?thesis
        using fail_runs [OF V _ fl] runs unchanged_ok tame_trans [OF _ mild_tame] unchanged_trans by blast
    next
      case (Inr v)
      define w where "w = u2\<lparr>ui_add_value := v, ui_value_cursor := (if LF \<in> set v then 0 else int (length v)),
                  ui_mode := Edit, ui_active_tab := 1, ui_form_field := 1\<rparr>"
      have u': "u' = say V ''editing'' w" "d' = d2"
        using run n Some f Inr \<open>u1 = u\<close> by (simp_all add: start_edit_def w_def)
      have none: "ui_revealed u2 = None" "ui_held_since u2 = None" using u1 by (simp_all add: u2)
      have "sel_ok u2" using u1(1) by (simp add: u2 ui_ok_def sel_ok_def)
      then have "ui_ok w" unfolding w_def using none by (intro edit_opens)
      moreover have "hides u w" using none by (simp add: w_def hides_def)
      ultimately have "tame u w" by (simp add: tame_def)
      then show ?thesis using runs tame_trans [OF _ mild_tame [OF mild_say]] by (simp add: u')
    qed
  qed
qed

lemma unchanged_self: "served_ok L d \<Longrightarrow> unchanged L d d"
  by (simp add: unchanged_def)

lemma toggle_safe:
  assumes "tui_daemon V" and "served_ok (te_libs V) d" and "ui_ok u" and "ui_mode u = Normal"
    and "toggle_reveal V u d = (u', d')"
  shows "safe_step (te_libs V) e u d u' d'"
proof -
  note t = toggle_reveal_runs [OF assms(1,2,5)]
  have "ui_ok u'"
    using t assms(3,4) by (auto simp: ui_ok_def same_form_def buffers_ok_def held_ok_def confirm_ok_def masked_ok_def in_form_def)
  then show ?thesis using t by (simp add: safe_unchanged)
qed

text \<open>What Normal mode does, by the operation that runs.\<close>

definition plain_results :: "'d tui_env \<Rightarrow> ui \<Rightarrow> ui set" where
  "plain_results V u =
     {u, u\<lparr>ui_exited := True\<rparr>, u\<lparr>ui_mode := Help, ui_help_scroll := 0\<rparr>, u\<lparr>ui_mode := Filter\<rparr>,
      clear_filter u, start_add V u, snd (need_key V ''delete'' u), u\<lparr>ui_mode := ConfirmDelete\<rparr>, fold_row V None u,
      u\<lparr>ui_selected := 0\<rparr>, u\<lparr>ui_selected := length (ui_rows u) - 1\<rparr>, go_left V u, go_right V u} \<union>
     range (\<lambda>i. u\<lparr>ui_detail_scroll := i, ui_keep_view := False\<rparr>)"

lemma normal_event_cases:
  assumes "normal_event V e u d = (handled, u', d')" and "e \<noteq> MouseEvent LeftButton True"
  shows "d' = d \<and> u' \<in> plain_results V u \<or>
    reload V u d = (u', d') \<or> start_edit V u d = (u', d') \<or> copy_value V u d = (u', d') \<or> toggle_reveal V u d = (u', d')"
proof -
  have del: "(case need_key V ''delete'' u of (Some key, u) \<Rightarrow> taken (u\<lparr>ui_mode := ConfirmDelete\<rparr>, d) | (None, u) \<Rightarrow> taken (u, d)) =
      (True, if current_key u = None then snd (need_key V ''delete'' u) else u\<lparr>ui_mode := ConfirmDelete\<rparr>, d)"
    by (cases "current_key u") (simp_all add: need_key_def taken_def)
  show ?thesis
    using assms by (auto simp: normal_event_def del taken_def plain_results_def split: if_split_asm)
qed

lemma normal_event_runs:
  assumes V: "tui_daemon V" "menu_ok V" and d: "served_ok (te_libs V) d" and u: "ui_ok u" "ui_mode u = Normal"
    and run: "normal_event V e u d = (handled, u', d')"
  shows "safe_step (te_libs V) e u d u' d'"
proof -
  note safe = safe_tame [OF u(1)] and same = unchanged_self [OF d]
  have tame_in: "safe_step (te_libs V) e u d w d" if "tame u w" for w using safe [OF that same] .
  note mild_in = tame_in [OF mild_tame]
  have move: "tame u (u\<lparr>ui_selected := 0\<rparr>)" "tame u (u\<lparr>ui_selected := length (ui_rows u) - 1\<rparr>)"
    using u(1) by (auto simp: ui_ok_def intro!: mild_tame) (auto simp: mild_simps)
  have modes: "tame u (u\<lparr>ui_mode := Help, ui_help_scroll := 0\<rparr>)" "tame u (u\<lparr>ui_mode := Filter\<rparr>)"
    "tame u (u\<lparr>ui_mode := ConfirmDelete\<rparr>)"
    using tame_trans [OF tame_mode mild_tame [OF mild_update(7)]] tame_mode u(2) by (simp_all add: in_form_def)
  have scroll: "tame u (u\<lparr>ui_detail_scroll := i, ui_keep_view := False\<rparr>)" for i
    by (rule tame_trans [OF mild_tame [OF mild_update(6)] tame_plain(4)])
  have need: "mild u (snd (need_key V ''delete'' u))" using need_key_cases by (metis prod.collapse)
  consider (click) "e = MouseEvent LeftButton True"
    | (plain) "d' = d" "tame u u'"
    | (reload) "reload V u d = (u', d')" | (edit) "start_edit V u d = (u', d')"
    | (copy) "copy_value V u d = (u', d')" | (toggle) "toggle_reveal V u d = (u', d')"
  proof -
    have "\<forall>w \<in> plain_results V u. tame u w"
      using move modes scroll start_add_safe [OF u] mild_tame [OF need]
      by (simp add: plain_results_def mild_tame mild_clear_filter mild_fold_row mild_go_left mild_go_right)
    then show thesis using normal_event_cases [OF run] that by blast
  qed
  then show ?thesis
  proof cases
    case click
    obtain on_row u1 where m: "menu_event V e u = (on_row, u1)" by (cases "menu_event V e u")
    have "d' = d" "u' = sync_selection u1 \<or> u' = fold_row V None (sync_selection u1)"
      using run click m by (auto simp: normal_event_def taken_def Let_def split: if_splits)
    moreover have "mild u (sync_selection u1)" using mild_trans [OF tame_menu [OF V(2) m] mild_sync] .
    ultimately show ?thesis using mild_in mild_trans [OF _ mild_fold_row] by blast
  next
    case plain
    then show ?thesis using tame_in by simp
  next
    case reload
    then show ?thesis using reload_runs [OF V(1) d] safe_mild [OF u(1)] by blast
  next
    case edit
    then show ?thesis using start_edit_runs [OF V(1) d u] safe by blast
  next
    case copy
    then show ?thesis using copy_value_runs [OF V(1) d] safe_mild [OF u(1)] by blast
  next
    case toggle
    then show ?thesis using toggle_safe [OF V(1) d u] by blast
  qed
qed

lemma confirm_event_runs:
  assumes V: "tui_daemon V" and d: "served_ok (te_libs V) d" and u: "ui_ok u"
    and mode: "ui_mode u = ConfirmDelete \<or> ui_mode u = ConfirmOverwrite"
    and run: "confirm_event V e u d = (u', d')"
  shows "safe_step (te_libs V) e u d u' d'"
proof -
  have tame_in: "safe_step (te_libs V) e u d w d" if "tame u w" for w
    using safe_tame [OF u that unchanged_self [OF d]] .
  have held: "ui_held_since u = None" using u mode by (auto simp: ui_ok_simps)
  consider (mouse) "is_mouse e" | (overwrite) "\<not> is_mouse e" "ui_mode u = ConfirmOverwrite" "is_yes e"
    | (keep) "\<not> is_mouse e" "ui_mode u = ConfirmOverwrite" "\<not> is_yes e"
    | (delete) "\<not> is_mouse e" "ui_mode u = ConfirmDelete" "is_yes e"
    | (cancel) "\<not> is_mouse e" "ui_mode u = ConfirmDelete" "\<not> is_yes e"
    using mode by blast
  then show ?thesis
  proof cases
    case mouse
    then show ?thesis using run tame_in [OF tame_refl] by (simp add: confirm_event_def)
  next
    case overwrite
    let ?key = "trim_key_name (ui_add_name u)"
    obtain saved u1 d1 where s: "save_form V ?key ''updated'' u d = (saved, u1, d1)"
      by (cases "save_form V ?key ''updated'' u d") auto
    note sf = save_form_runs [OF V d u held s]
    have e: "d' = d1" "u' = (if saved then u1 else u1\<lparr>ui_mode := Add\<rparr>)"
      using run overwrite s by (auto simp: confirm_event_def is_yes_def Let_def split: bool.splits)
    have ok: "key_name_error ?key = None \<and> ui_add_value u \<noteq> []"
      using u overwrite(2) by (auto simp: ui_ok_simps)
    have "ui_ok u'"
    proof (cases saved)
      case False
      then have "same_form u u1" "ui_ok u1" using sf by auto
      then show ?thesis using False overwrite(2) unfolding e by (auto simp: same_form_def ui_ok_simps)
    qed (use sf e in simp)
    moreover have "hides u u'" using sf unfolding e by (auto simp: hides_def)
    ultimately show ?thesis
      using sf ok overwrite unfolding safe_step_def confirmed_def e by (auto simp: saves_def hides_shown)
  next
    case keep
    then have "u' = say V ''not saved; edit the name or Esc'' (u\<lparr>ui_mode := Add\<rparr>)" "d' = d"
      using run by (auto simp: confirm_event_def is_yes_def Let_def)
    moreover have "tame u (u\<lparr>ui_mode := Add\<rparr>)" using keep(2) held by (auto simp: tame_def hides_def ui_ok_simps)
    ultimately show ?thesis using tame_in [OF tame_trans [OF _ mild_tame [OF mild_say]]] by blast
  next
    case delete
    then have "do_delete V u d = (u', d')" using run by (auto simp: confirm_event_def is_yes_def Let_def)
    from do_delete_runs [OF V d u delete(2) this] show ?thesis
      using delete by (auto simp: safe_step_def confirmed_def hides_shown)
  next
    case cancel
    then have "u' = say V ''cancelled'' (u\<lparr>ui_mode := Normal\<rparr>)" "d' = d"
      using run by (auto simp: confirm_event_def is_yes_def Let_def)
    moreover have "tame u (u\<lparr>ui_mode := Normal\<rparr>)" using cancel(2) by (simp add: tame_mode in_form_def)
    ultimately show ?thesis using tame_in [OF tame_trans [OF _ mild_tame [OF mild_say]]] by blast
  qed
qed

lemma mode_event_runs:
  assumes V: "tui_daemon V" "menu_ok V" and d: "served_ok (te_libs V) d" and u: "ui_ok u"
    and held: "\<not> is_mouse e \<longrightarrow> ui_held_since u = None" and run: "mode_event V e u d = (handled, u', d')"
  shows "safe_step (te_libs V) e u d u' d'"
proof -
  have tame_in: "safe_step (te_libs V) e u d w d" if "tame u w" for w
    using safe_tame [OF u that unchanged_self [OF d]] .
  show ?thesis
  proof (cases "ui_mode u")
    case Normal
    then show ?thesis using normal_event_runs [OF V d u Normal] run by (simp add: mode_event_def)
  next
    case Filter
    then have "filter_event V e u = (handled, u')" "d' = d" using run by (auto simp: mode_event_def split: prod.splits)
    then show ?thesis using tame_in tame_filter_event [OF Filter] by blast
  next
    case Help
    then show ?thesis using tame_in [OF tame_help_event [OF Help]] run by (auto simp: mode_event_def taken_def)
  next
    case Add
    then have "form_event V e u = (handled, u')" "d' = d" using run by (auto simp: mode_event_def split: prod.splits)
    then show ?thesis using tame_in [OF tame_form_event [OF _ held]] Add by (simp add: editing_def)
  next
    case Edit
    then have "form_event V e u = (handled, u')" "d' = d" using run by (auto simp: mode_event_def split: prod.splits)
    then show ?thesis using tame_in [OF tame_form_event [OF _ held]] Edit by (simp add: editing_def)
  next
    case ConfirmDelete
    then show ?thesis using confirm_event_runs [OF V(1) d u] run by (simp add: mode_event_def taken_def)
  next
    case ConfirmOverwrite
    then show ?thesis using confirm_event_runs [OF V(1) d u] run by (simp add: mode_event_def taken_def)
  qed
qed

section \<open>The whole handler\<close>

lemma confirmed_mode:
  "ui_mode u1 = ui_mode u \<Longrightarrow> ui_rows u1 = ui_rows u \<Longrightarrow> ui_selected u1 = ui_selected u \<Longrightarrow>
   ui_add_name u1 = ui_add_name u \<Longrightarrow> ui_add_value u1 = ui_add_value u \<Longrightarrow> confirmed L e u1 d d' \<Longrightarrow> confirmed L e u d d'"
proof -
  assume same: "ui_mode u1 = ui_mode u" "ui_rows u1 = ui_rows u" "ui_selected u1 = ui_selected u"
    "ui_add_name u1 = ui_add_name u" "ui_add_value u1 = ui_add_value u" and c: "confirmed L e u1 d d'"
  have "current_key u1 = current_key u" by (simp add: current_key_def row_at_def same)
  then show ?thesis using c by (simp add: confirmed_def same)
qed

lemma key_event_runs:
  assumes V: "tui_daemon V" "menu_ok V" and d: "served_ok (te_libs V) d" and u: "ui_ok u"
    and held: "\<not> is_mouse e \<longrightarrow> ui_held_since u = None" and run: "key_event V e u d = (handled, u', d')"
  shows "safe_step (te_libs V) e u d u' d'"
proof -
  define u1 where "u1 = end_message e u"
  have m: "mild u u1" by (simp add: u1_def end_message_def)
  then have u1: "ui_ok u1" "ui_held_since u1 = ui_held_since u" using mild_out [OF m u] by simp_all
  have same: "ui_mode u1 = ui_mode u" "ui_rows u1 = ui_rows u" "ui_selected u1 = ui_selected u"
    "ui_add_name u1 = ui_add_name u" "ui_add_value u1 = ui_add_value u" by (simp_all add: u1_def end_message_def)
  have "safe_step (te_libs V) e u1 d u' d'"
  proof (cases "e = CtrlZ \<or> e = PasteStart \<or> ui_pasting u1")
    case True
    then have "d' = d" "(\<exists>message. u' = say V message u1) \<or>
        u' = u1\<lparr>ui_pasting := True, ui_paste := []\<rparr> \<or> u' = paste_event V e u1"
      using run by (auto simp: key_event_def Let_def u1_def taken_def split: if_splits)
    moreover have "tame u1 (u1\<lparr>ui_pasting := True, ui_paste := []\<rparr>)" by (rule tame_trans [OF tame_plain(1) tame_plain(2)])
    ultimately show ?thesis
      using safe_tame [OF u1(1) _ unchanged_self [OF d]] mild_tame [OF mild_say] tame_paste_event by blast
  next
    case False
    then have "mode_event V e u1 d = (handled, u', d')"
      using run by (simp add: key_event_def Let_def u1_def)
    then show ?thesis using mode_event_runs [OF V d u1(1)] held u1(2) by simp
  qed
  then show ?thesis
    using confirmed_mode [OF same] shown_after [of u u1] m by (auto simp: safe_step_def mild_def)
qed

lemma after_held_runs:
  assumes V: "tui_daemon V" "menu_ok V" and d: "served_ok (te_libs V) d" and u: "ui_ok u"
    and held: "\<not> is_mouse e \<longrightarrow> ui_held_since u = None" and run: "after_held V e u d = (handled, u', d')"
  shows "safe_step (te_libs V) e u d u' d'"
proof -
  consider (exit) "e = CtrlC" | (mouse) "e \<noteq> CtrlC" "is_mouse e" | (key) "e \<noteq> CtrlC" "\<not> is_mouse e" by blast
  then show ?thesis
  proof cases
    case exit
    then have "d' = d" "u' = u\<lparr>ui_exited := True\<rparr>" using run by (auto simp: after_held_def taken_def)
    then show ?thesis using safe_tame [OF u tame_plain(3) unchanged_self [OF d]] by simp
  next
    case mouse
    then show ?thesis using key_event_runs [OF V d u held] run by (simp add: after_held_def)
  next
    case key
    define u1 where "u1 = snd (now V u)"
    have m: "mild u u1" using mild_now [of V u] by (auto simp: u1_def now_def)
    note u1 = mild_out [OF m u]
    have same: "ui_mode u1 = ui_mode u" "ui_rows u1 = ui_rows u" "ui_selected u1 = ui_selected u"
      "ui_add_name u1 = ui_add_name u" "ui_add_value u1 = ui_add_value u" by (simp_all add: u1_def now_def)
    consider (quiet) "\<exists>t n. u' = note_ignored V (u1\<lparr>ui_ticks := n, ui_ignore_until := t\<rparr>)" "d' = d"
      | (on) "key_event V e u1 d = (handled, u', d')"
      using run key by (auto simp: after_held_def u1_def now_def taken_def split: if_splits)
    then have "safe_step (te_libs V) e u1 d u' d'"
    proof cases
      case quiet
      have "mild u1 (u1\<lparr>ui_ticks := n, ui_ignore_until := t\<rparr>)" for n t by (simp add: mild_simps)
      then have "mild u1 u'" using quiet(1) mild_trans [OF _ mild_note_ignored] by blast
      then show ?thesis using safe_mild u1 unchanged_self [OF d] quiet(2) by blast
    next
      case on
      then show ?thesis using key_event_runs [OF V d _ _ on] u1 held by simp
    qed
    then show ?thesis
      using confirmed_mode [OF same] shown_after [of u u1] m by (auto simp: safe_step_def mild_def)
  qed
qed

text \<open>A held key: what settles it.\<close>

lemma form_saved_mild:
  "mild u u1 \<Longrightarrow> ui_rows u1 = ui_rows u \<Longrightarrow> ui_selected u1 = ui_selected u \<Longrightarrow> form_saved L u1 d d' \<Longrightarrow> form_saved L u d d'"
proof -
  assume m: "mild u u1" and rows: "ui_rows u1 = ui_rows u" "ui_selected u1 = ui_selected u" and saved: "form_saved L u1 d d'"
  have same: "ui_mode u1 = ui_mode u" "ui_add_name u1 = ui_add_name u" "ui_add_value u1 = ui_add_value u"
    "ui_held_since u1 = ui_held_since u" "ui_held_is_tab u1 = ui_held_is_tab u"
    using m by (simp_all add: mild_def same_form_def)
  have "current_key u1 = current_key u" by (simp add: current_key_def row_at_def rows)
  then have "form_problem u1 = form_problem u" "form_key u1 = form_key u"
    by (simp_all add: form_problem_def form_key_def same)
  then show ?thesis using saved by (simp add: form_saved_def same)
qed

lemma settle_runs:
  assumes V: "tui_daemon V" and d: "served_ok (te_libs V) d" and u: "ui_ok u"
    and run: "settle_held_key V e u d = (u', d')"
  shows "ui_ok u' \<and> hides u u' \<and> form_saved (te_libs V) u d d' \<and> (\<not> is_mouse e \<longrightarrow> ui_held_since u' = None)"
proof (cases "ui_held_since u = None \<or> is_mouse e")
  case True
  then have "u' = u \<and> d' = d"
    using run by (auto simp: settle_held_key_def split: option.splits)
  then show ?thesis using True u d by (auto simp: form_saved_def)
next
  case False
  then obtain since where since: "ui_held_since u = Some since" and key: "\<not> is_mouse e" by auto
  define u1 where "u1 = snd (now V u)"
  have m: "mild u u1" using mild_now [of V u] by (auto simp: u1_def now_def)
  note u1 = mild_out [OF m u]
  have same: "ui_rows u1 = ui_rows u" "ui_selected u1 = ui_selected u" by (simp_all add: u1_def now_def)
  consider (pasted) s where "u' = insert_into_value s (u1\<lparr>ui_held_since := None\<rparr>)" "d' = d"
    | (typed) "release_held_key V u1 d = (u', d')"
    using run since key by (auto simp: settle_held_key_def u1_def now_def split: if_splits)
  then show ?thesis
  proof cases
    case pasted
    have "editing (u1\<lparr>ui_held_since := None\<rparr>)" using u u1 since by (auto simp: editing_def ui_ok_simps)
    then have t: "tame (u1\<lparr>ui_held_since := None\<rparr>) u'" unfolding pasted(1) by (rule tame_insert)
    have "ui_ok (u1\<lparr>ui_held_since := None\<rparr>)" "hides u (u1\<lparr>ui_held_since := None\<rparr>)"
      using u1 by (auto simp: ui_ok_simps hides_def)
    moreover have "ui_held_since u' = None" using pasted(1) by (simp add: insert_into_value_def split: prod.splits)
    ultimately show ?thesis using t hides_trans d pasted(2) by (auto simp: tame_def form_saved_def)
  next
    case typed
    have "ui_held_since u1 \<noteq> None" using u1 since by simp
    from release_held_key_runs [OF V d _ this typed] show ?thesis
      using u1 hides_trans form_saved_mild [OF m same] by blast
  qed
qed

section \<open>A step\<close>

text \<open>The state once a held key is settled; the rest of the event starts there.\<close>

definition settled :: "'d tui_env \<Rightarrow> ui_event \<Rightarrow> ui \<Rightarrow> 'd \<Rightarrow> ui \<times> 'd" where
  "settled V e u d =
     (if e = CustomTick then tick_event V u d else settle_held_key V e (expire V (sync_selection u)) d)"

lemma expire_same: "ui_rows (expire V u) = ui_rows u" "ui_selected (expire V u) = ui_selected u"
  "ui_selection_id (expire V u) = ui_selection_id u"
  by (simp_all add: expire_def now_def say_def remask_def Let_def)

lemma sync_same: "ui_rows (sync_selection u) = ui_rows u" "ui_selected (sync_selection u) = ui_selected u"
  "\<not> moved_on (sync_selection u)"
  by (simp_all add: sync_selection_def remask_def moved_on_def selected_id_def row_at_def)

lemma tick_runs:
  assumes V: "tui_daemon V" and d: "served_ok (te_libs V) d" and u: "ui_ok u" and run: "tick_event V u d = (u', d')"
  shows "ui_ok u' \<and> hides u u' \<and> form_saved (te_libs V) u d d' \<and>
    (ui_revealed u' \<noteq> None \<longrightarrow> moved_on u' = moved_on u)"
proof -
  have unsaved: "form_saved (te_libs V) u d d" using d by (simp add: form_saved_def)
  show ?thesis
  proof (cases "ui_held_since u")
    case None
    then have "u' = expire V u" "d' = d" using run by (simp_all add: tick_event_def)
    then show ?thesis
      using mild_out [OF mild_expire [of u V] u] unsaved by (simp add: moved_on_def selected_id_def row_at_def expire_same)
  next
    case (Some since)
    then have none: "ui_revealed u = None" using u by (auto simp: ui_ok_simps)
    define u1 where "u1 = snd (now V u)"
    have m: "mild u u1" using mild_now [of V u] by (auto simp: u1_def now_def)
    note u1 = mild_out [OF m u]
    have same: "ui_rows u1 = ui_rows u" "ui_selected u1 = ui_selected u" by (simp_all add: u1_def now_def)
    obtain u2 where u': "u' = expire V u2" and two: "release_held_key V u1 d = (u2, d') \<or> u2 = u1 \<and> d' = d"
      using run Some by (auto simp: tick_event_def u1_def now_def split: if_splits prod.splits)
    have held: "ui_held_since u1 \<noteq> None" using u1 Some by simp
    have "ui_ok u2 \<and> hides u u2 \<and> form_saved (te_libs V) u d d'"
      using two
    proof
      assume r: "release_held_key V u1 d = (u2, d')"
      from release_held_key_runs [OF V d _ held r] show ?thesis
        using u1 hides_trans form_saved_mild [OF m same] by blast
    qed (use u1 unsaved in simp)
    moreover from this have e: "ui_ok u'" "hides u2 u'" using mild_out [OF mild_expire [of u2 V]] by (simp_all add: u')
    ultimately have "hides u u'" using hides_trans by blast
    moreover have "ui_revealed u' = None" using \<open>hides u u'\<close> none by (cases "ui_revealed u'") (auto simp: hides_def)
    ultimately show ?thesis using \<open>ui_ok u2 \<and> hides u u2 \<and> form_saved (te_libs V) u d d'\<close> e(1) by simp
  qed
qed

text \<open>The events the handler leaves to FTXUI.\<close>

lemma mode_event_left: "mode_event V e u d = (False, u', d') \<Longrightarrow> u' = u \<and> ui_mode u \<noteq> ConfirmOverwrite"
proof -
  assume run: "mode_event V e u d = (False, u', d')"
  have normal: "normal_event V e u d = (False, u', d') \<Longrightarrow> u' = u"
    by (auto simp: normal_event_def taken_def Let_def split: if_split_asm prod.split_asm option.split_asm)
  have "filter_event V e u = (False, u') \<Longrightarrow> u' = u" "form_event V e u = (False, u') \<Longrightarrow> u' = u"
    by (cases e; simp add: filter_event_def form_event_def now_def split: if_splits)+
  then show ?thesis
    using run normal by (cases "ui_mode u") (auto simp: mode_event_def taken_def split: prod.splits)
qed

lemma after_held_left:
  "after_held V e u d = (False, u', d') \<Longrightarrow> ui_mode u' \<noteq> ConfirmOverwrite \<and> hides u u'"
  by (auto simp: after_held_def key_event_def end_message_def taken_def Let_def now_def hides_def split: if_splits
      dest!: mode_event_left)

lemma component_tame:
  assumes "menu_ok V" and "ui_ok u" and "ui_mode u \<noteq> ConfirmOverwrite"
  shows "tame u (component_event V e u)"
proof (cases "ui_active_tab u = 0")
  case True
  obtain h u1 where m: "menu_event V e u = (h, u1)" by (cases "menu_event V e u")
  then show ?thesis using True mild_tame [OF tame_menu [OF assms(1) m]] by (simp add: component_event_def)
next
  case False
  then show ?thesis
    using assms(2,3) by (auto simp: component_event_def Let_def tame_def hides_def ui_ok_simps)
qed

lemma ui_step_runs:
  assumes V: "tui_daemon V" "menu_ok V" and d: "served_ok (te_libs V) d" and u: "ui_ok u"
    and run: "ui_step V e (u, d) = (u', d')" and settle: "settled V e u d = (u1, d1)"
  shows "ui_ok u' \<and> form_saved (te_libs V) u d d1 \<and> confirmed (te_libs V) e u1 d1 d'"
    and "(ui_revealed u' = Some v \<longrightarrow>
      ui_revealed u = Some v \<and> ui_selection_id u' = ui_selection_id u \<and> (moved_on u \<longrightarrow> moved_on u') \<or>
      moved_on u' \<or> served_view d' (ui_selection_id u') = Some v)"
proof -
  have "(ui_ok u' \<and> form_saved (te_libs V) u d d1 \<and> confirmed (te_libs V) e u1 d1 d') \<and>
    (ui_revealed u' = Some v \<longrightarrow>
      ui_revealed u = Some v \<and> ui_selection_id u' = ui_selection_id u \<and> (moved_on u \<longrightarrow> moved_on u') \<or>
      moved_on u' \<or> served_view d' (ui_selection_id u') = Some v)"
  proof (cases "e = CustomTick")
    case True
    then have "tick_event V u d = (u', d')" "u1 = u'" "d1 = d'"
      using run settle by (auto simp: ui_step_def on_event_def taken_def settled_def)
    then show ?thesis
      using tick_runs [OF V(1) d u] by (auto simp: confirmed_def form_saved_def hides_def)
  next
    case False
    let ?u0 = "expire V (sync_selection u)"
    have m: "mild u ?u0" using mild_trans [OF mild_sync mild_expire] .
    note u0 = mild_out [OF m u]
    have settle: "settle_held_key V e ?u0 d = (u1, d1)" using settle False by (simp add: settled_def)
    note s = settle_runs [OF V(1) d _ settle]
    have same: "ui_rows ?u0 = ui_rows u" "ui_selected ?u0 = ui_selected u" by (simp_all add: expire_same sync_same)
    have saved: "form_saved (te_libs V) u d d1" using s u0 form_saved_mild [OF m same] by blast
    then have d1: "served_ok (te_libs V) d1" by (simp add: form_saved_def)
    obtain handled u2 d2 where a: "after_held V e u1 d1 = (handled, u2, d2)" by (cases "after_held V e u1 d1") auto
    have r: "safe_step (te_libs V) e u1 d1 u2 d2"
      using after_held_runs [OF V d1 _ _ a] s u0 by blast
    have e: "u' = (if handled then u2 else component_event V e u2)" "d' = d2"
      using run False settle a by (simp_all add: ui_step_def on_event_def)
    have t: "tame u2 u'"
    proof (cases handled)
      case False
      then have "ui_mode u2 \<noteq> ConfirmOverwrite" using after_held_left [of V e u1 d1 u2 d2] a by simp
      then show ?thesis using component_tame [OF V(2)] r False by (simp add: e safe_step_def)
    qed (simp add: e)
    have ok: "ui_ok u'" using t r by (simp add: tame_def safe_step_def)
    have "ui_revealed u = Some v \<and> ui_selection_id u' = ui_selection_id u \<and> (moved_on u \<longrightarrow> moved_on u') \<or>
      moved_on u' \<or> served_view d' (ui_selection_id u') = Some v" if shown: "ui_revealed u' = Some v"
    proof -
      have u2: "ui_revealed u2 = Some v" "ui_selection_id u' = ui_selection_id u2"
        using t shown by (simp_all add: tame_def hides_def)
      consider "ui_revealed u1 = Some v \<and> ui_selection_id u2 = ui_selection_id u1"
        | "handled" "moved_on u2" | "served_view d2 (ui_selection_id u2) = Some v"
      proof (cases handled)
        case True
        then show thesis using that u2(1) r by (auto simp: safe_step_def shown_from_def)
      next
        case False
        then have "hides u1 u2" using after_held_left [of V e u1 d1 u2 d2] a by simp
        then show thesis using that(1) u2(1) by (simp add: hides_def)
      qed
      then show ?thesis
      proof cases
        case 1
        then have x: "ui_revealed ?u0 = Some v" "ui_selection_id u2 = ui_selection_id ?u0"
          using s u0 by (auto simp: hides_def)
        then have "ui_revealed (sync_selection u) = Some v" "ui_selection_id u2 = ui_selection_id (sync_selection u)"
          using mild_expire [of "sync_selection u" V] by (auto simp: mild_def hides_def)
        then have "ui_revealed u = Some v" "ui_selection_id u2 = ui_selection_id u" "\<not> moved_on u"
          by (auto simp: sync_selection_def remask_def moved_on_def split: if_splits)
        then show ?thesis using u2 by simp
      next
        case 2
        then show ?thesis by (simp add: e)
      qed (use u2 e in simp)
    qed
    then show ?thesis using ok saved r by (simp add: safe_step_def e)
  qed
  then show "ui_ok u' \<and> form_saved (te_libs V) u d d1 \<and> confirmed (te_libs V) e u1 d1 d'"
    and "(ui_revealed u' = Some v \<longrightarrow>
      ui_revealed u = Some v \<and> ui_selection_id u' = ui_selection_id u \<and> (moved_on u \<longrightarrow> moved_on u') \<or>
      moved_on u' \<or> served_view d' (ui_selection_id u') = Some v)"
    by blast+
qed

lemma draw_frame_runs:
  "mild u (draw_frame F u) \<and> \<not> moved_on (draw_frame F u)"
proof -
  have "mild w (scroll_help F (scroll_detail F w))" for w
    by (simp add: scroll_help_def scroll_detail_def Let_def mild_simps)
  moreover have "moved_on (scroll_help F (scroll_detail F w)) = moved_on w" for w
    by (simp add: scroll_help_def scroll_detail_def Let_def moved_on_def selected_id_def row_at_def)
  ultimately show ?thesis
    using mild_trans [OF mild_sync] sync_same by (simp add: draw_frame_def)
qed

section \<open>Runs\<close>

text \<open>The states a run passes through, the first and the last included.\<close>

definition ui_states :: "'d tui_env \<Rightarrow> ui_input list \<Rightarrow> ui \<times> 'd \<Rightarrow> (ui \<times> 'd) set" where
  "ui_states V inputs s = (\<lambda>n. ui_run V (take n inputs) s) ` {0..length inputs}"

text \<open>What holds of every reachable state: a value that is shown was stored at some point of the run.\<close>

definition run_inv :: "libs \<Rightarrow> (ui \<times> served) set \<Rightarrow> ui \<times> served \<Rightarrow> bool" where
  "run_inv L past s \<longleftrightarrow> ui_ok (fst s) \<and> served_ok L (snd s) \<and>
     (\<forall>v. ui_revealed (fst s) = Some v \<longrightarrow>
        moved_on (fst s) \<or> (\<exists>t \<in> past. served_view (snd t) (ui_selection_id (fst s)) = Some v))"

lemma run_inv_step:
  assumes V: "tui_daemon V" "menu_ok V" and inv: "run_inv (te_libs V) past s" and run: "ui_input_step V i s = s'"
  shows "run_inv (te_libs V) (insert s' past) s'"
proof -
  obtain u d u' d' where s: "s = (u, d)" "s' = (u', d')" by (cases s; cases s')
  have u: "ui_ok u" and d: "served_ok (te_libs V) d" using inv by (simp_all add: run_inv_def s)
  have old: "moved_on u \<or> (\<exists>t \<in> past. served_view (snd t) (ui_selection_id u) = Some v)" if "ui_revealed u = Some v" for v
    using inv that by (simp add: run_inv_def s)
  show ?thesis
  proof (cases i)
    case (Frame F)
    then have e: "u' = draw_frame F u" "d' = d" using run by (simp_all add: ui_input_step_def s)
    have m: "mild u u'" and still: "\<not> moved_on u'" using draw_frame_runs by (simp_all add: e)
    have "\<exists>t \<in> past. served_view (snd t) (ui_selection_id u') = Some v" if v: "ui_revealed u' = Some v" for v
    proof -
      have same: "ui_revealed u = Some v" "ui_selection_id u' = ui_selection_id u" using m v by (simp_all add: mild_def hides_def)
      have "ui_rows u' = ui_rows u" "ui_selected u' = ui_selected u"
        by (simp_all add: e draw_frame_def scroll_help_def scroll_detail_def Let_def sync_same)
      then have "row_at u' = row_at u" "selected_id u' = selected_id u"
        by (simp_all add: row_at_def selected_id_def fun_eq_iff)
      then have "\<not> moved_on u" using still same(2) by (simp add: moved_on_def)
      then show ?thesis using old [OF same(1)] same(2) by simp
    qed
    then show ?thesis using mild_out [OF m u] d e(2) by (auto simp: run_inv_def s)
  next
    case (Event e)
    then have run: "ui_step V e (u, d) = (u', d')" using run by (simp add: ui_input_step_def s)
    obtain u1 d1 where st: "settled V e u d = (u1, d1)" by (cases "settled V e u d")
    note r = ui_step_runs(1) [OF V d u run st] and shown = ui_step_runs(2) [OF V d u run st]
    have "served_ok (te_libs V) d'" using r by (simp add: confirmed_def)
    moreover have "moved_on u' \<or> (\<exists>t \<in> insert (u', d') past. served_view (snd t) (ui_selection_id u') = Some v)"
      if v: "ui_revealed u' = Some v" for v
      using shown [rule_format, OF v] old by auto
    ultimately show ?thesis using r by (simp add: run_inv_def s)
  qed
qed

lemma run_inv_mono: "run_inv L past s \<Longrightarrow> past \<subseteq> past' \<Longrightarrow> run_inv L past' s"
  unfolding run_inv_def by blast

lemma ui_states_Cons:
  "\<not> ui_exited (fst s) \<Longrightarrow> ui_states V (i # inputs) s = insert s (ui_states V inputs (ui_input_step V i s))"
proof -
  assume "\<not> ui_exited (fst s)"
  then have "ui_run V (take n (i # inputs)) s = (case n of 0 \<Rightarrow> s | Suc m \<Rightarrow> ui_run V (take m inputs) (ui_input_step V i s))" for n
    by (cases n) simp_all
  moreover have "{0..length (i # inputs)} = insert 0 (Suc ` {0..length inputs})"
    using atLeast0_atMost_Suc_eq_insert_0 [of "length inputs"]
    by (simp add: atLeast0AtMost del: image_Suc_atMost image_Suc_atLeastAtMost)
  ultimately show ?thesis
    by (simp add: ui_states_def image_image del: image_Suc_atLeastAtMost)
qed

lemma run_inv_run:
  assumes "tui_daemon V" and "menu_ok V" and "run_inv (te_libs V) past s"
  shows "run_inv (te_libs V) (past \<union> ui_states V inputs s) (ui_run V inputs s)"
  using assms(3)
proof (induction inputs arbitrary: s past)
  case Nil
  then show ?case using run_inv_mono by (simp add: ui_states_def) blast
next
  case (Cons i inputs)
  show ?case
  proof (cases "ui_exited (fst s)")
    case True
    then show ?thesis using Cons.prems run_inv_mono by simp
  next
    case False
    let ?s = "ui_input_step V i s"
    have "run_inv (te_libs V) (insert ?s past) ?s"
      using run_inv_step [OF assms(1,2) Cons.prems] by simp
    from Cons.IH [OF this] have "run_inv (te_libs V) (insert ?s past \<union> ui_states V inputs ?s) (ui_run V inputs ?s)" .
    moreover have "?s \<in> ui_states V inputs ?s" by (auto simp: ui_states_def intro!: image_eqI [of _ _ 0])
    ultimately show ?thesis
      using False by (simp add: ui_states_Cons insert_absorb) (erule run_inv_mono; blast)
  qed
qed

end
