(* ===== verification/TuiProps.thy ===== *)
theory TuiProps
  imports TuiRuns TuiStart CommandProps
begin

text \<open>
  The properties of the terminal UI: the rows of the list, what a run of events can show and what
  it can change.
\<close>

section \<open>Rows\<close>

text \<open>
  C34. The incremental construction of the list is its specification: over sorted keys the rows
  are exactly the keys that match the filter with the folders above them, as far as no folder above
  is collapsed, each once, by id and the folder before the key where both have the same id. That
  happens for a key that ends in a slash only: when there is none, the ids are the visible ids in
  strictly increasing order, each on one row.
\<close>

theorem rows_are_visible:
  assumes "sorted_wrt (<) keys" and "build_rows keys flt collapsed = (rows, labels)"
  shows "(\<lambda>r. (row_id r, row_dir r)) ` set rows = visible_rows keys flt collapsed \<and>
    sorted_wrt row_before (map (\<lambda>r. (row_id r, row_dir r)) rows) \<and>
    ((\<forall>key \<in> set keys. last key \<noteq> SLASH) \<longrightarrow>
      map row_id rows = sorted_list_of_set (fst ` visible_rows keys flt collapsed))"
proof -
  note spec = build_rows_spec [OF assms]
  have "map row_id rows = sorted_list_of_set (fst ` visible_rows keys flt collapsed)"
    if "\<forall>key \<in> set keys. last key \<noteq> SLASH"
  proof -
    have "map row_id rows = map fst (map (\<lambda>r. (row_id r, row_dir r)) rows)" by simp
    also have "\<dots> = sorted_list_of_set (fst ` visible_rows keys flt collapsed)"
      by (rule visible_rows_ids [OF that spec(2)]) (simp add: spec(1))
    finally show ?thesis .
  qed
  then show ?thesis using spec by blast
qed

theorem rows_are_visible_witness:
  "map row_id (fst (build_rows [''a/b/x'', ''a/c'', ''q''] [] {''a/b/''})) = [''a/'', ''a/b/'', ''a/c'', ''q''] \<and>
   sorted_list_of_set (fst ` visible_rows [''a/b/x'', ''a/c'', ''q''] [] {''a/b/''}) = [''a/'', ''a/b/'', ''a/c'', ''q'']"
proof -
  have ids: "map row_id (fst (build_rows [''a/b/x'', ''a/c'', ''q''] [] {''a/b/''})) = [''a/'', ''a/b/'', ''a/c'', ''q'']"
    by code_simp
  obtain rows labels where run: "build_rows [''a/b/x'', ''a/c'', ''q''] [] {''a/b/''} = (rows, labels)"
    by (cases "build_rows [''a/b/x'', ''a/c'', ''q''] [] {''a/b/''}")
  have "sorted_wrt (<) [''a/b/x'', ''a/c'', ''q'']" by code_simp
  moreover have "\<forall>key \<in> set [''a/b/x'', ''a/c'', ''q'']. last key \<noteq> SLASH" by simp
  ultimately have "map row_id rows = sorted_list_of_set (fst ` visible_rows [''a/b/x'', ''a/c'', ''q''] [] {''a/b/''})"
    using rows_are_visible [OF _ run] by blast
  then show ?thesis using ids run by simp
qed

text \<open>
  A key that ends in a slash is listed under its folder with the id of the folder, and selecting
  the key by its id, as every rebuild of the list does, finds the folder.
\<close>

lemma slash_key_listed_twice:
  "map (\<lambda>r. (row_id r, row_dir r)) (fst (build_rows [''a/''] [] {})) = [(''a/'', True), (''a/'', False)] \<and>
   ui_selected (snd (select_row ''a/'' (fresh_ui\<lparr>ui_rows := fst (build_rows [''a/''] [] {}), ui_selected := 1\<rparr>))) = 0"
  by code_simp

section \<open>Runs\<close>

lemma start_ok:
  assumes "tui_daemon V" and "served_ok (te_libs V) d" and "ui_start V marks d = (u, d')"
  shows "ui_ok u \<and> ui_revealed u = None \<and> unchanged (te_libs V) d d'"
proof -
  obtain ok u1 d1 where r: "refresh V [] fresh_ui d = (ok, u1, d1)" by (cases "refresh V [] fresh_ui d")
  note rr = refresh_runs [OF assms(1,2) r]
  have "ui_ok fresh_ui" by (simp add: fresh_ui_def ui_ok_simps labels_ok_def)
  then have ok: "ui_ok u1" using rr mild_ok by blast
  have "mild u1 u" and d: "d' = d1"
    using assms(3) by (auto simp: ui_start_def r mild_say mild_complain split: if_splits)
  then show ?thesis
    using mild_out [OF _ ok] rr by (cases "ui_revealed u") (auto simp: hides_def)
qed

lemma run_inv_start:
  assumes V: "tui_daemon V" "menu_ok V" and d: "served_ok (te_libs V) d"
  shows "run_inv (te_libs V) (ui_states V inputs (ui_start V marks d)) (ui_run V inputs (ui_start V marks d))"
proof -
  obtain u1 d1 where s: "ui_start V marks d = (u1, d1)" by (cases "ui_start V marks d")
  have "run_inv (te_libs V) {} (u1, d1)"
    using start_ok [OF V(1) d s] by (simp add: run_inv_def unchanged_def)
  then show ?thesis using run_inv_run [OF V] unfolding s by fastforce
qed

text \<open>
  C29. In every state the UI reaches, whatever the keys, the mouse, the terminal and the inputs of
  FTXUI do: the selection is a row, the name and the value typed exist only in the form, nothing
  is revealed beside a form, a key is held back only while a form is edited, an overwrite is only
  asked for a valid name and a value, and the daemon's store stays well formed.
\<close>

theorem ui_invariant:
  assumes "tui_daemon V" and "menu_ok V" and "served_ok (te_libs V) d"
    and "ui_run V inputs (ui_start V marks d) = (u, d')"
  shows "(ui_rows u = [] \<or> ui_selected u < length (ui_rows u)) \<and>
    (in_form (ui_mode u) \<or> ui_add_name u = [] \<and> ui_add_value u = []) \<and>
    (ui_revealed u = None \<or> \<not> in_form (ui_mode u)) \<and>
    (ui_held_since u = None \<or> ui_mode u = Add \<or> ui_mode u = Edit) \<and>
    (ui_mode u \<noteq> ConfirmOverwrite \<or> key_name_error (trim_key_name (ui_add_name u)) = None \<and> ui_add_value u \<noteq> []) \<and>
    served_ok (te_libs V) d'"
  using run_inv_start [OF assms(1-3), of inputs marks] unfolding assms(4)
  by (auto simp: run_inv_def ui_ok_def sel_ok_def buffers_ok_def held_ok_def confirm_ok_def masked_ok_def)

text \<open>
  C19. A value on the screen is a value of the selected key: when a frame shows one, then at some
  moment of the run the daemon's store held that value under the key of the selected row.
\<close>

theorem shown_value_was_stored:
  assumes "tui_daemon V" and "menu_ok V" and "served_ok (te_libs V) d"
    and "ui_run V inputs (ui_start V marks d) = (u, d')" and "ui_revealed (draw_frame F u) = Some v"
  shows "\<exists>n \<le> length inputs.
    served_view (snd (ui_run V (take n inputs) (ui_start V marks d))) (selected_id (draw_frame F u)) = Some v"
proof -
  let ?s = "ui_start V marks d" and ?f = "draw_frame F u"
  have "run_inv (te_libs V) (ui_states V inputs ?s) (u, d')"
    using run_inv_start [OF assms(1-3), of inputs marks] assms(4) by simp
  from run_inv_step [OF assms(1,2) this, of "Frame F" "(?f, d')"]
  have "run_inv (te_libs V) (insert (?f, d') (ui_states V inputs ?s)) (?f, d')"
    by (simp add: ui_input_step_def)
  then have "\<exists>t \<in> insert (?f, d') (ui_states V inputs ?s). served_view (snd t) (ui_selection_id ?f) = Some v"
    using assms(5) draw_frame_runs [of u F] by (simp add: run_inv_def)
  then obtain t where t: "t \<in> insert (?f, d') (ui_states V inputs ?s)" "served_view (snd t) (ui_selection_id ?f) = Some v" ..
  have "selected_id ?f = ui_selection_id ?f" using draw_frame_runs [of u F] by (simp add: moved_on_def)
  moreover have "\<exists>n \<le> length inputs. snd t = snd (ui_run V (take n inputs) ?s)"
    using t(1) assms(4) by (auto simp: ui_states_def intro: exI [of _ "length inputs"])
  ultimately show ?thesis using t(2) by metis
qed

text \<open>
  C11. The store changes only by what was confirmed. In one event of a run: a held Enter that
  turns out to be typed saves the form, under a key that is valid and, when adding, was not there;
  after that only the key y deletes the selected key, or overwrites the key of the form, and only
  where the question was asked.
\<close>

theorem ui_changes_confirmed:
  assumes "tui_daemon V" and "menu_ok V" and "served_ok (te_libs V) d0"
    and "ui_run V inputs (ui_start V marks d0) = (u, d)" and "ui_step V e (u, d) = (u', d')"
    and "settled V e u d = (u1, d1)"
  shows "form_saved (te_libs V) u d d1 \<and> confirmed (te_libs V) e u1 d1 d'"
proof -
  have "ui_ok u \<and> served_ok (te_libs V) d"
    using run_inv_start [OF assms(1-3), of inputs marks] unfolding assms(4) by (simp add: run_inv_def)
  then show ?thesis using ui_step_runs(1) [OF assms(1,2) _ _ assms(5,6)] by simp
qed

section \<open>Pasting\<close>

text \<open>What a paste in progress leaves alone.\<close>

definition paste_keeps :: "ui \<Rightarrow> ui \<Rightarrow> bool" where
  "paste_keeps u u' \<longleftrightarrow>
     ui_pasting u' \<and> ui_held_since u' = None \<and> ui_mode u' = ui_mode u \<and> ui_exited u' = ui_exited u \<and>
     ui_add_name u' = ui_add_name u \<and> ui_add_value u' = ui_add_value u \<and> ui_filter u' = ui_filter u \<and>
     ui_keys u' = ui_keys u \<and> ui_rows u' = ui_rows u \<and> ui_selected u' = ui_selected u"

lemma paste_keeps_trans: "paste_keeps u u' \<Longrightarrow> paste_keeps u' u'' \<Longrightarrow> paste_keeps u u''"
  by (simp add: paste_keeps_def)

lemma paste_keeps_parts:
  assumes "ui_pasting u" and "ui_held_since u = None"
  shows "paste_keeps u (expire V u)" "paste_keeps u (sync_selection u)" "paste_keeps u (draw_frame F u)"
    "paste_keeps u (note_ignored V u)" "paste_keeps u (end_message e u)" "paste_keeps u (say V w u)"
    "paste_keeps u (u\<lparr>ui_ticks := n\<rparr>)" "paste_keeps u (u\<lparr>ui_ignore_until := t\<rparr>)" "paste_keeps u (u\<lparr>ui_paste := p\<rparr>)"
  using assms
  by (simp_all add: paste_keeps_def expire_def sync_selection_def remask_def now_def say_def draw_frame_def Let_def
      scroll_help_def scroll_detail_def note_ignored_def end_message_def)

definition in_paste :: "ui_event \<Rightarrow> bool" where
  "in_paste e \<longleftrightarrow> e \<noteq> PasteEnd \<and> e \<noteq> EscapeKey \<and> e \<noteq> CtrlC"

lemma paste_key_event:
  assumes p: "ui_pasting u" "ui_held_since u = None" and e: "in_paste e"
  shows "\<exists>u'. key_event V e u d = (True, u', d) \<and> paste_keeps u u'"
proof -
  let ?v = "end_message e u"
  have v: "paste_keeps u ?v" using paste_keeps_parts(5) [OF p] .
  then have pv: "ui_pasting ?v" "ui_held_since ?v = None" by (simp_all add: paste_keeps_def)
  note w = paste_keeps_parts [OF pv]
  have "paste_keeps ?v (paste_event V e ?v)"
    using e w(9) pv by (cases e) (simp_all add: paste_event_def in_paste_def paste_keeps_def)
  moreover have "paste_keeps ?v (?v\<lparr>ui_pasting := True, ui_paste := []\<rparr>)" using pv by (simp add: paste_keeps_def)
  moreover have "\<exists>u'. key_event V e u d = (True, u', d) \<and>
      u' \<in> {say V ''Ctrl-Z suspend is off in the TUI; q quits'' ?v, ?v\<lparr>ui_pasting := True, ui_paste := []\<rparr>, paste_event V e ?v}"
    using pv(1) by (simp add: key_event_def Let_def taken_def)
  ultimately show ?thesis using v w(6) paste_keeps_trans by fast
qed

lemma settled_paste:
  assumes "ui_held_since u = None"
  shows "settle_held_key V e u d = (u, d)"
  using assms by (simp add: settle_held_key_def)

lemma paste_after_held:
  assumes p: "ui_pasting u" "ui_held_since u = None" and e: "in_paste e"
  shows "\<exists>u'. after_held V e u d = (True, u', d) \<and> paste_keeps u u'"
proof -
  let ?t = "te_clock V (ui_ticks u)" and ?u1 = "u\<lparr>ui_ticks := Suc (ui_ticks u)\<rparr>"
  let ?u2 = "?u1\<lparr>ui_ticks := Suc (Suc (ui_ticks u)), ui_ignore_until := te_clock V (Suc (ui_ticks u)) + kAfterSubmitQuiet\<rparr>"
  have u1: "paste_keeps u ?u1" and u2: "paste_keeps u ?u2" using p by (simp_all add: paste_keeps_def)
  have "paste_keeps u (note_ignored V ?u2)"
    using paste_keeps_trans [OF u2 paste_keeps_parts(4)] u2 by (simp add: paste_keeps_def)
  moreover have "\<exists>u'. key_event V e ?u1 d = (True, u', d) \<and> paste_keeps u u'"
    using paste_key_event [of ?u1, OF _ _ e] p paste_keeps_trans [OF u1] by fastforce
  moreover have "after_held V e u d =
      (if is_mouse e then key_event V e u d
       else if ?t < ui_ignore_until u then (True, note_ignored V ?u2, d) else key_event V e ?u1 d)"
    using e by (simp add: after_held_def in_paste_def now_def taken_def)
  ultimately show ?thesis using paste_key_event [OF p e] by auto
qed

lemma paste_step:
  assumes p: "ui_pasting u" "ui_held_since u = None" and i: "case i of Event e \<Rightarrow> in_paste e | Frame F \<Rightarrow> True"
  shows "\<exists>u'. ui_input_step V i (u, d) = (u', d) \<and> paste_keeps u u'"
proof (cases i)
  case (Frame F)
  then show ?thesis using paste_keeps_parts(3) [OF p] by (simp add: ui_input_step_def)
next
  case (Event e)
  show ?thesis
  proof (cases "e = CustomTick")
    case True
    then have "ui_input_step V i (u, d) = (expire V u, d)"
      using Event p by (simp add: ui_input_step_def ui_step_def on_event_def tick_event_def taken_def)
    then show ?thesis using paste_keeps_parts(1) [OF p] by simp
  next
    case False
    let ?v = "expire V (sync_selection u)"
    have "paste_keeps u (sync_selection u)" using paste_keeps_parts(2) [OF p] .
    then have v: "paste_keeps u ?v"
      using paste_keeps_parts(1) [of "sync_selection u"] paste_keeps_trans by (simp add: paste_keeps_def)
    then have pv: "ui_pasting ?v" "ui_held_since ?v = None" by (simp_all add: paste_keeps_def)
    obtain u' where "after_held V e ?v d = (True, u', d)" "paste_keeps ?v u'"
      using paste_after_held [OF pv, of e V d] i Event by auto
    then show ?thesis
      using Event False settled_paste [OF pv(2), of V e d] paste_keeps_trans [OF v]
      by (simp add: ui_input_step_def ui_step_def on_event_def)
  qed
qed

text \<open>
  C18. Pasted text is text: while a bracketed paste is open, no sequence of keys, clicks, ticks and
  frames (but for the end of the paste, Escape and Ctrl-C) quits, changes the mode, a form, the
  filter or the rows, or reaches the daemon.
\<close>

theorem paste_runs_nothing:
  assumes "ui_pasting u" and "ui_held_since u = None"
    and "\<forall>i \<in> set inputs. case i of Event e \<Rightarrow> in_paste e | Frame F \<Rightarrow> True"
  shows "snd (ui_run V inputs (u, d)) = d \<and> paste_keeps u (fst (ui_run V inputs (u, d)))"
  using assms
proof (induction inputs arbitrary: u)
  case Nil
  then show ?case by (simp add: paste_keeps_def)
next
  case (Cons i inputs)
  obtain u' where step: "ui_input_step V i (u, d) = (u', d)" and k: "paste_keeps u u'"
    using paste_step [OF Cons.prems(1,2), of i V d] Cons.prems(3) by auto
  then have "snd (ui_run V inputs (u', d)) = d \<and> paste_keeps u' (fst (ui_run V inputs (u', d)))"
    using Cons.IH [of u'] Cons.prems(3) by (simp add: paste_keeps_def)
  moreover have "paste_keeps u u" using Cons.prems(1,2) by (simp add: paste_keeps_def)
  ultimately show ?case using step paste_keeps_trans [OF k] by simp
qed

section \<open>A UI of the toy daemon\<close>

definition one_store :: store where
  "one_store = toy_store\<lparr>st_data := [(''k'', JString ''v'')]\<rparr>"

lemma one_service: "service_ok toy one_store"
  using toy_wf by (auto simp: service_ok_def one_store_def wf_store_def smap_inv_def text_store_def)

lemma one_view: "store_view one_store = [''k'' \<mapsto> ''v'']"
  by (rule ext) (simp add: store_view_def one_store_def)

definition toy_tui :: "served tui_env" where
  "toy_tui =
     \<lparr>te_libs = toy, te_uid = 7, te_peer = daemon_peer toy 7 (dc_token toy_client), te_client = toy_client,
      te_clock = (\<lambda>n. 0), te_base64 = (\<lambda>s. s), te_tty_open = None, te_tty = [],
      te_menu = (\<lambda>e n i. (False, i)), te_form = (\<lambda>e shown f. f)\<rparr>"

lemma toy_tui_daemon: "tui_daemon toy_tui" and toy_tui_menu: "menu_ok toy_tui"
  by (simp_all add: tui_daemon_def menu_ok_def toy_tui_def toy_ok)

lemma one_lists:
  "\<exists>w'. request toy 7 (daemon_peer toy 7 (dc_token toy_client)) toy_client ''list'' [] None (one_store, w)
     = (Inr (success [(''keys'', JArray [JString ''k''])]), (one_store, w'))"
proof -
  let ?rq = "wire_request toy_client ''list'' [] None" and ?w = "w\<lparr>w_tick := Suc (w_tick w)\<rparr>"
  have "store_list one_store = [''k'']" by code_simp
  moreover have "case ok_keys toy [''k''] of Inl e \<Rightarrow> False | Inr t \<Rightarrow> length t \<le> 200" by code_simp
  then obtain t where t: "ok_keys toy [''k''] = Inr t" "length t \<le> 200" by (auto split: sum.splits)
  ultimately have d: "dispatch toy ?rq (clock toy (w_tick w)) one_store ?w = (Inr t, one_store, ?w)"
    by (simp add: dispatch_def wire_request_def bindM_def readM_def liftM_def)
  have "case json_dump toy (JObject (smap_put ''token'' (JString (dc_token toy_client))
      (make_request ''list'' [] None))) of Inl e \<Rightarrow> False | Inr l \<Rightarrow> length l \<le> 200"
    by code_simp
  then have fits: "check_request toy toy_client ''list'' [] None = Inr ()"
    by (auto simp: check_request_def serialize_def kMaxRequestBytes_def split: sum.splits)
  have spec: "fst (kv_spec ?rq (store_view one_store)) = success [(''keys'', JArray [JString ''k''])]"
    by (simp add: kv_spec_def wire_request_def one_view)
  then have "answerable ?rq (store_view one_store)" by (auto simp: answerable_def)
  from request_completes [OF toy_ok one_service fits d _ this] t spec show ?thesis
    by (simp add: kMaxResponseBytes_def)
qed

lemma one_gets:
  "\<exists>w'. request toy 7 (daemon_peer toy 7 (dc_token toy_client)) toy_client ''get'' ''k'' None (one_store, w)
     = (Inr (success [(''value'', JString ''v'')]), (one_store, w'))"
proof -
  let ?rq = "wire_request toy_client ''get'' ''k'' None" and ?w = "w\<lparr>w_tick := Suc (w_tick w)\<rparr>"
  have "store_get toy ''k'' one_store = Inr (Some ''v'')" by code_simp
  moreover have "case ok_value toy ''v'' of Inl e \<Rightarrow> False | Inr t \<Rightarrow> length t \<le> 200" by code_simp
  then obtain t where t: "ok_value toy ''v'' = Inr t" "length t \<le> 200" by (auto split: sum.splits)
  ultimately have d: "dispatch toy ?rq (clock toy (w_tick w)) one_store ?w = (Inr t, one_store, ?w)"
    by (simp add: dispatch_def wire_request_def bindM_def readM_def liftM_def)
  have "case json_dump toy (JObject (smap_put ''token'' (JString (dc_token toy_client))
      (make_request ''get'' ''k'' None))) of Inl e \<Rightarrow> False | Inr l \<Rightarrow> length l \<le> 200"
    by code_simp
  then have fits: "check_request toy toy_client ''get'' ''k'' None = Inr ()"
    by (auto simp: check_request_def serialize_def kMaxRequestBytes_def split: sum.splits)
  have spec: "fst (kv_spec ?rq (store_view one_store)) = success [(''value'', JString ''v'')]"
    by (simp add: kv_spec_def wire_request_def one_view)
  then have "answerable ?rq (store_view one_store)" by (auto simp: answerable_def)
  from request_completes [OF toy_ok one_service fits d _ this] t spec show ?thesis
    by (simp add: kMaxResponseBytes_def)
qed

text \<open>The UI starts with the one key selected; the key r then shows its value.\<close>

lemma one_starts:
  "\<exists>u w'. ui_start toy_tui no_marks (one_store, w) = (u, (one_store, w')) \<and>
     u = fresh_ui\<lparr>ui_keys := [''k''], ui_rows := [\<lparr>row_id = ''k'', row_dir = False, row_depth = 0\<rparr>], ui_labels := [''k'']\<rparr>"
proof -
  obtain w' where r: "request toy 7 (daemon_peer toy 7 (dc_token toy_client)) toy_client ''list'' [] None (one_store, w)
     = (Inr (success [(''keys'', JArray [JString ''k''])]), (one_store, w'))"
    using one_lists by blast
  have rows: "build_rows [''k''] [] {} = ([\<lparr>row_id = ''k'', row_dir = False, row_depth = 0\<rparr>], [''k''])" by code_simp
  have "listed_keys toy (success [(''keys'', JArray [JString ''k''])]) = Inr [''k'']" by code_simp
  then show ?thesis
    by (simp add: ui_start_def refresh_def call_def local_request_def toy_tui_def r rows rebuild_rows_def no_marks_def
        fresh_ui_def remask_def Let_def)
qed

definition one_shown :: "ui \<times> served \<Rightarrow> bool" where
  "one_shown s \<longleftrightarrow> ui_revealed (fst s) = Some ''v'' \<and> ui_rows (fst s) = [\<lparr>row_id = ''k'', row_dir = False, row_depth = 0\<rparr>] \<and>
     ui_selected (fst s) = 0 \<and> ui_selection_id (fst s) = ''k'' \<and> ui_exited (fst s) = False"

lemma one_reveals:
  "one_shown (ui_run toy_tui [Event (Character ''r'')] (ui_start toy_tui no_marks (one_store, w)))"
proof -
  obtain u w' where s: "ui_start toy_tui no_marks (one_store, w) = (u, (one_store, w'))"
    "u = fresh_ui\<lparr>ui_keys := [''k''], ui_rows := [\<lparr>row_id = ''k'', row_dir = False, row_depth = 0\<rparr>], ui_labels := [''k'']\<rparr>"
    using one_starts by blast
  obtain w2 where r: "request toy 7 (daemon_peer toy 7 (dc_token toy_client)) toy_client ''get'' ''k'' None (one_store, w')
     = (Inr (success [(''value'', JString ''v'')]), (one_store, w2))"
    using one_gets by blast
  have g: "group_by_prefix [''k''] = [([], [''k''])]" by code_simp
  have many: "get_many toy 7 (daemon_peer toy 7 (dc_token toy_client)) toy_client [''k''] (one_store, w')
      = (Inr \<lparr>f_values = [(''k'', ''v'')], f_failures = []\<rparr>, (one_store, w2))"
    by (simp add: get_many_def g local_request_def bindR_def liftR_def returnR_def member_success take_string_def
        fetch_one_def smap_emplace_def smap_put_def r)
  show ?thesis
    unfolding s(1)
    by (simp add: s(2) ui_input_step_def ui_step_def on_event_def settle_held_key_def after_held_def key_event_def
        mode_event_def normal_event_def taken_def toggle_reveal_def reveal_def need_key_def current_key_def fetch_value_def
        call_def toy_tui_def many fresh_ui_def remask_def sync_selection_def selected_id_def row_at_def expire_def now_def
        Let_def is_mouse_def end_message_def one_shown_def)
qed

definition one_frame :: frame_size where
  "one_frame = \<lparr>fs_detail_lines = 5, fs_detail_height = 10, fs_value_label = 3, fs_help_lines = 40, fs_help_height = 20\<rparr>"

theorem ui_invariant_witness:
  "let u = fst (ui_run toy_tui [Event (Character ''r'')] (ui_start toy_tui no_marks (one_store, toy_world)))
   in ui_revealed u = Some ''v'' \<and> \<not> in_form (ui_mode u) \<and> ui_add_value u = []"
proof -
  let ?s = "ui_run toy_tui [Event (Character ''r'')] (ui_start toy_tui no_marks (one_store, toy_world))"
  have d: "served_ok (te_libs toy_tui) (one_store, toy_world)" using one_service by (simp add: served_ok_def toy_tui_def)
  have "ui_revealed (fst ?s) = Some ''v''" using one_reveals by (simp add: one_shown_def)
  moreover have "?s = (fst ?s, snd ?s)" by (simp del: ui_run.simps)
  ultimately show ?thesis
    using ui_invariant [OF toy_tui_daemon toy_tui_menu d, of "[Event (Character ''r'')]" no_marks "fst ?s" "snd ?s"]
    by (auto simp: Let_def simp del: ui_run.simps)
qed

theorem shown_value_was_stored_witness:
  "\<exists>u d' n. ui_run toy_tui [Event (Character ''r'')] (ui_start toy_tui no_marks (one_store, toy_world)) = (u, d') \<and>
     ui_revealed (draw_frame one_frame u) = Some ''v'' \<and> selected_id (draw_frame one_frame u) = ''k'' \<and>
     served_view (snd (ui_run toy_tui (take n [Event (Character ''r'')])
       (ui_start toy_tui no_marks (one_store, toy_world)))) ''k'' = Some ''v''"
proof -
  obtain u d' where run: "ui_run toy_tui [Event (Character ''r'')] (ui_start toy_tui no_marks (one_store, toy_world)) = (u, d')"
    by (cases "ui_run toy_tui [Event (Character ''r'')] (ui_start toy_tui no_marks (one_store, toy_world))")
  have d: "served_ok (te_libs toy_tui) (one_store, toy_world)" using one_service by (simp add: served_ok_def toy_tui_def)
  have "one_shown (u, d')" using one_reveals [of toy_world] unfolding run .
  then have shown: "ui_revealed (draw_frame one_frame u) = Some ''v''" "selected_id (draw_frame one_frame u) = ''k''"
    by (simp_all add: one_shown_def draw_frame_def sync_selection_def scroll_detail_def scroll_help_def Let_def
        selected_id_def row_at_def)
  show ?thesis
    using shown_value_was_stored [OF toy_tui_daemon toy_tui_menu d run shown(1)] run shown by auto
qed

theorem ui_changes_confirmed_witness:
  "\<exists>u d u' d' u1 d1.
     ui_run toy_tui [] (ui_start toy_tui no_marks (one_store, toy_world)) = (u, d) \<and>
     ui_step toy_tui (Character ''d'') (u, d) = (u', d') \<and> ui_mode u' = ConfirmDelete \<and>
     form_saved toy u d d1 \<and> confirmed toy (Character ''d'') u1 d1 d' \<and> served_view d' = served_view d"
proof -
  let ?e = "Character ''d''"
  obtain u w where s: "ui_start toy_tui no_marks (one_store, toy_world) = (u, (one_store, w))"
    "u = fresh_ui\<lparr>ui_keys := [''k''], ui_rows := [\<lparr>row_id = ''k'', row_dir = False, row_depth = 0\<rparr>], ui_labels := [''k'']\<rparr>"
    using one_starts by blast
  let ?d = "(one_store, w)"
  have run: "ui_run toy_tui [] (ui_start toy_tui no_marks (one_store, toy_world)) = (u, ?d)" by (simp add: s(1))
  have ok: "served_ok (te_libs toy_tui) (one_store, toy_world)" using one_service by (simp add: served_ok_def toy_tui_def)
  obtain u' d' where step: "ui_step toy_tui ?e (u, ?d) = (u', d')" by (cases "ui_step toy_tui ?e (u, ?d)")
  obtain u1 d1 where st: "settled toy_tui ?e u ?d = (u1, d1)" by (cases "settled toy_tui ?e u ?d")
  have "form_saved toy u ?d d1 \<and> confirmed toy ?e u1 d1 d'"
    using ui_changes_confirmed [OF toy_tui_daemon toy_tui_menu ok run step st] by (simp add: toy_tui_def)
  moreover have "ui_mode u' = ConfirmDelete \<and> d' = ?d"
    using step
    by (auto simp: s(2) ui_step_def on_event_def settle_held_key_def after_held_def key_event_def
        mode_event_def normal_event_def taken_def need_key_def current_key_def
        toy_tui_def fresh_ui_def remask_def sync_selection_def selected_id_def row_at_def expire_def now_def
        Let_def is_mouse_def end_message_def)
  ultimately show ?thesis using run step by blast
qed

theorem paste_runs_nothing_witness:
  "let u = fresh_ui\<lparr>ui_pasting := True\<rparr>;
       pasted = map Event [Character ''q'', Character ''d'', Character ''y'', ReturnKey]
   in ui_exited (fst (ui_run toy_tui pasted (u, (one_store, toy_world)))) = False \<and>
      snd (ui_run toy_tui pasted (u, (one_store, toy_world))) = (one_store, toy_world)"
proof -
  have "ui_pasting (fresh_ui\<lparr>ui_pasting := True\<rparr>)" "ui_held_since (fresh_ui\<lparr>ui_pasting := True\<rparr>) = None"
    by (simp_all add: fresh_ui_def)
  note r = paste_runs_nothing [OF this, where V = toy_tui and d = "(one_store, toy_world)" and
      inputs = "map Event [Character ''q'', Character ''d'', Character ''y'', ReturnKey]"]
  show ?thesis using r by (simp add: in_paste_def paste_keeps_def fresh_ui_def Let_def del: ui_run.simps)
qed

end
