(* ===== verification/TuiDrawProps.thy ===== *)
theory TuiDrawProps
  imports TuiFit TuiProps CommandProps
begin






text \<open>
  C22. Nothing drawn can act on the terminal: in every state the UI reaches, whatever the names and
  values in the store, the messages of the daemon and the manifest hold, no text handed to FTXUI
  has a control character (C0, DEL or C1), as long as the path of the socket has none.
\<close>

theorem frame_harmless:
  assumes "tui_daemon V" and "menu_ok V" and "served_ok (te_libs V) d" and "\<not> has_control_char socket"
    and "ui_run V inputs (ui_start V (load_project_marks S Y relative cwd) d) = (u, d')"
  shows "\<forall>s \<in> set (drawn_texts (fst (draw (load_project_marks S Y relative cwd) socket t T u))). \<not> has_control_char s"
proof -
  have "sel_ok u"
    using run_inv_start [OF assms(1-3), of inputs "load_project_marks S Y relative cwd"] unfolding assms(5)
    by (auto simp: run_inv_def ui_ok_def)
  then show ?thesis using drawn_safe [OF load_marks_ok _ assms(4)] by blast
qed

section \<open>Frames\<close>

definition small_terminal :: terminal_size where "small_terminal = \<lparr>ts_x = 90, ts_y = 9\<rparr>"

definition one_ui :: ui where
  "one_ui = fresh_ui\<lparr>ui_keys := [''k''], ui_rows := [\<lparr>row_id = ''k'', row_dir = False, row_depth = 0\<rparr>], ui_labels := [''k'']\<rparr>"









text \<open>A project that is refused with an escape sequence in the reason.\<close>

definition noisy_marks :: project_marks where
  "noisy_marks = load_project_marks toy_system toy_yaml (\<lambda>path. None) (Inl (CHR 0x1B # ''[2J''))"

theorem frame_harmless_witness:
  "\<exists>u d'. ui_run toy_tui [] (ui_start toy_tui noisy_marks (one_store, toy_world)) = (u, d') \<and> has_control_char (ui_status u) \<and>
     sb_last (dr_status (fst (draw noisy_marks ''/s'' 0 small_terminal u))) \<noteq> [] \<and>
     (\<forall>s \<in> set (drawn_texts (fst (draw noisy_marks ''/s'' 0 small_terminal u))). \<not> has_control_char s)"
proof -
  obtain w' where r: "request toy 7 (daemon_peer toy 7 (dc_token toy_client)) toy_client ''list'' [] None (one_store, toy_world)
     = (Inr (success [(''keys'', JArray [JString ''k''])]), (one_store, w'))"
    using one_lists by blast
  have rows: "build_rows [''k''] [] {} = ([\<lparr>row_id = ''k'', row_dir = False, row_depth = 0\<rparr>], [''k''])" by code_simp
  have keys: "listed_keys toy (success [(''keys'', JArray [JString ''k''])]) = Inr [''k'']" by code_simp
  have problem: "pm_problem noisy_marks = ''nothing marked: '' @ CHR 0x1B # ''[2J''"
    by (simp add: noisy_marks_def load_project_marks_def marks_problem_def)
  let ?u = "complain (pm_problem noisy_marks) one_ui"
  have s: "ui_start toy_tui noisy_marks (one_store, toy_world) = (?u, (one_store, w'))"
    by (simp add: ui_start_def refresh_def call_def local_request_def toy_tui_def r rows keys rebuild_rows_def problem
        one_ui_def fresh_ui_def remask_def Let_def)
  have d: "served_ok (te_libs toy_tui) (one_store, toy_world)" using one_service by (simp add: served_ok_def toy_tui_def)
  have "ui_run toy_tui [] (ui_start toy_tui noisy_marks (one_store, toy_world)) = (?u, (one_store, w'))" by (simp add: s)
  moreover from this [unfolded noisy_marks_def]
  have "\<forall>x \<in> set (drawn_texts (fst (draw noisy_marks ''/s'' 0 small_terminal ?u))). \<not> has_control_char x"
    unfolding noisy_marks_def
    by (rule frame_harmless [OF toy_tui_daemon toy_tui_menu d, rotated]) code_simp
  moreover have "has_control_char (ui_status ?u)" by (simp add: complain_def problem is_c0_def byte_def)
  moreover have "sb_last (dr_status (fst (draw noisy_marks ''/s'' 0 small_terminal ?u))) \<noteq> []"
  proof -
    have "sb_last (status_bar_of ''/s'' 0 small_terminal
        (sync_selection (complain (''nothing marked: '' @ CHR 0x1B # ''[2J'') one_ui))) \<noteq> []"
      by code_simp
    then show ?thesis by (simp add: draw_def Let_def problem)
  qed
  ultimately show ?thesis by blast
qed

end
