(* ===== verification/Spec2Isabelle.thy ===== *)
theory Spec2Isabelle
  imports StoreProps LifeProps ListenerProps ManifestProps ImportProps CommandLineProps TuiDrawProps
begin

text \<open>
  secretov keeps secrets in one encrypted file. A daemon holds the unlocked store and answers
  requests on a unix socket; the command line client, the terminal UI and \<open>exec\<close> are its clients.
  This library models the C++ program under src/src/ and proves what makes it correct. The model
  is a shallow embedding: a C++ function is a HOL function, an exception is the left value of a
  sum, a member function or a system call that changes something takes and returns the object
  and the \<open>world\<close> (files, outcomes of the coming system calls, clock ticks).

  \<^bold>\<open>The parts and how they interact.\<close>

  client command or terminal UI --- backend (\<open>LocalBackend\<close>) --- \<open>DaemonClient\<close> --- unix socket,
  one line per message --- JSON request or response --- daemon (\<open>dispatch\<close>) --- \<open>Store\<close> ---
  \<open>write_file_atomic\<close> --- file system. Beside this line stand the manifests (which secrets become
  which environment variables), the dotenv files that \<open>import\<close> reads, and the trust checks on the
  files and directories that hold them.

  \<^bold>\<open>Shared ground.\<close>
  \<^item> \<open>Prelude\<close>: results that may be exceptions and the collection \<open>result_simps\<close>, characters and
    strings, \<open>std::map\<close> as a sorted list of pairs. Locale \<open>ordered_map\<close> (interpretation \<open>smap\<close>).
  \<^item> \<open>Libs\<close>: the libraries as the record \<open>libs\<close> (functions and size constants of libsodium, parser
    and printer of nlohmann::json) and what is relied on as \<open>libs_ok\<close>: a box opens with the key
    and nonce it was made with, parsing inverts printing, the limits are ordered.
    The \<open>world\<close> and the state-and-exception composition \<open>bindA\<close>.
  \<^item> \<open>Concrete\<close>, \<open>Examples\<close>: a toy instance of all parameters that satisfies \<open>libs_ok\<close>, and one run
    of the program on it. Every witness beside a property computes on this instance.

  \<^bold>\<open>The store\<close> (src/src/store.cpp, store.hpp, paths.hpp).
  \<^item> \<open>FileWrite\<close>: \<open>write_file_atomic\<close> as a machine with one state per system call; an outcome of a
    call is success, a short write, an error, or the death of the process. Proved: at every point
    the path holds the old file or the complete new one, a third path is never touched, and
    positive short writes add up to the whole text, so the list of outcomes is the only bound.
  \<^item> \<open>Store\<close>: header, envelope and the operations \<open>create\<close>, \<open>open\<close> (versions 1 and 2), \<open>get\<close>, \<open>set\<close>,
    \<open>remove\<close>, \<open>list\<close>, \<open>rotate\<close>, \<open>change_passphrase\<close>, with every throw of the code. Limits and times
    are \<open>64 word\<close>s. \<open>StoreFacts\<close>: header round trip, \<open>synced\<close> (the file is the store in memory).
    \<open>StoreInv\<close>: the operations as the steps of a machine, \<open>store_step_cases\<close>, invariant \<open>synced\<close>.
    \<open>StoreOpen\<close>: a store that opens, reopening, migration. \<open>StoreProps\<close>: the properties.

  \<^bold>\<open>Protocol, transport, daemon\<close> (protocol.hpp, transport.cpp, daemon.cpp).
  \<^item> \<open>Protocol\<close>: requests and responses over the JSON parameter. \<open>Transport\<close>: the framing
    \<open>read_line\<close> and \<open>write_line\<close> over a stream that the system cuts anywhere, with the limit
    \<open>kMaxRequestBytes\<close>; a client can always make the daemon drop the connection but never make it
    buffer more than the limit and one chunk.
  \<^item> \<open>Listener\<close>: the constructor and the removal of the socket as a machine of system calls. It makes at
    most nine, so nine steps are enough fuel. \<open>ListenerProps\<close>: what is no socket is kept, and so is a
    socket on which a process listens as long as the probe's own calls work; where they do not, the
    socket of a running daemon goes.
  \<^item> \<open>Daemon\<close>: dispatch, token check, the loop over lines and over connections, the start with its
    automatic rotation. \<open>Service\<close>: locale \<open>kv_service\<close>, a store that changes like a finite map
    (interpretation \<open>kv\<close> on the encrypted store). \<open>DaemonFacts\<close>: dispatch is the abstract \<open>kv_spec\<close>,
    a stranger learns and changes nothing. \<open>DaemonProps\<close>: the properties.
  \<^item> \<open>Simulation\<close>, \<open>Vault\<close>, \<open>Life\<close>, \<open>LifeProps\<close>: the life of a store file (created, unlocked by a
    daemon, serving, killed anywhere, stopped, started again) as the inductive step relation
    \<open>sys_step\<close> over the definitions of store and daemon. Locale \<open>forward_simulation\<close>
    (interpretation \<open>life\<close>): every run is a run of \<open>vault_step\<close>, whose state is the secrets and the
    passphrases, unless a file holds two stores (\<open>twofold\<close>), for which one ciphertext
    has to open under two keys (\<open>twofold_keys\<close>).

  \<^bold>\<open>The client\<close> (client.cpp, backend.cpp, main.cpp, the rest of paths.hpp).
  \<^item> \<open>Paths\<close>: where files live, \<open>private_socket_dir\<close> (the mode asked for, the umask, and what others
    do between two calls), reading a secret line. \<open>Client\<close>: \<open>DaemonClient\<close>
    and the backend. \<open>EndToEnd\<close>: client, framing, daemon and store composed; \<open>Completes\<close>: requests
    that fit do return; \<open>RequestEffects\<close>: what a request may have done when no answer came;
    \<open>Delivery\<close>: the same on connections that break anywhere, where a line without its newline is
    not dispatched.
    \<open>LocalBackend\<close>: the batched fetch is a lookup per path (locale \<open>secret_backend\<close>,
    interpretation \<open>lb\<close>). \<open>ClientProps\<close>: the properties.
  \<^item> \<open>Commands\<close>, \<open>CommandsFacts\<close>, \<open>CommandProps\<close>: scopes, \<open>resolve\<close>, \<open>exec\<close>. \<open>CommandLine\<close> and
    \<open>CommandLineProps\<close>: the remaining commands and \<open>main\<close>. \<open>Import\<close> and \<open>ImportProps\<close>: \<open>import\<close>.

  \<^bold>\<open>Manifests\<close> (manifest.cpp, manifest.hpp).
  \<^item> \<open>Names\<close>: the accepted and the refused names. \<open>Lines\<close>, \<open>Dotenv\<close>: text by lines, \<open>parse_dotenv\<close> and
    its round trip. \<open>Manifest\<close>, \<open>ManifestFacts\<close>: the walk over a parsed YAML document and what a
    manifest that loads is known to hold. \<open>ManifestEdit\<close>: editing the text; \<open>only_entries_added\<close> says
    which lines an edit may add, and the result is checked by parsing it again. \<open>Trust\<close>, \<open>ManifestFiles\<close>: owners, modes, groups, the search upward, the
    registry; every answer of the system is a field of the record \<open>system\<close>. \<open>ManifestProps\<close>.

  \<^bold>\<open>The terminal UI\<close> (tui_edit.cpp, tui.cpp).
  \<^item> \<open>TuiEdit\<close>, \<open>TuiEditFacts\<close>: the text helpers; cursors and widths are C++ \<open>int\<close>s and are modelled
    by \<open>int\<close>, since every text is far shorter than 2^31 bytes. \<open>TuiRows\<close>: the rows of the key tree equal
    the visible keys and folders, each once and in order, also for a key that ends in a slash.
  \<^item> \<open>Tui\<close>: the record of the state of \<open>run_ui\<close> and its lambdas; \<open>TuiEvents\<close>: the event handler;
    \<open>TuiStart\<close>: what runs before the loop. \<open>TuiInv\<close>, \<open>TuiSafety\<close>, \<open>TuiRuns\<close>: the invariant of every
    reachable state, which events change secrets, where a shown value comes from. \<open>TuiProps\<close>.
  \<^item> \<open>TuiDraw\<close>, \<open>TuiOverlay\<close>: every text and size a frame hands to FTXUI. \<open>TuiDrawFacts\<close>, \<open>TuiFit\<close>:
    no control characters, the panes fit the terminal. \<open>TuiDrawProps\<close>. What the two inputs of the
    form draw is FTXUI's.

  \<^bold>\<open>What the lemmas show.\<close> Refinement: dispatch, and a request from a client, behave as a finite
  map from keys to values; the whole life of a store file is the life of an abstract vault, in
  which no secret is lost and the owner is not locked out. Crash safety: whatever call fails and wherever the process dies, the
  store file is a complete store, the old or the new one. Access: without the token nothing is
  learnt or changed; nothing is sent to a process of another user. The environment of a child:
  secrets are the stored ones, and no refused variable is set, whatever the manifest says. The UI: secrets change
  only on a confirmed action, a paste runs no command, hostile text reaches no terminal. Round
  trips, bounds and termination of the parts are proved beside their definitions.

  \<^bold>\<open>Parameters.\<close> libsodium and nlohmann::json (\<open>libs\<close>); yaml-cpp, whose parsed document is a
  datatype and whose parser is an argument; FTXUI's menu and the form's focus (\<open>te_menu\<close>, \<open>te_form\<close>,
  with \<open>menu_ok\<close>: a menu moves its selection within its entries); the answers of the operating system and the
  account databases; the paths the system resolves; \<open>execvp\<close>. The sodium helpers \<open>bin2hex\<close> and
  base64 are parameters about which nothing is assumed.

  \<^bold>\<open>Not modelled.\<close> Clearing of buffers (\<open>sodium_memzero\<close>, \<open>wipe\<close>) has no effect on values and is left
  out, as are the effect of the core dump limit (its failure is modelled), the installation of signal handlers and the socket
  timeouts. Usage texts and messages on stderr are not output of the model, except where a message
  is the text of an exception. Colours (\<open>make_theme\<close>) and the decoration of widgets are FTXUI's;
  the thread that posts a tick is represented by its tick events. Moves and destructors of
  the C++ objects, and class declarations in headers, have no counterpart beyond the
  operations they declare.
\<close>

end
